(* ===== verification/Prelude.thy ===== *)
theory Prelude
  imports Main "HOL-Library.Word"
begin

text \<open>
  Shared vocabulary of the development: bytes and machine integers, the results of fallible
  operations, slices and byte encodings, hash maps built from lists of pairs, and the generic
  lemmas about them that every component uses.

  A Rust \<open>Result<T, E>\<close> is a value of the sum type \<open>'e + 'a\<close> (\<open>Inl\<close> the error). The operator
  \<open>?\<close> is \<open>try_bind\<close>, \<open>map_err\<close> is \<open>map_err\<close>, \<open>collect::<Result<Vec<_>>>()\<close> is \<open>traverse\<close>. A Rust
  \<open>usize\<close> is a natural number; the places where an addition of caller-chosen values can leave
  the machine range write the bound \<open>USIZE_LIMIT\<close> out.
\<close>

section \<open>Types\<close>

type_synonym byte = "8 word"
type_synonym bytes = "byte list"
type_synonym u16 = "16 word"
type_synonym u32 = "32 word"
type_synonym u64 = "64 word"
type_synonym u256 = "256 word"
type_synonym xorname = bytes

definition USIZE_LIMIT :: nat where
  "USIZE_LIMIT = 2 ^ 64"

named_theorems model_simps \<open>unfolding rules of the model's operations\<close>
named_theorems result_simps \<open>inversion rules for results of fallible operations\<close>

section \<open>Results\<close>

definition try_bind :: "'e + 'a \<Rightarrow> ('a \<Rightarrow> 'e + 'b) \<Rightarrow> 'e + 'b" where
  "try_bind m f = (case m of Inl e \<Rightarrow> Inl e | Inr x \<Rightarrow> f x)"

definition map_err :: "('e \<Rightarrow> 'f) \<Rightarrow> 'e + 'a \<Rightarrow> 'f + 'a" where
  "map_err g m = (case m of Inl e \<Rightarrow> Inl (g e) | Inr x \<Rightarrow> Inr x)"

definition ok_or :: "'e \<Rightarrow> 'a option \<Rightarrow> 'e + 'a" where
  "ok_or e x = (case x of None \<Rightarrow> Inl e | Some y \<Rightarrow> Inr y)"

definition is_ok :: "'e + 'a \<Rightarrow> bool" where
  "is_ok m = (case m of Inl _ \<Rightarrow> False | Inr _ \<Rightarrow> True)"

fun traverse :: "('a \<Rightarrow> 'e + 'b) \<Rightarrow> 'a list \<Rightarrow> 'e + 'b list" where
  "traverse f [] = Inr []"
| "traverse f (x # xs) =
     try_bind (f x) (\<lambda>y. try_bind (traverse f xs) (\<lambda>ys. Inr (y # ys)))"

lemma try_bind_simps [simp]:
  "try_bind (Inl e) f = Inl e"
  "try_bind (Inr x) f = f x"
  by (simp_all add: try_bind_def)

lemma try_bind_Inr [result_simps]:
  "try_bind m f = Inr y \<longleftrightarrow> (\<exists>x. m = Inr x \<and> f x = Inr y)"
  by (cases m) auto

lemma try_bind_Inl [result_simps]:
  "try_bind m f = Inl e \<longleftrightarrow> m = Inl e \<or> (\<exists>x. m = Inr x \<and> f x = Inl e)"
  by (cases m) auto

lemma try_bind_assoc: "try_bind (try_bind m f) g = try_bind m (\<lambda>x. try_bind (f x) g)"
  by (cases m) auto

lemma try_bind_cong [fundef_cong]:
  "m = m' \<Longrightarrow> (\<And>x. m' = Inr x \<Longrightarrow> f x = f' x) \<Longrightarrow> try_bind m f = try_bind m' f'"
  by (cases m') auto

lemma map_err_simps [simp]:
  "map_err g (Inl e) = Inl (g e)"
  "map_err g (Inr x) = Inr x"
  by (simp_all add: map_err_def)

lemma map_err_Inr [result_simps]: "map_err g m = Inr y \<longleftrightarrow> m = Inr y"
  by (cases m) auto

lemma map_err_Inl [result_simps]: "map_err g m = Inl e \<longleftrightarrow> (\<exists>d. m = Inl d \<and> e = g d)"
  by (cases m) auto

lemma ok_or_simps [simp]:
  "ok_or e None = Inl e"
  "ok_or e (Some x) = Inr x"
  by (simp_all add: ok_or_def)

lemma ok_or_Inr [result_simps]: "ok_or e x = Inr y \<longleftrightarrow> x = Some y"
  by (cases x) auto

lemma ok_or_Inl [result_simps]: "ok_or e x = Inl d \<longleftrightarrow> x = None \<and> d = e"
  by (cases x) auto

primrec for_each :: "('a \<Rightarrow> 'e + unit) \<Rightarrow> 'a list \<Rightarrow> 'e + unit" where
  "for_each f [] = Inr ()"
| "for_each f (x # xs) = try_bind (f x) (\<lambda>u. for_each f xs)"

lemma for_each_ok [result_simps]: "for_each f xs = Inr u \<longleftrightarrow> (\<forall>x\<in>set xs. f x = Inr ())"
  by (induction xs) (auto simp: try_bind_Inr)

lemma for_each_append: "for_each f (xs @ ys) = try_bind (for_each f xs) (\<lambda>u. for_each f ys)"
  by (induction xs) (auto simp: try_bind_def split: sum.splits)

lemma is_ok_simps [simp]: "\<not> is_ok (Inl e)" "is_ok (Inr x)"
  by (simp_all add: is_ok_def)

lemma is_ok_iff: "is_ok m \<longleftrightarrow> (\<exists>x. m = Inr x)"
  by (cases m) auto

lemma traverse_cong [fundef_cong]:
  "xs = ys \<Longrightarrow> (\<And>x. x \<in> set ys \<Longrightarrow> f x = g x) \<Longrightarrow> traverse f xs = traverse g ys"
  by (induction xs arbitrary: ys) auto

lemma traverse_append:
  "traverse f (xs @ ys) =
     try_bind (traverse f xs) (\<lambda>us. try_bind (traverse f ys) (\<lambda>vs. Inr (us @ vs)))"
proof (induction xs)
  case Nil
  show ?case by (cases "traverse f ys") auto
next
  case (Cons x xs)
  then show ?case
    by (cases "f x"; cases "traverse f xs"; cases "traverse f ys") auto
qed

lemma traverse_Inr_iff:
  "traverse f xs = Inr ys \<longleftrightarrow> list_all2 (\<lambda>x y. f x = Inr y) xs ys"
  by (induction xs arbitrary: ys) (auto simp: list_all2_Cons1 result_simps)

lemma traverse_length: "traverse f xs = Inr ys \<Longrightarrow> length ys = length xs"
  by (auto simp: traverse_Inr_iff dest: list_all2_lengthD)

lemma traverse_nth:
  "traverse f xs = Inr ys \<Longrightarrow> i < length xs \<Longrightarrow> f (xs ! i) = Inr (ys ! i)"
  by (auto simp: traverse_Inr_iff dest: list_all2_nthD)

lemma traverse_pure: "(\<And>x. x \<in> set xs \<Longrightarrow> f x = Inr (g x)) \<Longrightarrow> traverse f xs = Inr (map g xs)"
  by (induction xs) auto

lemma traverse_total: "(\<And>x. x \<in> set xs \<Longrightarrow> is_ok (f x)) \<Longrightarrow> is_ok (traverse f xs)"
proof (induction xs)
  case (Cons x xs)
  then obtain y ys where "f x = Inr y" "traverse f xs = Inr ys"
    by (meson is_ok_iff list.set_intros)
  then show ?case by simp
qed simp

lemma traverse_Inl_mem: "traverse f xs = Inl e \<Longrightarrow> \<exists>x \<in> set xs. f x = Inl e"
  by (induction xs) (auto simp: result_simps)

lemma traverse_ok_or_missing:
  assumes "x \<in> set xs" "g x = None"
  shows "\<exists>y \<in> set xs. g y = None \<and> traverse (\<lambda>x. ok_or (err x) (g x)) xs = Inl (err y)"
  using assms
proof (induction xs)
  case (Cons a xs)
  then show ?case by (cases "g a") force+
qed simp

section \<open>Slices and list surgery\<close>

definition slice_of :: "nat \<Rightarrow> nat \<Rightarrow> 'a list \<Rightarrow> 'a list" where
  "slice_of a b xs = take (b - a) (drop a xs)"

definition insert_at :: "nat \<Rightarrow> 'a \<Rightarrow> 'a list \<Rightarrow> 'a list" where
  "insert_at i x xs = take i xs @ x # drop i xs"

definition nth_opt :: "'a list \<Rightarrow> nat \<Rightarrow> 'a option" where
  "nth_opt xs i = (if i < length xs then Some (xs ! i) else None)"

lemma length_slice [simp]: "b \<le> length xs \<Longrightarrow> length (slice_of a b xs) = b - a"
  by (simp add: slice_of_def)

lemma slice_full [simp]: "slice_of 0 (length xs) xs = xs"
  by (simp add: slice_of_def)

lemma slice_append_adjacent:
  assumes "a \<le> b" "b \<le> c"
  shows "slice_of a b xs @ slice_of b c xs = slice_of a c xs"
proof -
  have "slice_of a c xs = take (b - a + (c - b)) (drop a xs)"
    using assms by (simp add: slice_of_def)
  also have "\<dots> = take (b - a) (drop a xs) @ take (c - b) (drop (b - a) (drop a xs))"
    by (rule take_add)
  finally show ?thesis using assms by (simp add: slice_of_def)
qed

text \<open>A range read out of a larger range that was fetched for it.\<close>

lemma slice_of_window:
  assumes "a \<le> p" "min (p + n) (length xs) \<le> b" "b \<le> length xs"
  shows "slice_of (p - a) (p - a + min n (b - a - (p - a))) (slice_of a b xs) = slice_of p (p + n) xs"
proof (cases "n \<le> b - p")
  case True
  then show ?thesis using assms by (simp add: slice_of_def drop_take)
next
  case False
  then have "b = length xs \<or> length xs \<le> p" using assms by auto
  then show ?thesis using False assms by (auto simp: slice_of_def drop_take)
qed

lemma slice_beyond: "length xs \<le> a \<Longrightarrow> slice_of a b xs = []"
  by (simp add: slice_of_def)

lemma filter_between_upt: "e < n \<Longrightarrow> filter (\<lambda>i. s \<le> i \<and> i \<le> e) [0..<n] = [s..<Suc e]"
  by (rule sorted_distinct_set_unique) (auto simp: sorted_wrt_filter simp del: upt_Suc)

lemma slice_prefix: "slice_of 0 (length xs) (xs @ ys) = xs"
  by (simp add: slice_of_def)

lemma slice_middle:
  "a = length xs \<Longrightarrow> b = length xs + length ys \<Longrightarrow> slice_of a b (xs @ ys @ zs) = ys"
  by (simp add: slice_of_def)

lemma nth_opt_Some [simp]: "nth_opt xs i = Some x \<longleftrightarrow> i < length xs \<and> x = xs ! i"
  by (auto simp: nth_opt_def)

lemma nth_opt_None [simp]: "nth_opt xs i = None \<longleftrightarrow> length xs \<le> i"
  by (auto simp: nth_opt_def)

lemma nth_opt_in [simp]: "i < length xs \<Longrightarrow> nth_opt xs i = Some (xs ! i)"
  by simp

lemma insert_at_0 [simp]: "insert_at 0 x xs = x # xs"
  by (simp add: insert_at_def)

lemma insert_at_1 [simp]: "insert_at (Suc 0) x (y # xs) = y # x # xs"
  by (simp add: insert_at_def)

section \<open>Byte encodings of machine integers\<close>

text \<open>\<open>to_le_bytes\<close>, \<open>to_be_bytes\<close> and their inverses, for integers of \<open>n\<close> bytes.\<close>

fun le_bytes :: "nat \<Rightarrow> nat \<Rightarrow> bytes" where
  "le_bytes 0 x = []"
| "le_bytes (Suc n) x = word_of_nat x # le_bytes n (x div 256)"

fun le_value :: "bytes \<Rightarrow> nat" where
  "le_value [] = 0"
| "le_value (b # bs) = unat b + 256 * le_value bs"

definition be_bytes :: "nat \<Rightarrow> nat \<Rightarrow> bytes" where
  "be_bytes n x = rev (le_bytes n x)"

definition be_value :: "bytes \<Rightarrow> nat" where
  "be_value bs = le_value (rev bs)"

lemma length_le_bytes [simp]: "length (le_bytes n x) = n"
  by (induction n arbitrary: x) auto

lemma length_be_bytes [simp]: "length (be_bytes n x) = n"
  by (simp add: be_bytes_def)

lemma unat_byte_of_nat [simp]: "unat (word_of_nat x :: byte) = x mod 256"
  by (simp add: unat_of_nat)

lemma le_value_le_bytes: "le_value (le_bytes n x) = x mod 256 ^ n"
proof (induction n arbitrary: x)
  case 0
  show ?case by simp
next
  case (Suc n)
  have "le_value (le_bytes (Suc n) x) = x mod 256 + 256 * (x div 256 mod 256 ^ n)"
    by (simp add: Suc.IH)
  also have "\<dots> = x mod (256 * 256 ^ n)"
    by (simp add: mod_mult2_eq add.commute)
  finally show ?case by simp
qed

lemma be_value_be_bytes: "be_value (be_bytes n x) = x mod 256 ^ n"
  by (simp add: be_value_def be_bytes_def le_value_le_bytes)

lemma le_bytes_le_value: "le_bytes (length bs) (le_value bs) = bs"
proof (induction bs)
  case (Cons b bs)
  have "unat b < 256" using unsigned_less [of b] by simp
  moreover have "(word_of_nat (unat b + 256 * le_value bs) :: byte) = b"
  proof -
    have "unat (word_of_nat (unat b + 256 * le_value bs) :: byte) = unat b"
      by (simp only: unat_byte_of_nat) (use \<open>unat b < 256\<close> in simp)
    then show ?thesis by (simp only: word_unat_eq_iff)
  qed
  ultimately show ?case using Cons by simp
qed simp

lemma be_bytes_be_value: "length bs = n \<Longrightarrow> be_bytes n (be_value bs) = bs"
  using le_bytes_le_value [of "rev bs"] by (simp add: be_value_def be_bytes_def)

lemma le_bytes_inject:
  "x < 256 ^ n \<Longrightarrow> y < 256 ^ n \<Longrightarrow> le_bytes n x = le_bytes n y \<longleftrightarrow> x = y"
  by (metis le_value_le_bytes mod_less)

lemma be_bytes_inject:
  "x < 256 ^ n \<Longrightarrow> y < 256 ^ n \<Longrightarrow> be_bytes n x = be_bytes n y \<longleftrightarrow> x = y"
  by (simp add: be_bytes_def le_bytes_inject)

definition u16_be :: "u16 \<Rightarrow> bytes" where
  "u16_be w = be_bytes 2 (unat w)"

definition u32_be :: "u32 \<Rightarrow> bytes" where
  "u32_be w = be_bytes 4 (unat w)"

definition u16_of_be :: "bytes \<Rightarrow> u16" where
  "u16_of_be bs = word_of_nat (be_value bs)"

definition u32_of_be :: "bytes \<Rightarrow> u32" where
  "u32_of_be bs = word_of_nat (be_value bs)"

lemma length_u16_be [simp]: "length (u16_be w) = 2"
  by (simp add: u16_be_def)

lemma length_u32_be [simp]: "length (u32_be w) = 4"
  by (simp add: u32_be_def)

lemma u16_of_be_u16_be [simp]: "u16_of_be (u16_be w) = w"
proof -
  have "unat w < 256 ^ 2" using unsigned_less [of w] by simp
  then show ?thesis by (simp add: u16_of_be_def u16_be_def be_value_be_bytes)
qed

lemma u32_of_be_u32_be [simp]: "u32_of_be (u32_be w) = w"
proof -
  have "unat w < 256 ^ 4" using unsigned_less [of w] by simp
  then show ?thesis by (simp add: u32_of_be_def u32_be_def be_value_be_bytes)
qed

lemma u32_be_inject [simp]: "u32_be v = u32_be w \<longleftrightarrow> v = w"
  by (metis u32_of_be_u32_be)

section \<open>Hash maps collected from pairs\<close>

text \<open>
  \<open>iter().collect::<HashMap<_, _>>()\<close>: later pairs overwrite earlier ones with the same key.
\<close>

definition hash_map_of :: "('k \<times> 'v) list \<Rightarrow> 'k \<rightharpoonup> 'v" where
  "hash_map_of ps = map_of (rev ps)"

lemma hash_map_of_Some_mem: "hash_map_of ps k = Some v \<Longrightarrow> (k, v) \<in> set ps"
  by (auto simp: hash_map_of_def dest: map_of_SomeD)

lemma hash_map_of_None: "hash_map_of ps k = None \<longleftrightarrow> k \<notin> fst ` set ps"
  by (simp add: hash_map_of_def map_of_eq_None_iff)

lemma hash_map_of_keyed:
  assumes "inj_on f (set xs)" "x \<in> set xs"
  shows "hash_map_of (map (\<lambda>x. (f x, x)) xs) (f x) = Some x"
proof -
  have "hash_map_of (map (\<lambda>x. (f x, x)) xs) (f x) \<noteq> None"
    using assms(2) by (auto simp: hash_map_of_None image_iff)
  then obtain y where y: "hash_map_of (map (\<lambda>x. (f x, x)) xs) (f x) = Some y" by auto
  then have "f y = f x" "y \<in> set xs" using hash_map_of_Some_mem by fastforce+
  with assms have "y = x" by (auto dest: inj_onD)
  with y show ?thesis by simp
qed

section \<open>Sums over prefixes\<close>

lemma sum_list_map_upt: "(\<Sum>i\<leftarrow>[0..<n]. f i) = (\<Sum>i<n. f i :: nat)"
  by (induction n) auto

lemma sum_list_fold: "fold (\<lambda>x acc. acc + f x) xs a = a + (\<Sum>x\<leftarrow>xs. f x :: nat)"
  by (induction xs arbitrary: a) auto

end
