(* ===== verification/Chunking.thy ===== *)
theory Chunking
  imports Prelude
begin

text \<open>
  Chunk geometry of self-encryption: \<open>src/self_encryption/src/utils.rs\<close>, from
  \<open>get_num_chunks\<close> to \<open>get_chunk_index\<close>. \<open>MAX_CHUNK_SIZE\<close> is fixed when the crate is compiled
  (environment variable, 4190208 by default), so it is the argument \<open>mcs\<close> here.

  The lemmas show that the chunks of a file are non-empty, adjacent and cover it exactly, how
  large they can be, and that \<open>get_chunk_index\<close> finds the chunk of a position.
\<close>

section \<open>Definitions\<close>

definition MIN_CHUNK_SIZE :: nat where
  "MIN_CHUNK_SIZE = 1"

definition MIN_ENCRYPTABLE_BYTES :: nat where
  "MIN_ENCRYPTABLE_BYTES = 3 * MIN_CHUNK_SIZE"

definition DEFAULT_MAX_CHUNK_SIZE :: nat where
  "DEFAULT_MAX_CHUNK_SIZE = 4190208"

definition get_num_chunks_with_variable_max :: "nat \<Rightarrow> nat \<Rightarrow> nat" where
  "get_num_chunks_with_variable_max file_size max_chunk_size =
     (if file_size < 3 * MIN_CHUNK_SIZE then 0
      else if file_size < 3 * max_chunk_size then 3
      else if max_chunk_size dvd file_size then file_size div max_chunk_size
      else file_size div max_chunk_size + 1)"

definition get_num_chunks :: "nat \<Rightarrow> nat \<Rightarrow> nat" where
  "get_num_chunks mcs file_size = get_num_chunks_with_variable_max file_size mcs"

definition get_chunk_size_with_variable_max :: "nat \<Rightarrow> nat \<Rightarrow> nat \<Rightarrow> nat" where
  "get_chunk_size_with_variable_max file_size chunk_index max_chunk_size =
     (if file_size < 3 * MIN_CHUNK_SIZE then 0
      else if file_size < 3 * max_chunk_size then
        (if chunk_index < 2 then file_size div 3 else file_size - 2 * (file_size div 3))
      else
        (let total_chunks = get_num_chunks_with_variable_max file_size max_chunk_size;
             remainder = file_size mod max_chunk_size;
             penultimate = (total_chunks - 2 = chunk_index)
         in if chunk_index < total_chunks - 2 then max_chunk_size
            else if remainder = 0 then max_chunk_size
            else if remainder < MIN_CHUNK_SIZE then
              (if penultimate then max_chunk_size - MIN_CHUNK_SIZE
               else MIN_CHUNK_SIZE + remainder)
            else if penultimate then max_chunk_size
            else remainder))"

definition get_chunk_size :: "nat \<Rightarrow> nat \<Rightarrow> nat \<Rightarrow> nat" where
  "get_chunk_size mcs file_size chunk_index =
     get_chunk_size_with_variable_max file_size chunk_index mcs"

definition get_start_position :: "nat \<Rightarrow> nat \<Rightarrow> nat \<Rightarrow> nat" where
  "get_start_position mcs file_size chunk_index =
     (let total_chunks = get_num_chunks mcs file_size
      in if total_chunks = 0 then 0
         else
           (let last_chunk = (total_chunks - 1 = chunk_index);
                first_chunk_size = get_chunk_size mcs file_size 0
            in if last_chunk then
                 first_chunk_size * (chunk_index - 1)
                   + get_chunk_size mcs file_size (chunk_index - 1)
               else first_chunk_size * chunk_index))"

definition get_start_end_positions :: "nat \<Rightarrow> nat \<Rightarrow> nat \<Rightarrow> nat \<times> nat" where
  "get_start_end_positions mcs file_size chunk_index =
     (if get_num_chunks mcs file_size = 0 then (0, 0)
      else
        (let start = get_start_position mcs file_size chunk_index
         in (start, start + get_chunk_size mcs file_size chunk_index)))"

definition get_chunk_index :: "nat \<Rightarrow> nat \<Rightarrow> nat \<Rightarrow> nat" where
  "get_chunk_index mcs file_size position =
     (let num_chunks = get_num_chunks mcs file_size
      in if num_chunks = 0 then 0
         else
           (let chunk_size = get_chunk_size mcs file_size 0;
                remainder = file_size mod chunk_size
            in if remainder = 0 \<or> MIN_CHUNK_SIZE \<le> remainder
                  \<or> position < file_size - remainder - MIN_CHUNK_SIZE
               then min (position div chunk_size) (num_chunks - 1)
               else num_chunks - 1))"

section \<open>Geometry\<close>

lemmas chunking_defs =
  get_num_chunks_def get_num_chunks_with_variable_max_def get_chunk_size_def
  get_chunk_size_with_variable_max_def MIN_CHUNK_SIZE_def MIN_ENCRYPTABLE_BYTES_def

text \<open>The two regimes: three thirds, or full chunks and a last one.\<close>

lemma small_file:
  assumes "3 \<le> fs" "fs < 3 * mcs"
  shows "get_num_chunks mcs fs = 3"
    and "get_chunk_size mcs fs i = (if i < 2 then fs div 3 else fs - 2 * (fs div 3))"
  using assms by (simp_all add: chunking_defs)

definition last_size :: "nat \<Rightarrow> nat \<Rightarrow> nat" where
  "last_size mcs fs = (if mcs dvd fs then mcs else fs mod mcs)"

lemma large_file_count:
  assumes "0 < mcs" "3 * mcs \<le> fs"
  shows "3 \<le> get_num_chunks mcs fs"
    and "(get_num_chunks mcs fs - 1) * mcs + last_size mcs fs = fs"
proof -
  have fs3: "\<not> fs < 3" using assms by linarith
  have q: "3 \<le> fs div mcs" using assms by (simp add: less_eq_div_iff_mult_less_eq)
  show "3 \<le> get_num_chunks mcs fs"
    using q fs3 assms by (simp add: chunking_defs)
  show "(get_num_chunks mcs fs - 1) * mcs + last_size mcs fs = fs"
  proof (cases "mcs dvd fs")
    case True
    then obtain k where k: "fs = mcs * k" by (elim dvdE)
    with assms have k': "fs div mcs = k" by simp
    with q have "(k - 1) * mcs + mcs = k * mcs" by (cases k) auto
    moreover have "get_num_chunks mcs fs = k" using True k' fs3 assms
      by (simp add: chunking_defs)
    ultimately show ?thesis using True k by (simp add: last_size_def mult.commute)
  next
    case False
    then show ?thesis using fs3 assms by (simp add: chunking_defs last_size_def)
  qed
qed

lemma large_file_size:
  assumes "0 < mcs" "3 * mcs \<le> fs" "i < get_num_chunks mcs fs"
  shows "get_chunk_size mcs fs i =
           (if i = get_num_chunks mcs fs - 1 then last_size mcs fs else mcs)"
proof -
  have "3 \<le> get_num_chunks mcs fs" using large_file_count assms by blast
  with assms show ?thesis
    by (auto simp: get_chunk_size_def get_chunk_size_with_variable_max_def Let_def
        MIN_CHUNK_SIZE_def last_size_def get_num_chunks_def dvd_eq_mod_eq_0)
qed

lemma last_size_pos: "0 < mcs \<Longrightarrow> 0 < last_size mcs fs"
  by (auto simp: last_size_def dvd_eq_mod_eq_0)

lemma last_size_le: "0 < mcs \<Longrightarrow> last_size mcs fs \<le> mcs"
  by (auto simp: last_size_def intro: less_imp_le)

lemma num_chunks_ge_3: "0 < mcs \<Longrightarrow> 3 \<le> fs \<Longrightarrow> 3 \<le> get_num_chunks mcs fs"
  by (cases "fs < 3 * mcs") (auto simp: small_file large_file_count)

lemma num_chunks_0: "fs < 3 \<Longrightarrow> get_num_chunks mcs fs = 0"
  by (simp add: chunking_defs)

lemma first_chunk_size:
  assumes "0 < mcs" "3 \<le> fs" "i < get_num_chunks mcs fs - 1"
  shows "get_chunk_size mcs fs i = get_chunk_size mcs fs 0"
proof (cases "fs < 3 * mcs")
  case True
  with assms show ?thesis by (simp add: small_file)
next
  case False
  with assms large_file_count [of mcs fs] show ?thesis
    by (simp add: large_file_size)
qed

lemma start_position:
  assumes "0 < mcs" "3 \<le> fs" "i < get_num_chunks mcs fs"
  shows "get_start_position mcs fs i = i * get_chunk_size mcs fs 0"
proof -
  have n: "3 \<le> get_num_chunks mcs fs" using assms num_chunks_ge_3 by blast
  show ?thesis
  proof (cases "i = get_num_chunks mcs fs - 1")
    case True
    with assms n have "get_chunk_size mcs fs (i - 1) = get_chunk_size mcs fs 0"
      by (intro first_chunk_size) auto
    moreover have "0 < i" using True n by simp
    moreover from this obtain j where "i = Suc j" by (cases i) auto
    ultimately show ?thesis using True n
      by (simp add: get_start_position_def Let_def algebra_simps)
  next
    case False
    with n show ?thesis by (auto simp: get_start_position_def Let_def)
  qed
qed

lemma total_size:
  assumes "0 < mcs" "3 \<le> fs"
  shows "(get_num_chunks mcs fs - 1) * get_chunk_size mcs fs 0
           + get_chunk_size mcs fs (get_num_chunks mcs fs - 1) = fs"
proof (cases "fs < 3 * mcs")
  case True
  with assms show ?thesis by (simp add: small_file)
next
  case False
  with assms large_file_count [of mcs fs] show ?thesis
    by (simp add: large_file_size)
qed

lemma chunk_size_pos:
  assumes "0 < mcs" "3 \<le> fs" "i < get_num_chunks mcs fs"
  shows "0 < get_chunk_size mcs fs i"
proof (cases "fs < 3 * mcs")
  case True
  have "2 * (fs div 3) < fs" using assms by simp
  with True assms show ?thesis by (auto simp: small_file)
next
  case False
  with assms show ?thesis by (simp add: large_file_size last_size_pos)
qed

definition chunk_start :: "nat \<Rightarrow> nat \<Rightarrow> nat \<Rightarrow> nat" where
  "chunk_start mcs fs i = fst (get_start_end_positions mcs fs i)"

definition chunk_end :: "nat \<Rightarrow> nat \<Rightarrow> nat \<Rightarrow> nat" where
  "chunk_end mcs fs i = snd (get_start_end_positions mcs fs i)"

lemma positions_eq: "get_start_end_positions mcs fs i = (chunk_start mcs fs i, chunk_end mcs fs i)"
  by (simp add: chunk_start_def chunk_end_def)

lemma chunk_start_eq:
  assumes "0 < mcs" "3 \<le> fs" "i < get_num_chunks mcs fs"
  shows "chunk_start mcs fs i = i * get_chunk_size mcs fs 0"
    and "chunk_end mcs fs i = chunk_start mcs fs i + get_chunk_size mcs fs i"
  using assms num_chunks_ge_3 [of mcs fs]
  by (auto simp: chunk_start_def chunk_end_def get_start_end_positions_def start_position Let_def)

lemma chunk_start_0: "0 < mcs \<Longrightarrow> 3 \<le> fs \<Longrightarrow> chunk_start mcs fs 0 = 0"
  using num_chunks_ge_3 [of mcs fs] by (simp add: chunk_start_eq)

lemma chunk_end_next:
  assumes "0 < mcs" "3 \<le> fs" "Suc i < get_num_chunks mcs fs"
  shows "chunk_end mcs fs i = chunk_start mcs fs (Suc i)"
  using assms first_chunk_size [of mcs fs i] by (simp add: chunk_start_eq)

lemma chunk_end_last:
  assumes "0 < mcs" "3 \<le> fs"
  shows "chunk_end mcs fs (get_num_chunks mcs fs - 1) = fs"
  using assms total_size [of mcs fs] num_chunks_ge_3 [of mcs fs] by (simp add: chunk_start_eq)

lemma chunk_start_mono:
  assumes "0 < mcs" "3 \<le> fs" "i < j" "j < get_num_chunks mcs fs"
  shows "chunk_end mcs fs i \<le> chunk_start mcs fs j"
proof -
  have "chunk_end mcs fs i = chunk_start mcs fs (Suc i)"
    using assms by (intro chunk_end_next) auto
  also have "\<dots> \<le> chunk_start mcs fs j"
    using assms mult_le_mono1 [of "Suc i" j "get_chunk_size mcs fs 0"]
    by (simp add: chunk_start_eq(1))
  finally show ?thesis .
qed

lemma chunk_in_file:
  assumes "0 < mcs" "3 \<le> fs" "i < get_num_chunks mcs fs"
  shows "chunk_start mcs fs i < chunk_end mcs fs i" "chunk_end mcs fs i \<le> fs"
proof -
  show "chunk_start mcs fs i < chunk_end mcs fs i"
    using assms chunk_size_pos [of mcs fs i] by (simp add: chunk_start_eq(2))
  show "chunk_end mcs fs i \<le> fs"
  proof (cases "i = get_num_chunks mcs fs - 1")
    case True
    with chunk_end_last [OF assms(1,2)] show ?thesis by simp
  next
    case False
    let ?l = "get_num_chunks mcs fs - 1"
    have l: "i < ?l" "?l < get_num_chunks mcs fs" using False assms by auto
    have "chunk_end mcs fs i \<le> chunk_start mcs fs ?l" using assms l by (intro chunk_start_mono)
    also have "\<dots> \<le> chunk_end mcs fs ?l" using assms l by (simp add: chunk_start_eq(2))
    also have "\<dots> = fs" using assms by (intro chunk_end_last)
    finally show ?thesis .
  qed
qed

section \<open>The chunks of a byte string\<close>

definition file_chunk :: "nat \<Rightarrow> 'a list \<Rightarrow> nat \<Rightarrow> 'a list" where
  "file_chunk mcs data i =
     (let (start, stop) = get_start_end_positions mcs (length data) i in slice_of start stop data)"

definition file_chunks :: "nat \<Rightarrow> 'a list \<Rightarrow> 'a list list" where
  "file_chunks mcs data = map (file_chunk mcs data) [0..<get_num_chunks mcs (length data)]"

lemma file_chunk_eq:
  "file_chunk mcs data i = slice_of (chunk_start mcs (length data) i) (chunk_end mcs (length data) i) data"
  by (simp add: file_chunk_def positions_eq)

lemma length_file_chunks [simp]: "length (file_chunks mcs data) = get_num_chunks mcs (length data)"
  by (simp add: file_chunks_def)

lemma length_file_chunk:
  assumes "0 < mcs" "3 \<le> length data" "i < get_num_chunks mcs (length data)"
  shows "length (file_chunk mcs data i) = get_chunk_size mcs (length data) i"
  using assms chunk_in_file [of mcs "length data" i] by (simp add: file_chunk_eq chunk_start_eq(2))

lemma file_chunk_nonempty:
  assumes "0 < mcs" "3 \<le> length data" "i < get_num_chunks mcs (length data)"
  shows "file_chunk mcs data i \<noteq> []"
  using length_file_chunk [OF assms] chunk_size_pos [OF assms] by auto

lemma concat_chunks_between:
  assumes "0 < mcs" "3 \<le> length data" "j + k < get_num_chunks mcs (length data)"
  shows "concat (map (file_chunk mcs data) [j..<Suc (j + k)]) =
         slice_of (chunk_start mcs (length data) j) (chunk_end mcs (length data) (j + k)) data"
  using assms(3)
proof (induction k)
  case 0
  show ?case by (simp add: file_chunk_eq)
next
  case (Suc k)
  let ?n = "length data"
  have "chunk_end mcs ?n (j + k) = chunk_start mcs ?n (Suc (j + k))"
    using assms Suc.prems by (intro chunk_end_next) auto
  moreover have "chunk_start mcs ?n (Suc (j + k)) < chunk_end mcs ?n (Suc (j + k))"
    using assms Suc.prems by (intro chunk_in_file) auto
  moreover have "chunk_start mcs ?n j \<le> chunk_start mcs ?n (Suc (j + k))"
    using assms Suc.prems chunk_start_mono [of mcs ?n j "Suc (j + k)"] chunk_in_file [of mcs ?n j]
    by simp
  moreover have "concat (map (file_chunk mcs data) [j..<Suc (j + Suc k)]) =
      slice_of (chunk_start mcs ?n j) (chunk_end mcs ?n (j + k)) data @ file_chunk mcs data (Suc (j + k))"
    using Suc.IH Suc.prems by simp
  ultimately show ?case
    by (simp add: file_chunk_eq [of mcs data "Suc (j + k)"] slice_append_adjacent del: upt_Suc)
qed

lemma concat_file_chunks:
  assumes "0 < mcs" "3 \<le> length data"
  shows "concat (file_chunks mcs data) = data"
proof -
  let ?n = "get_num_chunks mcs (length data)"
  have n: "?n = Suc (0 + (?n - 1))" using num_chunks_ge_3 [OF assms] by simp
  have "concat (file_chunks mcs data) = concat (map (file_chunk mcs data) [0..<Suc (0 + (?n - 1))])"
    using n by (simp add: file_chunks_def)
  also have "\<dots> = slice_of (chunk_start mcs (length data) 0) (chunk_end mcs (length data) (0 + (?n - 1))) data"
    using assms n by (intro concat_chunks_between) auto
  also have "\<dots> = data" using chunk_end_last [OF assms] chunk_start_0 [OF assms] by simp
  finally show ?thesis .
qed

lemma num_chunks_le_length:
  assumes "0 < mcs" "3 \<le> length data"
  shows "get_num_chunks mcs (length data) \<le> length data"
proof -
  have "(\<Sum>c\<leftarrow>file_chunks mcs data. 1) \<le> (\<Sum>c\<leftarrow>file_chunks mcs data. length c)"
    using file_chunk_nonempty [OF assms]
    by (intro sum_list_mono) (auto simp: file_chunks_def Suc_le_eq)
  also have "\<dots> = length data"
    using concat_file_chunks [OF assms] by (metis length_concat)
  finally show ?thesis by (simp add: sum_list_triv)
qed

section \<open>Chunk of a position\<close>

lemma get_chunk_index_eq:
  assumes "0 < mcs" "3 \<le> fs"
  shows "get_chunk_index mcs fs pos =
           min (pos div get_chunk_size mcs fs 0) (get_num_chunks mcs fs - 1)"
  using num_chunks_ge_3 [OF assms] by (auto simp: get_chunk_index_def MIN_CHUNK_SIZE_def Let_def)

lemma get_chunk_index_bounds:
  assumes "0 < mcs" "3 \<le> fs" "pos < fs"
  shows "get_chunk_index mcs fs pos < get_num_chunks mcs fs"
    and "chunk_start mcs fs (get_chunk_index mcs fs pos) \<le> pos"
    and "pos < chunk_end mcs fs (get_chunk_index mcs fs pos)"
proof -
  let ?n = "get_num_chunks mcs fs" and ?c = "get_chunk_size mcs fs 0"
  let ?i = "get_chunk_index mcs fs pos"
  have n: "3 \<le> ?n" using assms num_chunks_ge_3 by blast
  have c: "0 < ?c" using assms n by (intro chunk_size_pos) auto
  have i: "?i = min (pos div ?c) (?n - 1)" using assms by (simp add: get_chunk_index_eq)
  then show lt: "?i < ?n" using n by simp
  have "?i * ?c \<le> pos div ?c * ?c" using i by simp
  also have "\<dots> \<le> pos" by simp
  finally show "chunk_start mcs fs ?i \<le> pos" using assms lt by (simp add: chunk_start_eq(1))
  show "pos < chunk_end mcs fs ?i"
  proof (cases "pos div ?c < ?n - 1")
    case True
    then have i': "?i = pos div ?c" using i by simp
    have "pos < Suc (pos div ?c) * ?c" using c
      by (metis dividend_less_div_times mult_Suc)
    also have "\<dots> = chunk_start mcs fs (Suc ?i)"
      using assms True i' by (simp add: chunk_start_eq(1))
    also have "\<dots> = chunk_end mcs fs ?i"
      using assms True i' by (simp add: chunk_end_next)
    finally show ?thesis .
  next
    case False
    then have "?i = ?n - 1" using i by simp
    with chunk_end_last [OF assms(1,2)] assms(3) show ?thesis by simp
  qed
qed

lemma get_chunk_index_beyond:
  assumes "0 < mcs" "3 \<le> fs" "fs \<le> pos"
  shows "get_chunk_index mcs fs pos = get_num_chunks mcs fs - 1"
proof -
  let ?n = "get_num_chunks mcs fs" and ?c = "get_chunk_size mcs fs 0"
  have "(?n - 1) * ?c \<le> pos" using total_size [OF assms(1,2)] assms(3) by linarith
  moreover have "0 < ?c" using assms num_chunks_ge_3 [OF assms(1,2)] by (intro chunk_size_pos) auto
  ultimately have "?n - 1 \<le> pos div ?c" by (simp add: less_eq_div_iff_mult_less_eq)
  then show ?thesis using assms by (simp add: get_chunk_index_eq)
qed

lemma range_chunks:
  assumes "0 < mcs" "3 \<le> fs"
  shows "get_chunk_index mcs fs pos < get_num_chunks mcs fs"
    and "chunk_start mcs fs (get_chunk_index mcs fs pos) \<le> pos"
    and "min pos fs \<le> chunk_end mcs fs (get_chunk_index mcs fs pos)"
proof -
  let ?i = "get_chunk_index mcs fs pos" and ?l = "get_num_chunks mcs fs - 1"
  have last: "?l < get_num_chunks mcs fs" "chunk_end mcs fs ?l = fs" "chunk_start mcs fs ?l < fs"
    using num_chunks_ge_3 [OF assms] chunk_end_last [OF assms] chunk_in_file(1) [OF assms, of ?l] by auto
  have "?i < get_num_chunks mcs fs \<and> chunk_start mcs fs ?i \<le> pos \<and> min pos fs \<le> chunk_end mcs fs ?i"
  proof (cases "pos < fs")
    case True
    with get_chunk_index_bounds [OF assms, of pos] show ?thesis by auto
  next
    case False
    then have "?i = ?l" using get_chunk_index_beyond [OF assms, of pos] by simp
    then show ?thesis using last False by simp
  qed
  then show "?i < get_num_chunks mcs fs" "chunk_start mcs fs ?i \<le> pos" "min pos fs \<le> chunk_end mcs fs ?i"
    by blast+
qed

lemma range_chunks_order:
  assumes "0 < mcs" "3 \<le> fs"
  shows "get_chunk_index mcs fs pos \<le> get_chunk_index mcs fs (min (pos + len) fs)"
proof (cases "pos \<le> fs")
  case True
  then have "pos div get_chunk_size mcs fs 0 \<le> min (pos + len) fs div get_chunk_size mcs fs 0"
    by (intro div_le_mono) simp
  then show ?thesis using assms by (simp add: get_chunk_index_eq)
next
  case False
  then show ?thesis using get_chunk_index_beyond [OF assms] by simp
qed

section \<open>Properties\<close>

text \<open>
  C28: for every file of at least three bytes the byte ranges computed by
  \<open>get_start_end_positions\<close> lie inside the file, and the chunks they cut out, read in index
  order, are exactly the file: no byte is lost, repeated or reordered.
\<close>

theorem chunks_partition_file:
  assumes "0 < mcs" "3 \<le> length data"
  shows "concat (file_chunks mcs data) = data \<and>
         (\<forall>i < get_num_chunks mcs (length data).
            fst (get_start_end_positions mcs (length data) i)
              < snd (get_start_end_positions mcs (length data) i) \<and>
            snd (get_start_end_positions mcs (length data) i) \<le> length data)"
  using concat_file_chunks [OF assms] chunk_in_file [OF assms] by (simp add: positions_eq)

lemma chunks_partition_file_witness:
  "concat (file_chunks 2 [10, 20, 30, 40, 50, 60, 70::nat]) = [10, 20, 30, 40, 50, 60, 70] \<and>
   get_num_chunks 2 7 = 4"
  using chunks_partition_file [of 2 "[10, 20, 30, 40, 50, 60, 70::nat]"]
  by (simp add: chunking_defs)

text \<open>
  C30: every chunk is non-empty and at most \<open>MAX_CHUNK_SIZE\<close> bytes long, with one exception: the
  third chunk of a file of exactly \<open>3 * MAX_CHUNK_SIZE - 1\<close> bytes has
  \<open>MAX_CHUNK_SIZE + 1\<close> bytes.
\<close>

theorem chunk_size_bounds:
  assumes "0 < mcs" "3 \<le> fs" "i < get_num_chunks mcs fs"
  shows "0 < get_chunk_size mcs fs i \<and>
         (if fs = 3 * mcs - 1 \<and> i = 2 then get_chunk_size mcs fs i = mcs + 1
          else get_chunk_size mcs fs i \<le> mcs)"
proof (cases "fs < 3 * mcs")
  case True
  obtain q r where qr: "fs = 3 * q + r" "r < 3" "q = fs div 3"
    by (metis mult_div_mod_eq mod_less_divisor zero_less_numeral)
  have i: "i < 2 \<or> i = 2" using small_file(1) [OF assms(2) True] assms(3) by auto
  have "get_chunk_size mcs fs i = (if i < 2 then q else q + r)"
    using small_file(2) [OF assms(2) True, of i] qr(1) unfolding qr(3) [symmetric] by simp
  moreover have "q + r = mcs + 1" if "fs = 3 * mcs - 1"
  proof -
    have "3 * q + r + 1 = 3 * mcs" using that qr(1) assms(1) by linarith
    then have "r = 2" using qr(2) by presburger
    with \<open>3 * q + r + 1 = 3 * mcs\<close> show ?thesis by simp
  qed
  moreover have "q + r \<le> mcs" if "fs \<noteq> 3 * mcs - 1"
    using that True qr(1,2) by linarith
  moreover have "q \<le> mcs" using True qr(1) by linarith
  ultimately show ?thesis using i chunk_size_pos [OF assms] by auto
next
  case False
  with assms chunk_size_pos [OF assms] show ?thesis
    by (auto simp: large_file_size last_size_le)
qed

lemma chunk_size_bounds_witness:
  "get_chunk_size 4 11 2 = 5 \<and> get_chunk_size 4 11 1 \<le> 4 \<and> get_chunk_size 4 13 3 \<le> 4"
  using chunk_size_bounds [of 4 11 2] chunk_size_bounds [of 4 11 1] chunk_size_bounds [of 4 13 3]
  by (simp add: chunking_defs)

text \<open>
  \<open>get_chunk_index\<close> is the inverse of the chunk geometry: for every position of the file it
  returns the index of the one chunk whose byte range contains the position.
\<close>

theorem get_chunk_index_correct:
  assumes "0 < mcs" "3 \<le> fs" "pos < fs"
  shows "get_chunk_index mcs fs pos = i \<longleftrightarrow>
         i < get_num_chunks mcs fs \<and>
         fst (get_start_end_positions mcs fs i) \<le> pos \<and>
         pos < snd (get_start_end_positions mcs fs i)"
proof
  assume "get_chunk_index mcs fs pos = i"
  with get_chunk_index_bounds [OF assms]
  show "i < get_num_chunks mcs fs \<and> fst (get_start_end_positions mcs fs i) \<le> pos \<and>
        pos < snd (get_start_end_positions mcs fs i)"
    by (auto simp: positions_eq)
next
  let ?j = "get_chunk_index mcs fs pos"
  assume i: "i < get_num_chunks mcs fs \<and> fst (get_start_end_positions mcs fs i) \<le> pos \<and>
        pos < snd (get_start_end_positions mcs fs i)"
  have "\<not> i < ?j" "\<not> ?j < i"
    using i get_chunk_index_bounds [OF assms] chunk_start_mono [OF assms(1,2), of i ?j]
      chunk_start_mono [OF assms(1,2), of ?j i]
    by (auto simp: positions_eq)
  then show "?j = i" by simp
qed

lemma get_chunk_index_correct_witness:
  "get_chunk_index 4 13 12 = 3 \<and> get_start_end_positions 4 13 3 = (12, 13)"
  using get_chunk_index_correct [of 4 13 12 3]
  by (simp add: get_start_end_positions_def get_start_position_def chunking_defs Let_def)

end
