(* ===== verification/Data_Map.thy ===== *)
theory Data_Map
  imports Chunking
begin

text \<open>
  The data map of a self-encrypted file: \<open>src/self_encryption/src/data_map.rs\<close>, and the error
  type of the crate, \<open>src/self_encryption/src/error.rs\<close>. A formatted message of an error is
  the constructor of \<open>se_msg\<close> that names it, with the values it interpolates.

  \<open>bincode\<close> is not part of the repository. Its two functions are arguments of \<open>to_bytes\<close> and
  \<open>from_bytes\<close>; the version byte that the hand-written \<open>Serialize\<close> and \<open>Deserialize\<close>
  implementations add and check is modelled here.

  \<open>ArithmeticOverflow\<close> is not a variant of the Rust type: it marks the results of \<open>usize\<close>
  additions and subtractions of caller-chosen values that leave the machine range, where an
  overflow-checked build panics.
\<close>

section \<open>Errors\<close>

datatype se_msg =
    TotalNumChunksTooSmall nat
  | ChunkIndexOutOfBounds nat nat
  | HashIndexOutOfBounds nat
  | TooSmallForSelfEncryption
  | FewerThanThreeChunks
  | ChunkNotFound xorname
  | ChunkNotInDataMap xorname
  | MissingChunk xorname
  | SerializeDataMapFailed string
  | DeserializeDataMapFailed string
  | MaxRecursionDepth
  | BatchRangeOutOfBounds nat nat nat
  | MissingSourceHash nat
  | MissingChunkInfo
  | ShrinkingChunkIndexOutOfBounds
  | FinalDatamapMissing
  | StreamIndexOutOfBounds nat
  | ChunkContentHashMismatch xorname xorname
  | StoreFailed string
  | NetworkFetchFailed xorname

datatype se_error =
    Compression
  | Cipher string
  | Encryption
  | Decryption string
  | Io string
  | Generic se_msg
  | Bincode string
  | Deserialise
  | NumParse string
  | Rng string
  | Poison
  | Python string
  | ArithmeticOverflow

type_synonym 'a se_result = "se_error + 'a"

section \<open>Data maps\<close>

record ChunkInfo =
  index :: nat
  dst_hash :: xorname
  src_hash :: xorname
  src_size :: nat

record DataMap =
  chunk_identifiers :: "ChunkInfo list"
  child :: "nat option"

record VersionedDataMap =
  version :: byte
  v_chunk_identifiers :: "ChunkInfo list"
  v_child :: "nat option"

definition DataMap_new :: "ChunkInfo list \<Rightarrow> DataMap" where
  "DataMap_new keys = \<lparr>chunk_identifiers = sort_key index keys, child = None\<rparr>"

definition with_child :: "ChunkInfo list \<Rightarrow> nat \<Rightarrow> DataMap" where
  "with_child keys c = \<lparr>chunk_identifiers = sort_key index keys, child = Some c\<rparr>"

definition infos :: "DataMap \<Rightarrow> ChunkInfo list" where
  "infos dm = chunk_identifiers dm"

definition total_src_size :: "ChunkInfo list \<Rightarrow> nat" where
  "total_src_size keys = fold (\<lambda>chunk acc. acc + src_size chunk) keys 0"

definition original_file_size :: "DataMap \<Rightarrow> nat" where
  "original_file_size dm = total_src_size (chunk_identifiers dm)"

definition DataMap_len :: "DataMap \<Rightarrow> nat" where
  "DataMap_len dm = length (chunk_identifiers dm)"

definition is_child :: "DataMap \<Rightarrow> bool" where
  "is_child dm = (child dm \<noteq> None)"

definition extract_hashes :: "DataMap \<Rightarrow> xorname list" where
  "extract_hashes dm = map src_hash (infos dm)"

section \<open>Binary form\<close>

definition serialize_versioned :: "DataMap \<Rightarrow> VersionedDataMap" where
  "serialize_versioned dm =
     \<lparr>version = 1, v_chunk_identifiers = chunk_identifiers dm, v_child = child dm\<rparr>"

definition deserialize_versioned :: "VersionedDataMap \<Rightarrow> string + DataMap" where
  "deserialize_versioned v =
     (if version v = 1
      then Inr \<lparr>chunk_identifiers = v_chunk_identifiers v, child = v_child v\<rparr>
      else Inl ''unsupported DataMap version'')"

definition to_bytes :: "(VersionedDataMap \<Rightarrow> string + bytes) \<Rightarrow> DataMap \<Rightarrow> string + bytes" where
  "to_bytes bincode_serialize dm = bincode_serialize (serialize_versioned dm)"

definition from_bytes :: "(bytes \<Rightarrow> string + VersionedDataMap) \<Rightarrow> bytes \<Rightarrow> string + DataMap" where
  "from_bytes bincode_deserialize bs = try_bind (bincode_deserialize bs) deserialize_versioned"

section \<open>Lemmas\<close>

lemma total_src_size_eq: "total_src_size keys = (\<Sum>k\<leftarrow>keys. src_size k)"
  by (simp add: total_src_size_def sum_list_fold)

lemma deserialize_serialize [simp]: "deserialize_versioned (serialize_versioned dm) = Inr dm"
  by (simp add: deserialize_versioned_def serialize_versioned_def)

lemma from_bytes_to_bytes:
  assumes "to_bytes ser dm = Inr bs" "\<And>v b. ser v = Inr b \<Longrightarrow> de b = Inr v"
  shows "from_bytes de bs = Inr dm"
  using assms by (simp add: to_bytes_def from_bytes_def)

lemma sort_key_index_id:
  "map index keys = [0..<length keys] \<Longrightarrow> sort_key index keys = keys"
  by (rule sort_key_id_if_sorted) (simp add: sorted_upt)

end
