(* ===== verification/Self_Encryption.thy ===== *)
theory Self_Encryption
  imports Data_Map
begin

unbundle bit_operations_syntax

text \<open>
  In-memory self-encryption: \<open>src/self_encryption/src\<close>, files \<open>utils.rs\<close> (keys), \<open>cipher.rs\<close>,
  \<open>encrypt.rs\<close>, \<open>decrypt.rs\<close>, \<open>hash.rs\<close> and \<open>lib.rs\<close>.

  BLAKE3, ChaCha20-Poly1305, Brotli and bincode are other crates: they are the fields of the
  record \<open>se_env\<close>, an argument of every definition that calls them. What is relied on is stated
  as predicates on that record: \<open>se_laws\<close> (decryption, decompression and deserialisation undo
  their counterparts, an extendable output has the requested length), \<open>se_total\<close> (the forward
  directions do not fail) and \<open>bincode_size\<close> (the fixed-width encoding of a data map).

  The mutual recursion of \<open>encrypt_with_child_level\<close> and \<open>shrink_data_map\<close> runs on fuel; \<open>None\<close>
  is running out of it, and \<open>encrypt_enough_fuel\<close> shows how much is enough.
\<close>

section \<open>The cryptographic environment\<close>

record se_env =
  blake3_hash :: "bytes \<Rightarrow> bytes"
  blake3_derive_xof :: "string \<Rightarrow> bytes \<Rightarrow> nat \<Rightarrow> bytes"
  chacha_encrypt :: "bytes \<Rightarrow> bytes \<Rightarrow> bytes \<Rightarrow> bytes option"
  chacha_decrypt :: "bytes \<Rightarrow> bytes \<Rightarrow> bytes \<Rightarrow> string + bytes"
  brotli_compress :: "nat \<Rightarrow> bytes \<Rightarrow> bytes option"
  brotli_decompress :: "bytes \<Rightarrow> bytes option"
  bincode_serialize :: "VersionedDataMap \<Rightarrow> string + bytes"
  bincode_deserialize :: "bytes \<Rightarrow> string + VersionedDataMap"

definition se_laws :: "se_env \<Rightarrow> bool" where
  "se_laws C \<longleftrightarrow>
     (\<forall>m. length (blake3_hash C m) = 32) \<and>
     (\<forall>s m n. length (blake3_derive_xof C s m n) = n) \<and>
     (\<forall>k n m c. chacha_encrypt C k n m = Some c \<longrightarrow> chacha_decrypt C k n c = Inr m) \<and>
     (\<forall>q m c. brotli_compress C q m = Some c \<longrightarrow> brotli_decompress C c = Some m) \<and>
     (\<forall>v b. bincode_serialize C v = Inr b \<longrightarrow> bincode_deserialize C b = Inr v)"

text \<open>
  A data map whose fields have the sizes of their Rust types: 32 byte hashes and 64 bit
  integers.
\<close>

definition wf_info :: "ChunkInfo \<Rightarrow> bool" where
  "wf_info i \<longleftrightarrow> index i < USIZE_LIMIT \<and> src_size i < USIZE_LIMIT \<and>
     length (dst_hash i) = 32 \<and> length (src_hash i) = 32"

definition wf_versioned :: "VersionedDataMap \<Rightarrow> bool" where
  "wf_versioned v \<longleftrightarrow> list_all wf_info (v_chunk_identifiers v) \<and>
     length (v_chunk_identifiers v) < USIZE_LIMIT \<and>
     (case v_child v of None \<Rightarrow> True | Some c \<Rightarrow> c < USIZE_LIMIT)"

definition se_total :: "se_env \<Rightarrow> bool" where
  "se_total C \<longleftrightarrow>
     (\<forall>k n m. chacha_encrypt C k n m \<noteq> None) \<and>
     (\<forall>q m. brotli_compress C q m \<noteq> None) \<and>
     (\<forall>v. wf_versioned v \<longrightarrow> is_ok (bincode_serialize C v))"

text \<open>
  bincode with its default fixed-width integers: one version byte, an eight byte length, for
  each chunk two eight byte integers and two 32 byte hashes, and an option of one or nine
  bytes.
\<close>

definition bincode_size :: "se_env \<Rightarrow> bool" where
  "bincode_size C \<longleftrightarrow>
     (\<forall>v b. bincode_serialize C v = Inr b \<longrightarrow>
        9 + 80 * length (v_chunk_identifiers v) < length b \<and>
        length b \<le> 18 + 80 * length (v_chunk_identifiers v))"

section \<open>Keys, ciphers and single chunks\<close>

definition KEY_SIZE :: nat where "KEY_SIZE = 32"
definition NONCE_SIZE :: nat where "NONCE_SIZE = 12"
definition HASH_SIZE :: nat where "HASH_SIZE = 32"
definition PAD_SIZE :: nat where "PAD_SIZE = HASH_SIZE * 3 - KEY_SIZE - NONCE_SIZE"
definition COMPRESSION_QUALITY :: nat where "COMPRESSION_QUALITY = 6"

type_synonym pki = "bytes \<times> bytes \<times> bytes"

definition content_hash :: "se_env \<Rightarrow> bytes \<Rightarrow> xorname" where
  "content_hash C content = blake3_hash C content"

definition xor_pad :: "bytes \<Rightarrow> bytes \<Rightarrow> bytes" where
  "xor_pad data pad =
     (if pad = [] then []
      else map (\<lambda>(i, a). a XOR pad ! (i mod length pad)) (enumerate 0 data))"

definition get_n_1_n_2 :: "nat \<Rightarrow> nat \<Rightarrow> (nat \<times> nat) se_result" where
  "get_n_1_n_2 chunk_index total_num_chunks =
     (if total_num_chunks < 3 then Inl (Generic (TotalNumChunksTooSmall total_num_chunks))
      else if total_num_chunks \<le> chunk_index
        then Inl (Generic (ChunkIndexOutOfBounds chunk_index total_num_chunks))
      else if chunk_index = 0 then Inr (total_num_chunks - 1, total_num_chunks - 2)
      else if chunk_index = 1 then Inr (0, total_num_chunks - 1)
      else Inr (chunk_index - 1, chunk_index - 2))"

definition get_pki :: "se_env \<Rightarrow> xorname \<Rightarrow> xorname \<Rightarrow> xorname \<Rightarrow> nat \<Rightarrow> nat \<Rightarrow> pki" where
  "get_pki C src_h n_1_h n_2_h chunk_index child_level =
     (let context_material =
            src_h @ n_1_h @ n_2_h @ le_bytes 8 chunk_index @ le_bytes 8 child_level;
          output = blake3_derive_xof C ''self_encryption/chunk/v2'' context_material
                     (PAD_SIZE + KEY_SIZE + NONCE_SIZE)
      in (slice_of 0 PAD_SIZE output,
          slice_of PAD_SIZE (PAD_SIZE + KEY_SIZE) output,
          drop (PAD_SIZE + KEY_SIZE) output))"

definition get_pad_key_and_nonce :: "se_env \<Rightarrow> nat \<Rightarrow> xorname list \<Rightarrow> nat \<Rightarrow> pki se_result" where
  "get_pad_key_and_nonce C chunk_index chunk_hashes child_level =
     try_bind (get_n_1_n_2 chunk_index (length chunk_hashes)) (\<lambda>(n_1, n_2).
     try_bind (ok_or (Generic (HashIndexOutOfBounds chunk_index)) (nth_opt chunk_hashes chunk_index)) (\<lambda>h.
     try_bind (ok_or (Generic (HashIndexOutOfBounds n_1)) (nth_opt chunk_hashes n_1)) (\<lambda>h1.
     try_bind (ok_or (Generic (HashIndexOutOfBounds n_2)) (nth_opt chunk_hashes n_2)) (\<lambda>h2.
     Inr (get_pki C h h1 h2 chunk_index child_level)))))"

definition cipher_encrypt :: "se_env \<Rightarrow> bytes \<Rightarrow> bytes \<Rightarrow> bytes \<Rightarrow> bytes se_result" where
  "cipher_encrypt C data key nonce = ok_or Encryption (chacha_encrypt C key nonce data)"

definition cipher_decrypt :: "se_env \<Rightarrow> bytes \<Rightarrow> bytes \<Rightarrow> bytes \<Rightarrow> bytes se_result" where
  "cipher_decrypt C data key nonce = map_err Decryption (chacha_decrypt C key nonce data)"

definition encrypt_chunk :: "se_env \<Rightarrow> bytes \<Rightarrow> pki \<Rightarrow> bytes se_result" where
  "encrypt_chunk C content p =
     (case p of (pad, key, nonce) \<Rightarrow>
        try_bind (ok_or Compression (brotli_compress C COMPRESSION_QUALITY content)) (\<lambda>compressed.
        try_bind (cipher_encrypt C compressed key nonce) (\<lambda>encrypted.
        Inr (xor_pad encrypted pad))))"

definition decrypt_chunk :: "se_env \<Rightarrow> nat \<Rightarrow> bytes \<Rightarrow> xorname list \<Rightarrow> nat \<Rightarrow> bytes se_result" where
  "decrypt_chunk C chunk_index content src_hashes child_level =
     try_bind (get_pad_key_and_nonce C chunk_index src_hashes child_level) (\<lambda>(pad, key, nonce).
     try_bind (cipher_decrypt C (xor_pad content pad) key nonce) (\<lambda>decrypted.
     ok_or Compression (brotli_decompress C decrypted)))"

section \<open>Encryption of one level\<close>

record enc_state =
  es_hashes :: "xorname list"
  es_first :: "(nat \<times> bytes \<times> xorname \<times> nat) list"
  es_chunks :: "bytes list"
  es_infos :: "ChunkInfo list"

definition enc_state_init :: enc_state where
  "enc_state_init = \<lparr>es_hashes = [], es_first = [], es_chunks = [], es_infos = []\<rparr>"

fun encrypt_loop :: "se_env \<Rightarrow> nat \<Rightarrow> bytes \<Rightarrow> nat \<Rightarrow> nat list \<Rightarrow> enc_state \<Rightarrow> enc_state se_result" where
  "encrypt_loop C mcs data child_level [] st = Inr st"
| "encrypt_loop C mcs data child_level (chunk_index # rest) st =
     (let (start, stop) = get_start_end_positions mcs (length data) chunk_index;
          chunk_data = slice_of start stop data;
          h = content_hash C chunk_data;
          st1 = st\<lparr>es_hashes := es_hashes st @ [h]\<rparr>
      in if chunk_index < 2
         then encrypt_loop C mcs data child_level rest
                (st1\<lparr>es_first := es_first st @ [(chunk_index, chunk_data, h, stop - start)]\<rparr>)
         else
           try_bind (get_pad_key_and_nonce C chunk_index (es_hashes st1) child_level) (\<lambda>p.
           try_bind (encrypt_chunk C chunk_data p) (\<lambda>encrypted_content.
             encrypt_loop C mcs data child_level rest
               (st1\<lparr>es_chunks := es_chunks st @ [encrypted_content],
                    es_infos := es_infos st @
                      [\<lparr>index = chunk_index, dst_hash = content_hash C encrypted_content,
                        src_hash = h, src_size = stop - start\<rparr>]\<rparr>))))"

fun encrypt_first_chunks ::
  "se_env \<Rightarrow> nat \<Rightarrow> (nat \<times> bytes \<times> xorname \<times> nat) list \<Rightarrow> enc_state \<Rightarrow> enc_state se_result" where
  "encrypt_first_chunks C child_level [] st = Inr st"
| "encrypt_first_chunks C child_level ((chunk_index, chunk_data, h, sz) # rest) st =
     try_bind (get_pad_key_and_nonce C chunk_index (es_hashes st) child_level) (\<lambda>p.
     try_bind (encrypt_chunk C chunk_data p) (\<lambda>encrypted_content.
       encrypt_first_chunks C child_level rest
         (st\<lparr>es_chunks := insert_at chunk_index encrypted_content (es_chunks st),
             es_infos := insert_at chunk_index
               \<lparr>index = chunk_index, dst_hash = content_hash C encrypted_content,
                 src_hash = h, src_size = sz\<rparr> (es_infos st)\<rparr>)))"

definition encrypt_one_level :: "se_env \<Rightarrow> nat \<Rightarrow> bytes \<Rightarrow> nat \<Rightarrow> (DataMap \<times> bytes list) se_result" where
  "encrypt_one_level C mcs data child_level =
     (let file_size = length data; num_chunks = get_num_chunks mcs file_size
      in if file_size < MIN_ENCRYPTABLE_BYTES then Inl (Generic TooSmallForSelfEncryption)
         else if num_chunks < 3 then Inl (Generic FewerThanThreeChunks)
         else
           try_bind (encrypt_loop C mcs data child_level [0..<num_chunks] enc_state_init) (\<lambda>st.
           try_bind (encrypt_first_chunks C child_level (es_first st) st) (\<lambda>st'.
           Inr (DataMap_new (es_infos st'), es_chunks st'))))"

section \<open>Shrinking and the whole encryption\<close>

definition next_child_level :: "DataMap \<Rightarrow> nat" where
  "next_child_level dm = (case child dm of None \<Rightarrow> 1 | Some c \<Rightarrow> c + 1)"

text \<open>
  \<open>shrink_pushing\<close> is \<open>shrink_data_map\<close> with the closure that
  \<open>encrypt_with_child_level\<close> passes to it, which appends each chunk to \<open>encrypted_chunks\<close>
  (lemma \<open>shrink_pushing_eq\<close>).
\<close>

fun encrypt_with_child_level ::
  "se_env \<Rightarrow> nat \<Rightarrow> nat \<Rightarrow> bytes \<Rightarrow> nat \<Rightarrow> (DataMap \<times> bytes list) se_result option"
and shrink_pushing ::
  "se_env \<Rightarrow> nat \<Rightarrow> nat \<Rightarrow> DataMap \<Rightarrow> bytes list \<Rightarrow> (DataMap \<times> bytes list) se_result option"
where
  "encrypt_with_child_level C mcs 0 data child_level = None"
| "encrypt_with_child_level C mcs (Suc fuel) data child_level =
     (case encrypt_one_level C mcs data child_level of
        Inl e \<Rightarrow> Some (Inl e)
      | Inr (data_map, encrypted_chunks) \<Rightarrow> shrink_pushing C mcs fuel data_map encrypted_chunks)"
| "shrink_pushing C mcs 0 data_map pushed = None"
| "shrink_pushing C mcs (Suc fuel) data_map pushed =
     (if DataMap_len data_map \<le> 3 then Some (Inr (data_map, pushed))
      else
        (case to_bytes (bincode_serialize C) data_map of
           Inl e \<Rightarrow> Some (Inl (Generic (SerializeDataMapFailed e)))
         | Inr bs \<Rightarrow>
             (case encrypt_with_child_level C mcs fuel bs (next_child_level data_map) of
                None \<Rightarrow> None
              | Some (Inl e) \<Rightarrow> Some (Inl e)
              | Some (Inr (new_data_map, encrypted_chunks)) \<Rightarrow>
                  shrink_pushing C mcs fuel
                    (with_child (infos new_data_map) (next_child_level data_map))
                    (pushed @ encrypted_chunks))))"

fun store_chunks ::
  "se_env \<Rightarrow> ('s \<Rightarrow> xorname \<Rightarrow> bytes \<Rightarrow> 's se_result) \<Rightarrow> 's \<Rightarrow> bytes list \<Rightarrow> 's se_result" where
  "store_chunks C store s [] = Inr s"
| "store_chunks C store s (c # cs) =
     try_bind (store s (content_hash C c) c) (\<lambda>s'. store_chunks C store s' cs)"

fun shrink_data_map ::
  "se_env \<Rightarrow> nat \<Rightarrow> nat \<Rightarrow> ('s \<Rightarrow> xorname \<Rightarrow> bytes \<Rightarrow> 's se_result) \<Rightarrow> 's \<Rightarrow> DataMap \<Rightarrow> bytes list
     \<Rightarrow> (DataMap \<times> bytes list \<times> 's) se_result option" where
  "shrink_data_map C mcs 0 store s data_map all_chunks = None"
| "shrink_data_map C mcs (Suc fuel) store s data_map all_chunks =
     (if DataMap_len data_map \<le> 3 then Some (Inr (data_map, all_chunks, s))
      else
        (case to_bytes (bincode_serialize C) data_map of
           Inl e \<Rightarrow> Some (Inl (Generic (SerializeDataMapFailed e)))
         | Inr bs \<Rightarrow>
             (case encrypt_with_child_level C mcs fuel bs (next_child_level data_map) of
                None \<Rightarrow> None
              | Some (Inl e) \<Rightarrow> Some (Inl e)
              | Some (Inr (new_data_map, encrypted_chunks)) \<Rightarrow>
                  (case store_chunks C store s encrypted_chunks of
                     Inl e \<Rightarrow> Some (Inl e)
                   | Inr s' \<Rightarrow>
                       shrink_data_map C mcs fuel store s'
                         (with_child (infos new_data_map) (next_child_level data_map))
                         (all_chunks @ encrypted_chunks)))))"

definition encrypt :: "se_env \<Rightarrow> nat \<Rightarrow> nat \<Rightarrow> bytes \<Rightarrow> (DataMap \<times> bytes list) se_result option" where
  "encrypt C mcs fuel data = encrypt_with_child_level C mcs fuel data 0"

section \<open>Decryption\<close>

definition chunk_map :: "se_env \<Rightarrow> bytes list \<Rightarrow> xorname \<rightharpoonup> bytes" where
  "chunk_map C chunks = hash_map_of (map (\<lambda>c. (content_hash C c, c)) chunks)"

definition decrypt_sorted_set :: "se_env \<Rightarrow> xorname list \<Rightarrow> bytes list \<Rightarrow> nat \<Rightarrow> bytes se_result" where
  "decrypt_sorted_set C src_hashes encrypted_chunks child_level =
     try_bind
       (traverse (\<lambda>(i, c). decrypt_chunk C i c src_hashes child_level)
          (enumerate 0 encrypted_chunks))
       (\<lambda>decrypted. Inr (concat decrypted))"

definition child_level_of :: "DataMap \<Rightarrow> nat" where
  "child_level_of dm = (case child dm of None \<Rightarrow> 0 | Some c \<Rightarrow> c)"

definition decrypt_full_set :: "se_env \<Rightarrow> DataMap \<Rightarrow> bytes list \<Rightarrow> bytes se_result" where
  "decrypt_full_set C dm chunks =
     try_bind
       (traverse (\<lambda>info. ok_or (Generic (ChunkNotInDataMap (dst_hash info)))
                           (chunk_map C chunks (dst_hash info)))
          (infos dm))
       (\<lambda>sorted_chunks. decrypt_sorted_set C (extract_hashes dm) sorted_chunks (child_level_of dm))"

fun fetch_chunks ::
  "('s \<Rightarrow> xorname \<Rightarrow> (bytes \<times> 's) se_result) \<Rightarrow> ChunkInfo list \<Rightarrow> (xorname \<rightharpoonup> bytes) \<Rightarrow> 's
     \<Rightarrow> (bytes list \<times> (xorname \<rightharpoonup> bytes) \<times> 's) se_result" where
  "fetch_chunks get_chunk [] cache s = Inr ([], cache, s)"
| "fetch_chunks get_chunk (info # rest) cache s =
     (case cache (dst_hash info) of
        Some cached \<Rightarrow>
          try_bind (fetch_chunks get_chunk rest cache s) (\<lambda>(cs, cache', s'). Inr (cached # cs, cache', s'))
      | None \<Rightarrow>
          try_bind (get_chunk s (dst_hash info)) (\<lambda>(data, s1).
          try_bind (fetch_chunks get_chunk rest (cache(dst_hash info \<mapsto> data)) s1) (\<lambda>(cs, cache', s').
          Inr (data # cs, cache', s'))))"

function inner_get_root_map ::
  "se_env \<Rightarrow> ('s \<Rightarrow> xorname \<Rightarrow> (bytes \<times> 's) se_result) \<Rightarrow> 's \<Rightarrow> (xorname \<rightharpoonup> bytes) \<Rightarrow> DataMap \<Rightarrow> nat
     \<Rightarrow> DataMap se_result" where
  "inner_get_root_map C get_chunk s cache dm depth =
     (if 100 < depth then Inl (Generic MaxRecursionDepth)
      else if \<not> is_child dm then Inr dm
      else
        try_bind (fetch_chunks get_chunk (infos dm) cache s) (\<lambda>(encrypted_chunks, cache', s').
        try_bind (decrypt_full_set C dm encrypted_chunks) (\<lambda>decrypted_bytes.
        try_bind (map_err (\<lambda>e. Generic (DeserializeDataMapFailed e))
                    (from_bytes (bincode_deserialize C) decrypted_bytes)) (\<lambda>parent_data_map.
        inner_get_root_map C get_chunk s' cache' parent_data_map (depth + 1)))))"
  by pat_completeness auto
termination
  by (relation "measure (\<lambda>(C, get_chunk, s, cache, dm, depth). 101 - depth)") auto

declare inner_get_root_map.simps [simp del]

definition get_root_data_map ::
  "se_env \<Rightarrow> ('s \<Rightarrow> xorname \<Rightarrow> (bytes \<times> 's) se_result) \<Rightarrow> 's \<Rightarrow> DataMap \<Rightarrow> DataMap se_result" where
  "get_root_data_map C get_chunk s dm = inner_get_root_map C get_chunk s Map.empty dm 0"

definition lookup_chunk :: "se_env \<Rightarrow> bytes list \<Rightarrow> unit \<Rightarrow> xorname \<Rightarrow> (bytes \<times> unit) se_result" where
  "lookup_chunk C chunks s h =
     try_bind (ok_or (Generic (ChunkNotFound h)) (chunk_map C chunks h)) (\<lambda>c. Inr (c, s))"

definition decrypt :: "se_env \<Rightarrow> DataMap \<Rightarrow> bytes list \<Rightarrow> bytes se_result" where
  "decrypt C dm chunks =
     try_bind (if is_child dm then get_root_data_map C (lookup_chunk C chunks) () dm else Inr dm)
       (\<lambda>root_map.
          try_bind
            (traverse (\<lambda>info. ok_or (Generic (MissingChunk (dst_hash info)))
                                (chunk_map C chunks (dst_hash info)))
               (infos root_map))
            (\<lambda>root_chunks. decrypt_full_set C root_map root_chunks))"

definition verify_chunk :: "se_env \<Rightarrow> xorname \<Rightarrow> bytes \<Rightarrow> bytes se_result" where
  "verify_chunk C name content =
     (if content_hash C content \<noteq> name
      then Inl (Generic (ChunkContentHashMismatch name (content_hash C content)))
      else Inr content)"

definition decrypt_range :: "se_env \<Rightarrow> nat \<Rightarrow> DataMap \<Rightarrow> bytes list \<Rightarrow> nat \<Rightarrow> nat \<Rightarrow> bytes se_result" where
  "decrypt_range C mcs dm chunks file_pos len =
     (let src_hashes = extract_hashes dm;
          file_size = original_file_size dm;
          start_chunk = get_chunk_index mcs file_size file_pos
      in if USIZE_LIMIT \<le> file_pos + len then Inl ArithmeticOverflow
         else
          (let end_pos = min (file_pos + len) file_size;
               end_chunk = get_chunk_index mcs file_size end_pos
           in try_bind
                (traverse (\<lambda>info. ok_or (Generic (ChunkNotInDataMap (dst_hash info)))
                                    (chunk_map C chunks (dst_hash info)))
                   (filter (\<lambda>info. start_chunk \<le> index info \<and> index info \<le> end_chunk) (infos dm)))
                (\<lambda>sorted_chunks.
                   try_bind
                     (traverse (\<lambda>(idx, c). decrypt_chunk C (start_chunk + idx) c src_hashes (child_level_of dm))
                        (enumerate 0 sorted_chunks))
                     (\<lambda>decrypted.
                        (let bs = concat decrypted;
                             chunk_start_pos = get_start_position mcs file_size start_chunk
                         in if file_pos < chunk_start_pos then Inl ArithmeticOverflow
                            else
                              (let internal_offset = file_pos - chunk_start_pos
                               in if length bs \<le> internal_offset then Inr []
                                  else
                                    (let range_len = min len (length bs - internal_offset)
                                     in Inr (slice_of internal_offset (internal_offset + range_len) bs))))))))"

end
