(* ===== verification/Self_Encryption_Correct.thy ===== *)
theory Self_Encryption_Correct
  imports Self_Encryption
begin

unbundle bit_operations_syntax

text \<open>
  Correctness of in-memory self-encryption: a reference description of one level of encryption
  (\<open>one_level_spec\<close>) that the loops of the code implement, decryption as its inverse, the amount
  of fuel the shrinking recursion needs, and the round trip of the public \<open>encrypt\<close> and
  \<open>decrypt\<close>.
\<close>

section \<open>Single chunks\<close>

lemma length_xor_pad [simp]: "pad \<noteq> [] \<Longrightarrow> length (xor_pad data pad) = length data"
  by (simp add: xor_pad_def)

lemma xor_pad_nth:
  "pad \<noteq> [] \<Longrightarrow> i < length data \<Longrightarrow> xor_pad data pad ! i = data ! i XOR pad ! (i mod length pad)"
  by (simp add: xor_pad_def nth_enumerate_eq)

lemma xor_pad_involutive [simp]: "pad \<noteq> [] \<Longrightarrow> xor_pad (xor_pad data pad) pad = data"
  by (rule nth_equalityI) (auto simp: xor_pad_nth xor.assoc)

lemma get_pki_sizes:
  assumes "se_laws C"
  shows "case get_pki C h h1 h2 i l of (pad, key, nonce) \<Rightarrow>
           length pad = 52 \<and> length key = 32 \<and> length nonce = 12"
  using assms
  by (simp add: get_pki_def se_laws_def Let_def slice_of_def PAD_SIZE_def HASH_SIZE_def KEY_SIZE_def
      NONCE_SIZE_def)

lemma get_pad_key_and_nonce_total:
  "3 \<le> length hs \<Longrightarrow> i < length hs \<Longrightarrow> is_ok (get_pad_key_and_nonce C i hs l)"
  by (auto simp: get_pad_key_and_nonce_def get_n_1_n_2_def nth_opt_def)

lemma get_pad_key_and_nonce_sizes:
  assumes "se_laws C" "get_pad_key_and_nonce C i hs l = Inr (pad, key, nonce)"
  shows "length pad = 52" "length key = 32" "length nonce = 12"
proof -
  obtain h h1 h2 where "get_pki C h h1 h2 i l = (pad, key, nonce)"
    using assms(2) by (auto simp: get_pad_key_and_nonce_def result_simps split: prod.splits)
  with get_pki_sizes [OF assms(1), of h h1 h2 i l]
  show "length pad = 52" "length key = 32" "length nonce = 12" by simp_all
qed

text \<open>From index two on the key depends only on the hashes up to that index.\<close>

lemma get_pad_key_and_nonce_prefix:
  assumes "2 \<le> i" "i < length hs"
  shows "get_pad_key_and_nonce C i (take (Suc i) hs) l = get_pad_key_and_nonce C i hs l"
  using assms by (auto simp: get_pad_key_and_nonce_def get_n_1_n_2_def)

lemma decrypt_encrypt_chunk:
  assumes "se_laws C" "get_pad_key_and_nonce C i hs l = Inr p" "encrypt_chunk C content p = Inr e"
  shows "decrypt_chunk C i e hs l = Inr content"
proof -
  obtain pad key nonce where p: "p = (pad, key, nonce)" by (cases p)
  obtain z where z: "brotli_compress C COMPRESSION_QUALITY content = Some z"
    and "cipher_encrypt C z key nonce \<noteq> Inl Encryption"
    using assms(3) p by (auto simp: encrypt_chunk_def result_simps)
  obtain y where y: "chacha_encrypt C key nonce z = Some y" and e: "e = xor_pad y pad"
    using assms(3) p z by (auto simp: encrypt_chunk_def cipher_encrypt_def result_simps)
  have "pad \<noteq> []" using get_pad_key_and_nonce_sizes [OF assms(1)] assms(2) p by fastforce
  with assms(1,2) p z y e show ?thesis
    by (simp add: decrypt_chunk_def cipher_decrypt_def se_laws_def)
qed

lemma encrypt_chunk_total: "se_total C \<Longrightarrow> is_ok (encrypt_chunk C content p)"
  unfolding se_total_def
  by (auto simp: encrypt_chunk_def cipher_encrypt_def ok_or_def split: prod.splits option.splits)
    (metis option.distinct(1))+

section \<open>One level\<close>

definition src_hashes :: "se_env \<Rightarrow> nat \<Rightarrow> bytes \<Rightarrow> xorname list" where
  "src_hashes C mcs data =
     map (\<lambda>i. content_hash C (file_chunk mcs data i)) [0..<get_num_chunks mcs (length data)]"

definition encrypt_nth :: "se_env \<Rightarrow> nat \<Rightarrow> bytes \<Rightarrow> nat \<Rightarrow> nat \<Rightarrow> bytes se_result" where
  "encrypt_nth C mcs data l i =
     try_bind (get_pad_key_and_nonce C i (src_hashes C mcs data) l)
       (encrypt_chunk C (file_chunk mcs data i))"

definition info_nth :: "se_env \<Rightarrow> nat \<Rightarrow> bytes \<Rightarrow> nat \<Rightarrow> bytes \<Rightarrow> ChunkInfo" where
  "info_nth C mcs data i e =
     \<lparr>index = i, dst_hash = content_hash C e, src_hash = content_hash C (file_chunk mcs data i),
      src_size = chunk_end mcs (length data) i - chunk_start mcs (length data) i\<rparr>"

definition map_of_chunks :: "se_env \<Rightarrow> nat \<Rightarrow> bytes \<Rightarrow> bytes list \<Rightarrow> DataMap" where
  "map_of_chunks C mcs data ecs =
     \<lparr>chunk_identifiers = map (\<lambda>(i, e). info_nth C mcs data i e) (enumerate 0 ecs), child = None\<rparr>"

definition one_level_spec :: "se_env \<Rightarrow> nat \<Rightarrow> bytes \<Rightarrow> nat \<Rightarrow> (DataMap \<times> bytes list) se_result" where
  "one_level_spec C mcs data l =
     try_bind (traverse (encrypt_nth C mcs data l) [2..<get_num_chunks mcs (length data)]) (\<lambda>cs.
     try_bind (traverse (encrypt_nth C mcs data l) [0, 1]) (\<lambda>fs.
     Inr (map_of_chunks C mcs data (fs @ cs), fs @ cs)))"

lemma length_src_hashes [simp]: "length (src_hashes C mcs data) = get_num_chunks mcs (length data)"
  by (simp add: src_hashes_def)

lemma take_src_hashes:
  "i \<le> get_num_chunks mcs (length data) \<Longrightarrow>
   take i (src_hashes C mcs data) = map (\<lambda>i. content_hash C (file_chunk mcs data i)) [0..<i]"
  by (simp add: src_hashes_def take_map)

lemma encrypt_loop_tail:
  assumes "2 \<le> i" "i \<le> get_num_chunks mcs (length data)"
    and "es_hashes st = take i (src_hashes C mcs data)"
  shows "encrypt_loop C mcs data l [i..<get_num_chunks mcs (length data)] st =
         try_bind (traverse (encrypt_nth C mcs data l) [i..<get_num_chunks mcs (length data)]) (\<lambda>cs.
           Inr (st\<lparr>es_hashes := src_hashes C mcs data, es_chunks := es_chunks st @ cs,
                   es_infos := es_infos st @ map (\<lambda>(j, e). info_nth C mcs data j e) (enumerate i cs)\<rparr>))"
  using assms
proof (induction "get_num_chunks mcs (length data) - i" arbitrary: i st)
  case 0
  then show ?case by simp
next
  case (Suc k)
  let ?n = "get_num_chunks mcs (length data)"
  have i: "i < ?n" using Suc.hyps(2) by simp
  have upt: "[i..<?n] = i # [Suc i..<?n]" using i by (rule upt_conv_Cons)
  have hs: "take i (src_hashes C mcs data) @ [content_hash C (file_chunk mcs data i)]
              = take (Suc i) (src_hashes C mcs data)"
    using i by (simp add: take_src_hashes)
  have key: "get_pad_key_and_nonce C i (take (Suc i) (src_hashes C mcs data)) l
               = get_pad_key_and_nonce C i (src_hashes C mcs data) l"
    using Suc.prems i by (intro get_pad_key_and_nonce_prefix) auto
  have chunk: "slice_of (chunk_start mcs (length data) i) (chunk_end mcs (length data) i) data
                 = file_chunk mcs data i"
    by (simp add: file_chunk_eq)
  show ?case
  proof (cases "encrypt_nth C mcs data l i")
    case (Inl e)
    with Suc.prems show ?thesis
      by (auto simp: upt Let_def positions_eq chunk hs key encrypt_nth_def result_simps)
  next
    case (Inr e)
    let ?st' = "st\<lparr>es_hashes := take (Suc i) (src_hashes C mcs data),
      es_chunks := es_chunks st @ [e], es_infos := es_infos st @ [info_nth C mcs data i e]\<rparr>"
    have "encrypt_loop C mcs data l [i..<?n] st = encrypt_loop C mcs data l [Suc i..<?n] ?st'"
      using Inr Suc.prems
      by (auto simp: upt Let_def positions_eq chunk hs key encrypt_nth_def info_nth_def result_simps)
    also have "\<dots> = try_bind (traverse (encrypt_nth C mcs data l) [Suc i..<?n]) (\<lambda>cs.
        Inr (?st'\<lparr>es_hashes := src_hashes C mcs data, es_chunks := es_chunks ?st' @ cs,
          es_infos := es_infos ?st' @ map (\<lambda>(j, e). info_nth C mcs data j e) (enumerate (Suc i) cs)\<rparr>))"
      using Suc.hyps Suc.prems i by (intro Suc.hyps(1)) auto
    finally show ?thesis using Inr
      by (cases "traverse (encrypt_nth C mcs data l) [Suc i..<?n]") (auto simp: upt)
  qed
qed

lemma encrypt_loop_eq:
  assumes "3 \<le> get_num_chunks mcs (length data)"
  shows "encrypt_loop C mcs data l [0..<get_num_chunks mcs (length data)] enc_state_init =
         try_bind (traverse (encrypt_nth C mcs data l) [2..<get_num_chunks mcs (length data)]) (\<lambda>cs.
           Inr \<lparr>es_hashes = src_hashes C mcs data,
                es_first = map (\<lambda>i. (i, file_chunk mcs data i, content_hash C (file_chunk mcs data i),
                    chunk_end mcs (length data) i - chunk_start mcs (length data) i)) [0, 1],
                es_chunks = cs, es_infos = map (\<lambda>(j, e). info_nth C mcs data j e) (enumerate 2 cs)\<rparr>)"
proof -
  let ?n = "get_num_chunks mcs (length data)"
  have upt: "[0..<?n] = 0 # 1 # [2..<?n]"
    using assms by (simp add: upt_conv_Cons numeral_2_eq_2)
  let ?first = "map (\<lambda>i. (i, file_chunk mcs data i, content_hash C (file_chunk mcs data i),
    chunk_end mcs (length data) i - chunk_start mcs (length data) i)) [0, 1]"
  let ?st = "\<lparr>es_hashes = take 2 (src_hashes C mcs data), es_first = ?first,
    es_chunks = [], es_infos = []\<rparr>"
  have "take 2 (src_hashes C mcs data) =
      [content_hash C (file_chunk mcs data 0), content_hash C (file_chunk mcs data (Suc 0))]"
    using assms by (simp add: take_src_hashes numeral_2_eq_2)
  then have "encrypt_loop C mcs data l [0..<?n] enc_state_init = encrypt_loop C mcs data l [2..<?n] ?st"
    by (simp add: upt enc_state_init_def positions_eq file_chunk_eq Let_def)
  also have "\<dots> = try_bind (traverse (encrypt_nth C mcs data l) [2..<?n]) (\<lambda>cs.
      Inr (?st\<lparr>es_hashes := src_hashes C mcs data, es_chunks := es_chunks ?st @ cs,
        es_infos := es_infos ?st @ map (\<lambda>(j, e). info_nth C mcs data j e) (enumerate 2 cs)\<rparr>))"
    using assms by (intro encrypt_loop_tail) auto
  finally show ?thesis by simp
qed

lemma map_of_chunks_sorted:
  "DataMap_new (map (\<lambda>(i, e). info_nth C mcs data i e) (enumerate 0 ecs)) = map_of_chunks C mcs data ecs"
proof -
  have "map index (map (\<lambda>(i, e). info_nth C mcs data i e) (enumerate 0 ecs)) = [0..<length ecs]"
    by (rule nth_equalityI) (auto simp: nth_enumerate_eq info_nth_def)
  then show ?thesis
    by (simp add: DataMap_new_def map_of_chunks_def sort_key_index_id)
qed

lemma encrypt_one_level_eq:
  assumes "0 < mcs" "3 \<le> length data"
  shows "encrypt_one_level C mcs data l = one_level_spec C mcs data l"
proof -
  have n: "3 \<le> get_num_chunks mcs (length data)" using assms by (rule num_chunks_ge_3)
  show ?thesis
  proof (cases "traverse (encrypt_nth C mcs data l) [2..<get_num_chunks mcs (length data)]")
    case (Inl e)
    with n assms show ?thesis
      by (simp add: encrypt_one_level_def encrypt_loop_eq one_level_spec_def Let_def
          MIN_ENCRYPTABLE_BYTES_def MIN_CHUNK_SIZE_def del: upt_Suc)
  next
    case (Inr cs)
    with n assms show ?thesis
      by (simp add: encrypt_one_level_def encrypt_loop_eq one_level_spec_def Let_def
          MIN_ENCRYPTABLE_BYTES_def MIN_CHUNK_SIZE_def del: upt_Suc)
        (simp add: encrypt_nth_def try_bind_assoc map_of_chunks_sorted [symmetric]
          info_nth_def [of C mcs data 0] info_nth_def [of C mcs data "Suc 0"] numeral_2_eq_2)
  qed
qed

lemma one_level_ok_iff:
  assumes "3 \<le> get_num_chunks mcs (length data)"
  shows "one_level_spec C mcs data l = Inr (dm, ecs) \<longleftrightarrow>
         traverse (encrypt_nth C mcs data l) [0..<get_num_chunks mcs (length data)] = Inr ecs \<and>
         dm = map_of_chunks C mcs data ecs"
proof -
  let ?f = "encrypt_nth C mcs data l" and ?n = "get_num_chunks mcs (length data)"
  have upt: "[0..<?n] = [0, 1] @ [2..<?n]"
    using assms by (simp add: upt_conv_Cons numeral_2_eq_2)
  have "traverse ?f [0..<?n] =
      try_bind (traverse ?f [0, 1]) (\<lambda>us. try_bind (traverse ?f [2..<?n]) (\<lambda>vs. Inr (us @ vs)))"
    by (simp only: upt traverse_append)
  then show ?thesis
    by (auto simp: one_level_spec_def result_simps simp del: traverse.simps)
qed

lemma one_level_total:
  assumes "se_total C" "0 < mcs" "3 \<le> length data"
  shows "\<exists>ecs. encrypt_one_level C mcs data l = Inr (map_of_chunks C mcs data ecs, ecs) \<and>
               length ecs = get_num_chunks mcs (length data)"
proof -
  let ?n = "get_num_chunks mcs (length data)"
  have n: "3 \<le> ?n" using assms by (intro num_chunks_ge_3)
  have "is_ok (encrypt_nth C mcs data l i)" if i: "i < ?n" for i
  proof -
    obtain p where "get_pad_key_and_nonce C i (src_hashes C mcs data) l = Inr p"
      using get_pad_key_and_nonce_total [of "src_hashes C mcs data" i C l] i n
      by (auto simp: is_ok_iff)
    then show ?thesis using encrypt_chunk_total [OF assms(1)] by (simp add: encrypt_nth_def)
  qed
  then have "is_ok (traverse (encrypt_nth C mcs data l) [0..<?n])"
    by (intro traverse_total) auto
  then obtain ecs where ecs: "traverse (encrypt_nth C mcs data l) [0..<?n] = Inr ecs"
    by (auto simp: is_ok_iff)
  with n assms have "encrypt_one_level C mcs data l = Inr (map_of_chunks C mcs data ecs, ecs)"
    by (simp add: encrypt_one_level_eq one_level_ok_iff)
  moreover have "length ecs = ?n" using ecs by (auto dest: traverse_length)
  ultimately show ?thesis by blast
qed

text \<open>An encrypted level, as seen from its result.\<close>

lemma one_level_okE:
  assumes "encrypt_one_level C mcs data l = Inr (dm, ecs)" "0 < mcs"
  obtains "3 \<le> length data" "dm = map_of_chunks C mcs data ecs"
    "length ecs = get_num_chunks mcs (length data)"
    "\<And>i. i < length ecs \<Longrightarrow> encrypt_nth C mcs data l i = Inr (ecs ! i)"
proof -
  have len: "3 \<le> length data"
    using assms(1)
    by (auto simp: encrypt_one_level_def Let_def MIN_ENCRYPTABLE_BYTES_def MIN_CHUNK_SIZE_def
        split: if_splits)
  have n: "3 \<le> get_num_chunks mcs (length data)" using assms(2) len by (rule num_chunks_ge_3)
  have tr: "traverse (encrypt_nth C mcs data l) [0..<get_num_chunks mcs (length data)] = Inr ecs"
    and dm: "dm = map_of_chunks C mcs data ecs"
    using assms len n by (simp_all add: encrypt_one_level_eq one_level_ok_iff)
  have "length ecs = get_num_chunks mcs (length data)" using traverse_length [OF tr] by simp
  moreover have "encrypt_nth C mcs data l i = Inr (ecs ! i)" if "i < length ecs" for i
    using traverse_nth [OF tr, of i] that calculation by simp
  ultimately show ?thesis using that len dm by blast
qed

lemma infos_map_of_chunks [simp]:
  "infos (map_of_chunks C mcs data ecs) = map (\<lambda>(i, e). info_nth C mcs data i e) (enumerate 0 ecs)"
  "child (map_of_chunks C mcs data ecs) = None"
  "DataMap_len (map_of_chunks C mcs data ecs) = length ecs"
  by (simp_all add: infos_def map_of_chunks_def DataMap_len_def)

lemma extract_hashes_map_of_chunks:
  assumes "length ecs = get_num_chunks mcs (length data)"
    and "infos dm = infos (map_of_chunks C mcs data ecs)"
  shows "extract_hashes dm = src_hashes C mcs data"
  using assms
  by (intro nth_equalityI) (auto simp: extract_hashes_def src_hashes_def nth_enumerate_eq info_nth_def)

lemma dst_hash_map_of_chunks:
  "i < length ecs \<Longrightarrow> dst_hash (infos (map_of_chunks C mcs data ecs) ! i) = content_hash C (ecs ! i)"
  by (simp add: nth_enumerate_eq info_nth_def)

lemma original_file_size_map_of_chunks:
  assumes "0 < mcs" "3 \<le> length data" "length ecs = get_num_chunks mcs (length data)"
  shows "original_file_size (map_of_chunks C mcs data ecs) = length data"
proof -
  let ?n = "get_num_chunks mcs (length data)"
  have "map src_size (infos (map_of_chunks C mcs data ecs)) = map length (file_chunks mcs data)"
    using assms
    by (intro nth_equalityI)
      (auto simp: file_chunks_def nth_enumerate_eq info_nth_def length_file_chunk chunk_start_eq(2))
  then have "original_file_size (map_of_chunks C mcs data ecs) = length (concat (file_chunks mcs data))"
    by (simp add: original_file_size_def total_src_size_eq infos_def length_concat)
  then show ?thesis using assms by (simp add: concat_file_chunks)
qed

section \<open>Decryption of one level\<close>

lemma chunk_map_hit:
  "inj_on (content_hash C) (set chunks) \<Longrightarrow> c \<in> set chunks \<Longrightarrow>
   chunk_map C chunks (content_hash C c) = Some c"
  by (simp add: chunk_map_def hash_map_of_keyed)

lemma lookup_all:
  assumes "inj_on (content_hash C) (set chunks)" "set ecs \<subseteq> set chunks"
    and "infos dm = infos (map_of_chunks C mcs data ecs)"
  shows "traverse (\<lambda>info. ok_or (err info) (chunk_map C chunks (dst_hash info))) (infos dm) = Inr ecs"
proof -
  have "chunk_map C chunks (dst_hash (infos dm ! i)) = Some (ecs ! i)" if "i < length ecs" for i
    using that assms by (auto simp: nth_enumerate_eq info_nth_def intro!: chunk_map_hit)
  with assms(3) show ?thesis
    by (auto simp: traverse_Inr_iff list_all2_conv_all_nth result_simps)
qed

lemma one_level_nth_decrypts:
  assumes "se_laws C" "0 < mcs" "encrypt_one_level C mcs data l = Inr (dm, ecs)" "i < length ecs"
  shows "decrypt_chunk C i (ecs ! i) (src_hashes C mcs data) l = Inr (file_chunk mcs data i)"
proof (rule one_level_okE [OF assms(3,2)])
  assume "\<And>i. i < length ecs \<Longrightarrow> encrypt_nth C mcs data l i = Inr (ecs ! i)"
  from this [OF assms(4)] show ?thesis
    using assms(1) by (auto simp: encrypt_nth_def result_simps intro: decrypt_encrypt_chunk)
qed

lemma decrypt_sorted_set_ok:
  assumes "se_laws C" "0 < mcs" "encrypt_one_level C mcs data l = Inr (dm, ecs)"
  shows "decrypt_sorted_set C (src_hashes C mcs data) ecs l = Inr data"
proof (rule one_level_okE [OF assms(3,2)])
  assume len: "3 \<le> length data" and n: "length ecs = get_num_chunks mcs (length data)"
  have "traverse (\<lambda>(i, c). decrypt_chunk C i c (src_hashes C mcs data) l) (enumerate 0 ecs)
      = Inr (file_chunks mcs data)"
    using n one_level_nth_decrypts [OF assms]
    by (auto simp: traverse_Inr_iff list_all2_conv_all_nth nth_enumerate_eq file_chunks_def)
  then show ?thesis using assms(2) len by (simp add: decrypt_sorted_set_def concat_file_chunks)
qed

lemma decrypt_full_set_ok:
  assumes "se_laws C" "0 < mcs" "encrypt_one_level C mcs data l = Inr (dm, ecs)"
    and "inj_on (content_hash C) (set chunks)" "set ecs \<subseteq> set chunks"
    and "infos dm' = infos dm" "child_level_of dm' = l"
  shows "decrypt_full_set C dm' chunks = Inr data"
proof (rule one_level_okE [OF assms(3,2)])
  assume dm: "dm = map_of_chunks C mcs data ecs"
    and n: "length ecs = get_num_chunks mcs (length data)"
  have "extract_hashes dm' = src_hashes C mcs data"
    using extract_hashes_map_of_chunks n assms(6) dm by metis
  moreover have "traverse (\<lambda>info. ok_or (Generic (ChunkNotInDataMap (dst_hash info)))
      (chunk_map C chunks (dst_hash info))) (infos dm') = Inr ecs"
    using assms(4-6) dm by (intro lookup_all) auto
  ultimately show ?thesis
    using decrypt_sorted_set_ok [OF assms(1-3)] assms(7) by (simp add: decrypt_full_set_def)
qed

section \<open>Fuel\<close>

lemma wf_map_of_chunks:
  assumes "se_laws C" "0 < mcs" "3 \<le> length data" "length data < USIZE_LIMIT"
    and "length ecs = get_num_chunks mcs (length data)"
  shows "wf_versioned (serialize_versioned (map_of_chunks C mcs data ecs))"
proof -
  let ?n = "get_num_chunks mcs (length data)"
  have n: "?n \<le> length data" using assms(2,3) by (rule num_chunks_le_length)
  have "wf_info (info_nth C mcs data i (ecs ! i))" if "i < ?n" for i
    using assms n that chunk_in_file [OF assms(2,3) that]
    by (auto simp: wf_info_def info_nth_def content_hash_def se_laws_def)
  then have "list_all wf_info (infos (map_of_chunks C mcs data ecs))"
    using assms(5) by (auto simp: list_all_length nth_enumerate_eq)
  then show ?thesis using n assms(4,5)
    by (simp add: wf_versioned_def serialize_versioned_def map_of_chunks_def infos_def)
qed

lemma to_bytes_map_of_chunks:
  assumes "se_laws C" "se_total C" "bincode_size C" "0 < mcs" "3 \<le> length data"
    and "length data < USIZE_LIMIT" "length ecs = get_num_chunks mcs (length data)"
  obtains bs where "to_bytes (bincode_serialize C) (map_of_chunks C mcs data ecs) = Inr bs"
    "9 + 80 * length ecs < length bs" "length bs \<le> 18 + 80 * length ecs"
proof -
  let ?v = "serialize_versioned (map_of_chunks C mcs data ecs)"
  have "wf_versioned ?v" using assms by (intro wf_map_of_chunks)
  then obtain bs where bs: "bincode_serialize C ?v = Inr bs"
    using assms(2) by (auto simp: se_total_def is_ok_iff)
  moreover have "length (v_chunk_identifiers ?v) = length ecs"
    by (simp add: serialize_versioned_def map_of_chunks_def)
  ultimately show ?thesis
    using that assms(3) by (fastforce simp: to_bytes_def bincode_size_def)
qed

text \<open>A serialised data map of more than three chunks has fewer chunks than the map.\<close>

lemma num_chunks_decrease:
  assumes "160 \<le> mcs" "4 \<le> n" "len \<le> 18 + 80 * n" "3 \<le> len"
  shows "get_num_chunks mcs len < n"
proof (cases "len < 3 * mcs")
  case True
  with assms show ?thesis by (simp add: small_file)
next
  case False
  let ?k = "get_num_chunks mcs len"
  have "(?k - 1) * mcs + last_size mcs len = len" "3 \<le> ?k"
    using large_file_count [of mcs len] assms False by auto
  then have "(?k - 1) * mcs \<le> 18 + 80 * n" using assms by linarith
  moreover have "(?k - 1) * 160 \<le> (?k - 1) * mcs" using assms by simp
  ultimately have "(?k - 1) * 160 \<le> 18 + 80 * n" by (rule order_trans [rotated])
  with assms(2) \<open>3 \<le> ?k\<close> show ?thesis by linarith
qed

text \<open>Serialised, it is shorter than the data it describes.\<close>

lemma map_bytes_shorter:
  assumes "160 \<le> mcs" "4 \<le> get_num_chunks mcs len" "3 \<le> len"
  shows "18 + 80 * get_num_chunks mcs len < len"
proof -
  let ?k = "get_num_chunks mcs len"
  have large: "3 * mcs \<le> len" using assms small_file(1) [of len mcs] by fastforce
  then have eq: "(?k - 1) * mcs + last_size mcs len = len"
    using large_file_count(2) [of mcs len] assms by simp
  have "(?k - 1) * 160 \<le> (?k - 1) * mcs" using assms(1) by simp
  moreover have "0 < last_size mcs len" using assms(1) by (intro last_size_pos) simp
  ultimately have "(?k - 1) * 160 < len" using eq by linarith
  with assms(2) show ?thesis by linarith
qed

lemma shrink_pushing_len:
  "shrink_pushing C mcs fuel dm pushed = Some (Inr (dm', pushed')) \<Longrightarrow> DataMap_len dm' \<le> 3"
proof (induction fuel arbitrary: dm pushed)
  case (Suc fuel)
  then show ?case
    by (auto split: if_splits sum.splits option.splits prod.splits)
qed simp

lemma encrypt_level_len:
  "encrypt_with_child_level C mcs fuel data l = Some (Inr (dm, chunks)) \<Longrightarrow> DataMap_len dm \<le> 3"
  by (cases fuel) (auto split: sum.splits dest: shrink_pushing_len)

lemma DataMap_len_with_child [simp]: "DataMap_len (with_child (infos dm) l) = DataMap_len dm"
  by (simp add: DataMap_len_def with_child_def infos_def)

lemma shrink_pushing_done [simp]:
  "0 < fuel \<Longrightarrow> DataMap_len dm \<le> 3 \<Longrightarrow> shrink_pushing C mcs fuel dm pushed = Some (Inr (dm, pushed))"
  by (cases fuel) auto

lemma encrypt_enough_fuel:
  assumes "se_laws C" "se_total C" "bincode_size C" "160 \<le> mcs"
    and "3 \<le> length data" "length data < USIZE_LIMIT"
    and "2 * get_num_chunks mcs (length data) + 2 \<le> fuel"
  shows "\<exists>dm chunks. encrypt_with_child_level C mcs fuel data l = Some (Inr (dm, chunks))"
  using assms(5-7)
proof (induction "get_num_chunks mcs (length data)" arbitrary: data fuel l rule: less_induct)
  case less
  let ?n = "get_num_chunks mcs (length data)"
  have mcs: "0 < mcs" using assms(4) by simp
  obtain f where fuel: "fuel = Suc f" using less.prems by (cases fuel) auto
  obtain ecs where ecs: "encrypt_one_level C mcs data l = Inr (map_of_chunks C mcs data ecs, ecs)"
    and len: "length ecs = ?n"
    using one_level_total [OF assms(2) mcs less.prems(1)] by blast
  have f: "2 * ?n + 1 \<le> f" using less.prems(3) fuel by simp
  show ?case
  proof (cases "?n \<le> 3")
    case True
    then show ?thesis using fuel ecs len f by simp
  next
    case False
    obtain bs where bs: "to_bytes (bincode_serialize C) (map_of_chunks C mcs data ecs) = Inr bs"
      and size: "9 + 80 * length ecs < length bs" "length bs \<le> 18 + 80 * length ecs"
      using to_bytes_map_of_chunks [OF assms(1-3) mcs less.prems(1,2) len] by blast
    obtain g where g: "f = Suc g" using f by (cases f) auto
    have smaller: "get_num_chunks mcs (length bs) < ?n"
      using False assms(4) size len by (intro num_chunks_decrease) auto
    have "length bs < length data"
      using map_bytes_shorter [OF assms(4) _ less.prems(1)] False size len by simp
    then have "\<exists>dm chunks. encrypt_with_child_level C mcs g bs 1 = Some (Inr (dm, chunks))"
      using less.hyps [OF smaller, of g 1] size less.prems(2) f g smaller by simp
    then obtain dm chunks where rec: "encrypt_with_child_level C mcs g bs 1 = Some (Inr (dm, chunks))"
      by blast
    then have "DataMap_len dm \<le> 3" by (rule encrypt_level_len)
    moreover have "0 < g" using f g smaller by simp
    ultimately show ?thesis
      using fuel ecs len False bs g rec by (simp add: next_child_level_def)
  qed
qed

text \<open>The closure of \<open>encrypt_with_child_level\<close> makes \<open>shrink_data_map\<close> append.\<close>

lemma store_chunks_push [simp]:
  "store_chunks C (\<lambda>s h c. Inr (s @ [c])) s cs = Inr (s @ cs)"
  by (induction cs arbitrary: s) auto

lemma shrink_pushing_eq:
  "shrink_pushing C mcs fuel dm pushed =
     map_option (map_sum id (\<lambda>(dm', all_chunks, s). (dm', s)))
       (shrink_data_map C mcs fuel (\<lambda>s h c. Inr (s @ [c])) pushed dm all)"
proof (induction fuel arbitrary: dm pushed all)
  case (Suc fuel)
  then show ?case by (auto split: sum.splits option.splits prod.splits)
qed simp

section \<open>Root data maps\<close>

lemma lookup_chunk_hit [simp]:
  "chunk_map C chunks h = Some c \<Longrightarrow> lookup_chunk C chunks s h = Inr (c, s)"
  by (simp add: lookup_chunk_def)

lemma fetch_chunks_lookup:
  assumes "\<forall>info \<in> set is. chunk_map C chunks (dst_hash info) \<noteq> None"
    and "\<forall>h c. cache h = Some c \<longrightarrow> chunk_map C chunks h = Some c"
  shows "\<exists>cache'. fetch_chunks (lookup_chunk C chunks) is cache () =
           Inr (map (\<lambda>info. the (chunk_map C chunks (dst_hash info))) is, cache', ())"
  using assms
proof (induction "is" arbitrary: cache)
  case (Cons info "is")
  show ?case
  proof (cases "cache (dst_hash info)")
    case None
    obtain c where c: "chunk_map C chunks (dst_hash info) = Some c" using Cons.prems by auto
    then have "\<exists>cache'. fetch_chunks (lookup_chunk C chunks) is (cache(dst_hash info \<mapsto> c)) () =
        Inr (map (\<lambda>info. the (chunk_map C chunks (dst_hash info))) is, cache', ())"
      using Cons.prems by (intro Cons.IH) auto
    then show ?thesis using None c by auto
  next
    case (Some c)
    then show ?thesis using Cons.IH [of cache] Cons.prems by auto
  qed
qed auto

lemma get_root_step:
  assumes "se_laws C" "0 < mcs" "encrypt_one_level C mcs bs l = Inr (dm, ecs)"
    and "inj_on (content_hash C) (set chunks)" "set ecs \<subseteq> set chunks"
    and "from_bytes (bincode_deserialize C) bs = Inr parent" "\<not> is_child parent"
  shows "get_root_data_map C (lookup_chunk C chunks) () (with_child (infos dm) l) = Inr parent"
proof (rule one_level_okE [OF assms(3,2)])
  assume dm: "dm = map_of_chunks C mcs bs ecs"
  let ?m = "with_child (infos dm) l"
  have infos: "infos ?m = infos dm"
  proof -
    have "map index (infos dm) = [0..<length (infos dm)]"
      unfolding dm by (rule nth_equalityI) (auto simp: nth_enumerate_eq info_nth_def)
    then show ?thesis by (simp add: with_child_def infos_def sort_key_index_id)
  qed
  have hit: "chunk_map C chunks (dst_hash (infos ?m ! i)) = Some (ecs ! i)" if "i < length ecs" for i
    using that assms(4,5) infos dm by (auto simp: nth_enumerate_eq info_nth_def intro!: chunk_map_hit)
  have len: "length (infos ?m) = length ecs" using infos dm by simp
  have "\<forall>info \<in> set (infos ?m). chunk_map C chunks (dst_hash info) \<noteq> None"
    using hit len by (auto simp: in_set_conv_nth)
  then obtain cache where fetch: "fetch_chunks (lookup_chunk C chunks) (infos ?m) Map.empty () =
      Inr (map (\<lambda>info. the (chunk_map C chunks (dst_hash info))) (infos ?m), cache, ())"
    using fetch_chunks_lookup [of "infos ?m" C chunks Map.empty] by auto
  have fetched: "map (\<lambda>info. the (chunk_map C chunks (dst_hash info))) (infos ?m) = ecs"
    using hit len by (intro nth_equalityI) auto
  have "inj_on (content_hash C) (set ecs)" using assms(4,5) by (rule inj_on_subset)
  then have "decrypt_full_set C ?m ecs = Inr bs"
    using assms(1-3) infos
    by (intro decrypt_full_set_ok) (auto simp: child_level_of_def with_child_def)
  moreover have "is_child ?m" by (simp add: is_child_def with_child_def)
  ultimately show ?thesis using fetch fetched assms(6,7)
    by (simp add: get_root_data_map_def inner_get_root_map.simps [of _ _ _ _ ?m]
        inner_get_root_map.simps [of _ _ _ _ parent])
qed

lemma decrypt_root:
  assumes "se_laws C" "0 < mcs" "encrypt_one_level C mcs data 0 = Inr (dm, ecs)"
    and "inj_on (content_hash C) (set chunks)" "set ecs \<subseteq> set chunks"
  shows "try_bind (traverse (\<lambda>info. ok_or (err info) (chunk_map C chunks (dst_hash info))) (infos dm))
           (decrypt_full_set C dm) = Inr data"
proof (rule one_level_okE [OF assms(3,2)])
  assume dm: "dm = map_of_chunks C mcs data ecs"
  have "inj_on (content_hash C) (set ecs)" using assms(4,5) by (rule inj_on_subset)
  then have "decrypt_full_set C dm ecs = Inr data"
    using assms(1-3) dm by (intro decrypt_full_set_ok) (auto simp: child_level_of_def)
  moreover have "traverse (\<lambda>info. ok_or (err info) (chunk_map C chunks (dst_hash info))) (infos dm) = Inr ecs"
    using assms(4,5) dm by (intro lookup_all) auto
  ultimately show ?thesis by simp
qed

section \<open>Round trip\<close>

lemma encrypt_single_levelE:
  assumes "encrypt C mcs fuel data = Some (Inr (dm, chunks))" "0 < mcs" "bincode_size C"
    and "18 + 80 * get_num_chunks mcs (length data) < 3 * mcs"
  obtains (root) ecs where "encrypt_one_level C mcs data 0 = Inr (dm, ecs)" "chunks = ecs"
      "child dm = None"
    | (shrunk) root ecs bs dm1 ecs1 where "encrypt_one_level C mcs data 0 = Inr (root, ecs)"
      "to_bytes (bincode_serialize C) root = Inr bs" "encrypt_one_level C mcs bs 1 = Inr (dm1, ecs1)"
      "dm = with_child (infos dm1) 1" "chunks = ecs @ ecs1" "child root = None"
proof -
  obtain f root ecs where lvl: "encrypt_one_level C mcs data 0 = Inr (root, ecs)"
    and shr: "shrink_pushing C mcs f root ecs = Some (Inr (dm, chunks))"
    using assms(1) by (cases fuel) (auto simp: encrypt_def split: sum.splits)
  have map: "root = map_of_chunks C mcs data ecs" "length ecs = get_num_chunks mcs (length data)"
    using lvl assms(2) by (auto elim: one_level_okE)
  show ?thesis
  proof (cases "DataMap_len root \<le> 3")
    case True
    with shr have "dm = root" "chunks = ecs" by (cases f; auto)+
    with lvl map show ?thesis by (intro root) auto
  next
    case False
    obtain g bs dm1 ecs1 where bs: "to_bytes (bincode_serialize C) root = Inr bs"
      and rec: "encrypt_with_child_level C mcs g bs 1 = Some (Inr (dm1, ecs1))"
      and out: "shrink_pushing C mcs g (with_child (infos dm1) 1) (ecs @ ecs1) = Some (Inr (dm, chunks))"
      using shr False map
      by (cases f) (auto simp: next_child_level_def split: sum.splits option.splits prod.splits if_splits)
    have "length bs \<le> 18 + 80 * length ecs"
      using bs assms(3) map(1)
      by (fastforce simp: to_bytes_def bincode_size_def serialize_versioned_def map_of_chunks_def)
    then have small: "length bs < 3 * mcs" using assms(4) map(2) by simp
    obtain h dm2 ecs2 where lvl1: "encrypt_one_level C mcs bs 1 = Inr (dm2, ecs2)"
      and shr1: "shrink_pushing C mcs h dm2 ecs2 = Some (Inr (dm1, ecs1))"
      using rec by (cases g) (auto split: sum.splits)
    have "3 \<le> length bs" "dm2 = map_of_chunks C mcs bs ecs2" "length ecs2 = get_num_chunks mcs (length bs)"
      using lvl1 assms(2) by (auto elim: one_level_okE)
    then have "DataMap_len dm2 \<le> 3" using small by (simp add: small_file)
    with shr1 have "dm1 = dm2" "ecs1 = ecs2" by (cases h; auto)+
    moreover have "dm = with_child (infos dm1) 1" "chunks = ecs @ ecs1"
      using out encrypt_level_len [OF rec] by (cases g; auto)+
    ultimately show ?thesis using lvl bs lvl1 map by (intro shrunk) auto
  qed
qed

lemma encrypt_decrypt:
  assumes "se_laws C" "bincode_size C" "0 < mcs"
    and "18 + 80 * get_num_chunks mcs (length data) < 3 * mcs"
    and "encrypt C mcs fuel data = Some (Inr (dm, chunks))"
    and "inj_on (content_hash C) (set chunks)"
  shows "decrypt C dm chunks = Inr data"
  using assms(5,3,2,4)
proof (cases rule: encrypt_single_levelE)
  case (root ecs)
  then show ?thesis
    using decrypt_root [OF assms(1,3) root(1), of chunks] assms(6)
    by (simp add: decrypt_def is_child_def)
next
  case (shrunk root ecs bs dm1 ecs1)
  have "from_bytes (bincode_deserialize C) bs = Inr root"
    using shrunk(2) assms(1) by (auto intro: from_bytes_to_bytes simp: se_laws_def)
  then have "get_root_data_map C (lookup_chunk C chunks) () dm = Inr root"
    using get_root_step [OF assms(1,3) shrunk(3) assms(6)] shrunk(4-6) by (simp add: is_child_def)
  moreover have "is_child dm" using shrunk(4) by (simp add: is_child_def with_child_def)
  ultimately show ?thesis
    using decrypt_root [OF assms(1,3) shrunk(1) assms(6)] shrunk(5)
    by (simp add: decrypt_def)
qed

lemma root_lookup_missing:
  assumes "info \<in> set (infos dm)" "dst_hash info \<notin> content_hash C ` set chunks"
  shows "\<exists>y \<in> set (infos dm). dst_hash y \<notin> content_hash C ` set chunks \<and>
      traverse (\<lambda>x. ok_or (Generic (MissingChunk (dst_hash x))) (chunk_map C chunks (dst_hash x))) (infos dm)
        = Inl (Generic (MissingChunk (dst_hash y)))"
proof -
  have none: "chunk_map C chunks h = None \<longleftrightarrow> h \<notin> content_hash C ` set chunks" for h
    by (auto simp: chunk_map_def hash_map_of_None image_iff)
  have "chunk_map C chunks (dst_hash info) = None" using assms(2) none by blast
  from traverse_ok_or_missing [of _ _ "\<lambda>x. chunk_map C chunks (dst_hash x)", OF assms(1) this] show ?thesis unfolding none .
qed

section \<open>What the shrunk data map resolves to\<close>

text \<open>
  Every map that is serialised during shrinking has no child level, because
  \<open>encrypt_with_child_level\<close> builds it with \<open>DataMap::new\<close>. So however many rounds there were,
  resolving the final map takes one step, to the map of the last round but one.
\<close>

lemma infos_with_child_sorted:
  "infos m = infos (map_of_chunks C mcs data ecs) \<Longrightarrow> infos (with_child (infos m) l) = infos m"
proof -
  assume m: "infos m = infos (map_of_chunks C mcs data ecs)"
  have "map index (infos m) = [0..<length (infos m)]"
    unfolding m by (rule nth_equalityI) (auto simp: nth_enumerate_eq info_nth_def)
  then show ?thesis by (simp add: with_child_def infos_def sort_key_index_id)
qed

definition last_round :: "se_env \<Rightarrow> nat \<Rightarrow> bytes \<Rightarrow> DataMap \<Rightarrow> DataMap \<Rightarrow> bytes list \<Rightarrow> bytes list \<Rightarrow> bool" where
  "last_round C mcs data' m' dm ecs1 chunks \<longleftrightarrow>
     (\<exists>l' ecs' bs' dm1. encrypt_one_level C mcs data' l' = Inr (m', ecs') \<and>
        to_bytes (bincode_serialize C) m' = Inr bs' \<and>
        encrypt_one_level C mcs bs' 1 = Inr (dm1, ecs1) \<and>
        infos dm = infos dm1 \<and> set ecs1 \<subseteq> set chunks)"

lemma encrypt_last_round:
  assumes "encrypt_with_child_level C mcs fuel data l = Some (Inr (dm, chunks))"
    and "bincode_size C" "160 \<le> mcs" "3 < get_num_chunks mcs (length data)"
  shows "child dm = Some 1 \<and> (\<exists>data' m' ecs1. last_round C mcs data' m' dm ecs1 chunks \<and>
           length data' \<le> length data \<and>
           (3 * mcs \<le> 9 + 80 * get_num_chunks mcs (length data) \<longrightarrow> length data' < length data))"
  using assms(1,4)
proof (induction fuel arbitrary: data l dm chunks rule: less_induct)
  case (less fuel)
  have mcs: "0 < mcs" using assms(3) by simp
  let ?n = "get_num_chunks mcs (length data)"
  obtain f m ecs where fuel: "fuel = Suc f" and lvl: "encrypt_one_level C mcs data l = Inr (m, ecs)"
    and shr: "shrink_pushing C mcs f m ecs = Some (Inr (dm, chunks))"
    using less.prems(1) by (cases fuel) (auto split: sum.splits)
  have m: "m = map_of_chunks C mcs data ecs" "length ecs = ?n" "3 \<le> length data"
    using lvl mcs by (auto elim: one_level_okE)
  obtain g bs ndm ecs1 where f: "f = Suc g" and bs: "to_bytes (bincode_serialize C) m = Inr bs"
    and rec: "encrypt_with_child_level C mcs g bs 1 = Some (Inr (ndm, ecs1))"
    and out: "shrink_pushing C mcs g (with_child (infos ndm) 1) (ecs @ ecs1) = Some (Inr (dm, chunks))"
    using shr m less.prems(2)
    by (cases f) (auto simp: next_child_level_def split: sum.splits option.splits prod.splits if_splits)
  have dm: "dm = with_child (infos ndm) 1" "chunks = ecs @ ecs1"
    using out encrypt_level_len [OF rec] by (cases g; auto)+
  have size: "9 + 80 * ?n < length bs" "length bs \<le> 18 + 80 * ?n"
    using bs assms(2) m
    by (fastforce simp: to_bytes_def bincode_size_def serialize_versioned_def map_of_chunks_def)+
  have shorter: "length bs < length data"
    using map_bytes_shorter [OF assms(3) _ m(3)] less.prems(2) size(2) by simp
  show ?case
  proof (cases "3 < get_num_chunks mcs (length bs)")
    case True
    then obtain data' m' ecs2 where IH: "last_round C mcs data' m' ndm ecs2 ecs1"
      "length data' \<le> length bs"
      using less.IH [of g bs 1 ndm ecs1] rec fuel f by auto
    then have "infos dm = infos ndm" using dm(1)
      by (auto simp: last_round_def elim!: one_level_okE [OF _ mcs] intro: infos_with_child_sorted)
    then have "last_round C mcs data' m' dm ecs2 chunks"
      using IH(1) dm(2) by (auto simp: last_round_def)
    moreover have "length data' < length data" using IH(2) shorter by simp
    moreover have "child dm = Some 1" using dm(1) by (simp add: with_child_def)
    ultimately show ?thesis by (meson less_imp_le)
  next
    case False
    obtain h m2 ecs2 where lvl1: "encrypt_one_level C mcs bs 1 = Inr (m2, ecs2)"
      and shr1: "shrink_pushing C mcs h m2 ecs2 = Some (Inr (ndm, ecs1))"
      using rec by (cases g) (auto split: sum.splits)
    have m2: "m2 = map_of_chunks C mcs bs ecs2" "length ecs2 = get_num_chunks mcs (length bs)"
      using lvl1 mcs by (auto elim: one_level_okE)
    with shr1 False have ndm: "ndm = m2" "ecs1 = ecs2" by (cases h; auto)+
    have "infos dm = infos m2"
      using infos_with_child_sorted [of m2 C mcs bs ecs2 1] dm(1) ndm(1) m2(1) by simp
    then have "last_round C mcs data m dm ecs1 chunks"
      using lvl bs lvl1 ndm dm(2) by (auto simp: last_round_def)
    moreover have "\<not> 3 * mcs \<le> 9 + 80 * ?n"
    proof
      assume "3 * mcs \<le> 9 + 80 * ?n"
      then have big: "3 * mcs < length bs" using size(1) by simp
      then have "(get_num_chunks mcs (length bs) - 1) * mcs + last_size mcs (length bs) = length bs"
        using large_file_count(2) [of mcs "length bs"] mcs by simp
      moreover have "(get_num_chunks mcs (length bs) - 1) * mcs \<le> 2 * mcs"
        using False by (intro mult_le_mono1) simp
      ultimately show False using big last_size_le [OF mcs, of "length bs"] by linarith
    qed
    ultimately show ?thesis using dm(1) by (auto simp: with_child_def)
  qed
qed

lemma last_round_root:
  assumes "se_laws C" "0 < mcs" "last_round C mcs data' m' dm ecs1 chunks" "child dm = Some 1"
    and "inj_on (content_hash C) (set chunks)"
  shows "get_root_data_map C (lookup_chunk C chunks) () dm = Inr m'" "original_file_size m' = length data'"
proof -
  obtain l' ecs' bs' dm1 where lvl: "encrypt_one_level C mcs data' l' = Inr (m', ecs')"
    and bs: "to_bytes (bincode_serialize C) m' = Inr bs'"
    and lvl1: "encrypt_one_level C mcs bs' 1 = Inr (dm1, ecs1)"
    and infos: "infos dm = infos dm1" and sub: "set ecs1 \<subseteq> set chunks"
    using assms(3) by (auto simp: last_round_def)
  have m': "m' = map_of_chunks C mcs data' ecs'" "length ecs' = get_num_chunks mcs (length data')"
    "3 \<le> length data'"
    using lvl assms(2) by (auto elim: one_level_okE)
  have "from_bytes (bincode_deserialize C) bs' = Inr m'"
    using bs assms(1) by (auto intro: from_bytes_to_bytes simp: se_laws_def)
  then have "get_root_data_map C (lookup_chunk C chunks) () (with_child (infos dm1) 1) = Inr m'"
    using m'(1) by (intro get_root_step [OF assms(1,2) lvl1 assms(5) sub]) (auto simp: is_child_def)
  moreover have "with_child (infos dm1) 1 = dm"
  proof -
    have "infos (with_child (infos dm1) 1) = infos dm1"
      using lvl1 assms(2) by (auto elim!: one_level_okE intro: infos_with_child_sorted)
    with infos assms(4) show ?thesis by (simp add: with_child_def infos_def)
  qed
  ultimately show "get_root_data_map C (lookup_chunk C chunks) () dm = Inr m'" by simp
  show "original_file_size m' = length data'"
    using original_file_size_map_of_chunks [OF assms(2) m'(3,2)] m'(1) by simp
qed

end
