(* ===== verification/Sample_Env.thy ===== *)
theory Sample_Env
  imports Self_Encryption
begin

unbundle bit_operations_syntax

text \<open>
  A concrete environment for self-encryption that satisfies \<open>se_laws\<close>, \<open>se_total\<close> and
  \<open>bincode_size\<close> together: a truncating hash, the identity as cipher and compressor, and a
  fixed-width binary form of data maps. It is the instance at which the theorems about
  self-encryption are evaluated; it is not a model of the cryptography.
\<close>

section \<open>Fixed-width data maps\<close>

definition enc_info :: "ChunkInfo \<Rightarrow> bytes" where
  "enc_info i = le_bytes 8 (index i) @ dst_hash i @ src_hash i @ le_bytes 8 (src_size i)"

definition dec_info :: "bytes \<Rightarrow> ChunkInfo" where
  "dec_info bs = \<lparr>index = le_value (take 8 bs), dst_hash = slice_of 8 40 bs,
                  src_hash = slice_of 40 72 bs, src_size = le_value (slice_of 72 80 bs)\<rparr>"

fun dec_infos :: "nat \<Rightarrow> bytes \<Rightarrow> ChunkInfo list" where
  "dec_infos 0 bs = []"
| "dec_infos (Suc n) bs = dec_info (take 80 bs) # dec_infos n (drop 80 bs)"

definition enc_child :: "nat option \<Rightarrow> bytes" where
  "enc_child c = (case c of None \<Rightarrow> [0] | Some l \<Rightarrow> 1 # le_bytes 8 l)"

definition dec_child :: "bytes \<Rightarrow> nat option" where
  "dec_child bs = (case bs of b # r \<Rightarrow> if b = 1 then Some (le_value r) else None | [] \<Rightarrow> None)"

definition enc_versioned :: "VersionedDataMap \<Rightarrow> bytes" where
  "enc_versioned v =
     [version v] @ le_bytes 8 (length (v_chunk_identifiers v))
       @ concat (map enc_info (v_chunk_identifiers v)) @ enc_child (v_child v)"

definition dec_versioned :: "bytes \<Rightarrow> VersionedDataMap" where
  "dec_versioned bs =
     (let n = le_value (slice_of 1 9 bs)
      in \<lparr>version = hd bs, v_chunk_identifiers = dec_infos n (drop 9 bs),
          v_child = dec_child (drop (9 + 80 * n) bs)\<rparr>)"

lemma le_value_le_bytes_8: "x < USIZE_LIMIT \<Longrightarrow> le_value (le_bytes 8 x) = x"
  by (simp add: le_value_le_bytes USIZE_LIMIT_def)

lemma length_enc_info: "wf_info i \<Longrightarrow> length (enc_info i) = 80"
  by (simp add: enc_info_def wf_info_def)

lemma dec_info_enc_info: "wf_info i \<Longrightarrow> dec_info (enc_info i) = i"
  by (simp add: enc_info_def dec_info_def wf_info_def slice_of_def le_value_le_bytes_8)

lemma length_enc_infos: "list_all wf_info is \<Longrightarrow> length (concat (map enc_info is)) = 80 * length is"
  by (induction "is") (auto simp: length_enc_info)

lemma dec_infos_enc_infos:
  "list_all wf_info is \<Longrightarrow> dec_infos (length is) (concat (map enc_info is) @ rest) = is"
  by (induction "is") (auto simp: length_enc_info dec_info_enc_info)

lemma dec_enc_versioned: "wf_versioned v \<Longrightarrow> dec_versioned (enc_versioned v) = v"
proof -
  assume wf: "wf_versioned v"
  let ?is = "v_chunk_identifiers v"
  have n: "le_value (slice_of 1 9 (enc_versioned v)) = length ?is"
    using wf by (simp add: enc_versioned_def slice_of_def wf_versioned_def le_value_le_bytes_8)
  have d9: "drop 9 (enc_versioned v) = concat (map enc_info ?is) @ enc_child (v_child v)"
    by (simp add: enc_versioned_def)
  have "drop (9 + 80 * length ?is) (enc_versioned v) = drop (80 * length ?is) (drop 9 (enc_versioned v))"
    by (simp add: add.commute)
  also have "\<dots> = enc_child (v_child v)"
    using wf unfolding d9 by (simp add: length_enc_infos wf_versioned_def)
  finally have "dec_child (drop (9 + 80 * length ?is) (enc_versioned v)) = v_child v"
    using wf by (auto simp: enc_child_def dec_child_def wf_versioned_def le_value_le_bytes_8
        split: option.splits)
  moreover have "dec_infos (length ?is) (drop 9 (enc_versioned v)) = ?is"
    using wf unfolding d9 by (simp add: dec_infos_enc_infos wf_versioned_def)
  moreover have "hd (enc_versioned v) = version v" by (simp add: enc_versioned_def)
  ultimately show ?thesis using n by (simp add: dec_versioned_def)
qed

section \<open>The environment\<close>

definition sample_env :: se_env where
  "sample_env =
     \<lparr>blake3_hash = (\<lambda>m. take 32 (m @ replicate 32 0)),
      blake3_derive_xof = (\<lambda>s m n. replicate n 0),
      chacha_encrypt = (\<lambda>k n m. Some m),
      chacha_decrypt = (\<lambda>k n c. Inr c),
      brotli_compress = (\<lambda>q m. Some m),
      brotli_decompress = (\<lambda>c. Some c),
      bincode_serialize = (\<lambda>v. if wf_versioned v then Inr (enc_versioned v) else Inl ''size''),
      bincode_deserialize = (\<lambda>b. Inr (dec_versioned b))\<rparr>"

lemma sample_env_laws [simp]: "se_laws sample_env"
  by (auto simp: se_laws_def sample_env_def dec_enc_versioned split: if_splits)

lemma sample_env_total [simp]: "se_total sample_env"
  by (auto simp: se_total_def sample_env_def)

lemma sample_env_size [simp]: "bincode_size sample_env"
  by (auto simp: bincode_size_def sample_env_def enc_versioned_def enc_child_def wf_versioned_def
      length_enc_infos split: if_splits option.splits)

end
