(* ===== verification/Self_Encryption_Properties.thy ===== *)
theory Self_Encryption_Properties
  imports Self_Encryption_Correct Sample_Env
begin

text \<open>
  The properties of in-memory self-encryption: what \<open>encrypt\<close> returns, that \<open>decrypt\<close> undoes it,
  byte-range decryption, and how far repeated shrinking of the data map goes.
\<close>

section \<open>Byte ranges\<close>

lemma filter_index_map_of_chunks:
  assumes "e < length ecs"
  shows "filter (\<lambda>info. s \<le> index info \<and> index info \<le> e) (infos (map_of_chunks C mcs data ecs)) =
         map (\<lambda>i. info_nth C mcs data i (ecs ! i)) [s..<Suc e]"
proof -
  have infos: "infos (map_of_chunks C mcs data ecs) =
      map (\<lambda>i. info_nth C mcs data i (ecs ! i)) [0..<length ecs]"
    by (rule nth_equalityI) (auto simp: nth_enumerate_eq)
  show ?thesis
    unfolding infos filter_map comp_def using filter_between_upt [OF assms, of s]
    by (simp add: info_nth_def del: upt_Suc)
qed

lemma decrypt_chunks_between:
  assumes "se_laws C" "0 < mcs" "encrypt_one_level C mcs data l = Inr (dm, ecs)" "s + k < length ecs"
  shows "traverse (\<lambda>(idx, c). decrypt_chunk C (s + idx) c (src_hashes C mcs data) l)
           (enumerate 0 (map ((!) ecs) [s..<Suc (s + k)])) =
         Inr (map (file_chunk mcs data) [s..<Suc (s + k)])"
proof -
  have dec: "decrypt_chunk C i (ecs ! i) (src_hashes C mcs data) l = Inr (file_chunk mcs data i)"
    if i: "i < length ecs" for i
    using one_level_nth_decrypts [OF assms(1-3) i] .
  have eq: "enumerate 0 (map ((!) ecs) [s..<Suc (s + k)]) = map (\<lambda>i. (i - s, ecs ! i)) [s..<Suc (s + k)]"
    by (rule nth_equalityI) (auto simp: nth_enumerate_eq simp del: upt_Suc)
  have "traverse (\<lambda>(idx, c). decrypt_chunk C (s + idx) c (src_hashes C mcs data) l)
      (enumerate 0 (map ((!) ecs) [s..<Suc (s + k)])) =
    Inr (map (\<lambda>(idx, c). file_chunk mcs data (s + idx)) (enumerate 0 (map ((!) ecs) [s..<Suc (s + k)])))"
    unfolding eq using assms(4) dec by (intro traverse_pure) auto
  also have "map (\<lambda>(idx, c). file_chunk mcs data (s + idx)) (enumerate 0 (map ((!) ecs) [s..<Suc (s + k)])) =
      map (file_chunk mcs data) [s..<Suc (s + k)]"
    unfolding eq by auto
  finally show ?thesis .
qed

lemma lookup_between:
  assumes "inj_on (content_hash C) (set chunks)" "set ecs \<subseteq> set chunks" "e < length ecs"
  shows "traverse (\<lambda>info. ok_or (err info) (chunk_map C chunks (dst_hash info)))
           (map (\<lambda>i. info_nth C mcs data i (ecs ! i)) [s..<Suc e]) = Inr (map ((!) ecs) [s..<Suc e])"
proof -
  have "chunk_map C chunks (content_hash C (ecs ! i)) = Some (ecs ! i)" if i: "i < length ecs" for i
    using assms i by (intro chunk_map_hit) auto
  then have "traverse (\<lambda>info. ok_or (err info) (chunk_map C chunks (dst_hash info)))
      (map (\<lambda>i. info_nth C mcs data i (ecs ! i)) [s..<Suc e]) =
      Inr (map ((!) ecs) [s..<Suc e])"
    using assms(3)
    by (auto simp: traverse_Inr_iff list_all2_conv_all_nth info_nth_def simp del: upt_Suc)
  then show ?thesis .
qed

lemma decrypt_range_ok:
  assumes "se_laws C" "0 < mcs" "encrypt_one_level C mcs data l = Inr (m, ecs)"
    and dm: "infos dm = infos m" "child_level_of dm = l"
    and "inj_on (content_hash C) (set chunks)" "set ecs \<subseteq> set chunks"
    and nov: "pos + len < USIZE_LIMIT"
  shows "decrypt_range C mcs dm chunks pos len = Inr (slice_of pos (pos + len) data)"
proof (rule one_level_okE [OF assms(3,2)])
  assume data: "3 \<le> length data" and m: "m = map_of_chunks C mcs data ecs"
    and n: "length ecs = get_num_chunks mcs (length data)"
  let ?fs = "length data"
  let ?s = "get_chunk_index mcs ?fs pos" and ?q = "min (pos + len) ?fs"
  let ?e = "get_chunk_index mcs ?fs ?q"
  let ?a = "chunk_start mcs ?fs ?s" and ?b = "chunk_end mcs ?fs ?e"
  have fs: "original_file_size dm = ?fs"
    using original_file_size_map_of_chunks [OF assms(2) data n] dm(1) m
    by (simp add: original_file_size_def infos_def)
  have hs: "extract_hashes dm = src_hashes C mcs data"
    using extract_hashes_map_of_chunks [OF n] dm(1) m by simp
  have s: "?s < length ecs" "?a \<le> pos"
    using range_chunks(1,2) [OF assms(2) data, of pos] n by simp_all
  have e: "?s \<le> ?e" "?e < length ecs"
    using range_chunks_order [OF assms(2) data] range_chunks(1) [OF assms(2) data] n by simp_all
  have q: "?q \<le> ?b"
    using range_chunks(3) [OF assms(2) data, of ?q] by simp
  obtain k where k: "?e = ?s + k" using e(1) le_Suc_ex by blast
  have sel: "filter (\<lambda>info. ?s \<le> index info \<and> index info \<le> ?e) (infos dm) =
      map (\<lambda>i. info_nth C mcs data i (ecs ! i)) [?s..<Suc ?e]"
    using filter_index_map_of_chunks [OF e(2)] dm(1) m by simp
  have bytes: "concat (map (file_chunk mcs data) [?s..<Suc ?e]) =
      slice_of (chunk_start mcs ?fs ?s) (chunk_end mcs ?fs ?e) data"
    using concat_chunks_between [OF assms(2) data, of ?s k] e(2) n k by simp
  have start: "get_start_position mcs ?fs ?s = chunk_start mcs ?fs ?s"
    using assms(2) data s(1) n by (simp add: start_position chunk_start_eq(1))
  have end_le: "chunk_end mcs ?fs ?e \<le> ?fs" using chunk_in_file(2) [OF assms(2) data] e(2) n by simp
  have window: "slice_of (pos - ?a) (pos - ?a + min len (?b - ?a - (pos - ?a))) (slice_of ?a ?b data) =
      slice_of pos (pos + len) data"
    using s(2) q end_le by (rule slice_of_window)
  have empty: "slice_of pos (pos + len) data = []" if "length (slice_of ?a ?b data) \<le> pos - ?a"
    using that s(2) q end_le by (cases "len = 0") (auto simp: slice_of_def)
  have dec: "traverse (\<lambda>(idx, c). decrypt_chunk C (?s + idx) c (src_hashes C mcs data) l)
      (enumerate 0 (map ((!) ecs) [?s..<Suc ?e])) = Inr (map (file_chunk mcs data) [?s..<Suc ?e])"
    using decrypt_chunks_between [OF assms(1-3), of ?s k] e(2) unfolding k by simp
  show ?thesis
    unfolding decrypt_range_def Let_def fs hs dm(2) sel lookup_between [OF assms(6,7) e(2)]
    using nov s(2) window empty end_le
    by (simp add: dec bytes start del: upt_Suc)
qed

section \<open>Self-encryption in the sample environment\<close>

definition sample_map :: "nat \<Rightarrow> bytes \<Rightarrow> DataMap" where
  "sample_map mcs data = map_of_chunks sample_env mcs data (file_chunks mcs data)"

definition sample_bytes :: "DataMap \<Rightarrow> bytes" where
  "sample_bytes m = enc_versioned (serialize_versioned m)"

definition zero_map :: DataMap where
  "zero_map = \<lparr>chunk_identifiers = map (\<lambda>i. \<lparr>index = i, dst_hash = replicate 32 0,
       src_hash = replicate 32 0, src_size = 160\<rparr>) [0..<6], child = None\<rparr>"

lemma xor_pad_zero: "xor_pad data (replicate 52 0) = data"
  by (rule nth_equalityI) (simp_all add: xor_pad_nth)

lemma sample_encrypt_nth:
  assumes "i < get_num_chunks mcs (length data)" "3 \<le> get_num_chunks mcs (length data)"
  shows "encrypt_nth sample_env mcs data l i = Inr (file_chunk mcs data i)"
proof -
  obtain p where p: "get_pad_key_and_nonce sample_env i (src_hashes sample_env mcs data) l = Inr p"
    using get_pad_key_and_nonce_total [of "src_hashes sample_env mcs data" i sample_env l] assms
    by (auto simp: is_ok_iff)
  then have "fst p = replicate 52 0"
    by (auto simp: get_pad_key_and_nonce_def result_simps get_pki_def sample_env_def slice_of_def
        PAD_SIZE_def KEY_SIZE_def NONCE_SIZE_def HASH_SIZE_def split: prod.splits)
  with p show ?thesis
    by (cases p) (simp add: encrypt_nth_def encrypt_chunk_def cipher_encrypt_def xor_pad_zero sample_env_def)
qed

lemma sample_one_level:
  assumes "0 < mcs" "3 \<le> length data"
  shows "encrypt_one_level sample_env mcs data l = Inr (sample_map mcs data, file_chunks mcs data)"
proof -
  have n: "3 \<le> get_num_chunks mcs (length data)" using assms by (rule num_chunks_ge_3)
  then have "traverse (encrypt_nth sample_env mcs data l) [0..<get_num_chunks mcs (length data)] =
      Inr (file_chunks mcs data)"
    unfolding file_chunks_def by (intro traverse_pure) (simp add: sample_encrypt_nth)
  then show ?thesis
    using one_level_ok_iff [OF n] by (simp add: encrypt_one_level_eq [OF assms] sample_map_def)
qed

lemma sample_to_bytes:
  assumes "0 < mcs" "3 \<le> length data" "length data < USIZE_LIMIT"
  shows "to_bytes (bincode_serialize sample_env) (sample_map mcs data) =
         Inr (sample_bytes (sample_map mcs data))"
  using wf_map_of_chunks [OF sample_env_laws assms] 
  by (simp add: to_bytes_def sample_bytes_def sample_map_def sample_env_def)

lemma sample_map_len [simp]: "DataMap_len (sample_map mcs data) = get_num_chunks mcs (length data)"
  "child (sample_map mcs data) = None"
  by (simp_all add: sample_map_def)

lemma zero_chunk:
  assumes "i < 6"
  shows "file_chunk 160 (replicate 960 (0::byte)) i = replicate 160 0"
    and "chunk_end 160 960 i - chunk_start 160 960 i = 160"
proof -
  have n: "get_num_chunks 160 960 = 6" by (simp add: chunking_defs)
  then have sz: "get_chunk_size 160 960 i = 160"
    using assms by (simp add: large_file_size last_size_def)
  then show "chunk_end 160 960 i - chunk_start 160 960 i = 160"
    using assms n by (simp add: chunk_start_eq(2))
  have "length (file_chunk 160 (replicate 960 (0::byte)) i) = 160"
    using length_file_chunk [of 160 "replicate 960 (0::byte)" i] assms n sz by simp
  then show "file_chunk 160 (replicate 960 (0::byte)) i = replicate 160 0"
    by (auto simp: replicate_length_same [symmetric] file_chunk_eq slice_of_def in_set_replicate)
qed

lemma zero_chunks: "file_chunks 160 (replicate 960 (0::byte)) = replicate 6 (replicate 160 0)"
  by (rule nth_equalityI) (simp_all add: file_chunks_def zero_chunk(1) chunking_defs)

lemma sample_zero_map: "sample_map 160 (replicate 960 0) = zero_map"
proof -
  have "info_nth sample_env 160 (replicate 960 0) i (replicate 160 0) =
      \<lparr>index = i, dst_hash = replicate 32 0, src_hash = replicate 32 0, src_size = 160\<rparr>" if i: "i < 6" for i
    using zero_chunk [OF i] by (simp add: info_nth_def content_hash_def sample_env_def)
  then show ?thesis
    unfolding sample_map_def zero_map_def map_of_chunks_def zero_chunks
    by (auto intro!: nth_equalityI simp: nth_enumerate_eq)
qed

text \<open>The 960 zero bytes need six chunks, their data map four and its data map three.\<close>

lemma zero_levels: "length (sample_bytes zero_map) = 490"
  by code_simp

lemma length_sample_bytes:
  assumes "0 < mcs" "3 \<le> length data" "length data < USIZE_LIMIT"
  shows "length (sample_bytes (sample_map mcs data)) = 10 + 80 * get_num_chunks mcs (length data)"
  using wf_map_of_chunks [OF sample_env_laws assms, of "file_chunks mcs data"]
  by (simp add: sample_bytes_def sample_map_def enc_versioned_def length_enc_infos wf_versioned_def
      serialize_versioned_def enc_child_def map_of_chunks_def del: map_map)

definition zero_bytes1 :: bytes where
  "zero_bytes1 = sample_bytes zero_map"

definition zero_bytes2 :: bytes where
  "zero_bytes2 = sample_bytes (sample_map 160 zero_bytes1)"

lemma zero_hashes_distinct:
  "distinct (map (content_hash sample_env)
     (replicate 160 0 # file_chunks 160 zero_bytes1 @ file_chunks 160 zero_bytes2))"
  by code_simp

lemma encrypt_zeros:
  "\<exists>dm. encrypt sample_env 160 14 (replicate 960 0) =
     Some (Inr (dm, replicate 6 (replicate 160 0) @ file_chunks 160 zero_bytes1 @ file_chunks 160 zero_bytes2))"
proof -
  have l1: "length zero_bytes1 = 490" by (simp add: zero_bytes1_def zero_levels)
  have n: "get_num_chunks 160 960 = 6" "get_num_chunks 160 490 = 4" "get_num_chunks 160 330 = 3"
    by (simp_all add: chunking_defs)
  have l2: "length zero_bytes2 = 330"
    using length_sample_bytes [of 160 zero_bytes1] by (simp add: zero_bytes2_def l1 n USIZE_LIMIT_def)
  have lv: "encrypt_one_level sample_env 160 (replicate 960 0) 0 = Inr (zero_map, replicate 6 (replicate 160 0))"
    "encrypt_one_level sample_env 160 zero_bytes1 l = Inr (sample_map 160 zero_bytes1, file_chunks 160 zero_bytes1)"
    "encrypt_one_level sample_env 160 zero_bytes2 l = Inr (sample_map 160 zero_bytes2, file_chunks 160 zero_bytes2)" for l
    using sample_one_level [of 160 "replicate 960 0" 0] sample_one_level [of 160 zero_bytes1 l]
      sample_one_level [of 160 zero_bytes2 l] by (simp_all add: l1 l2 sample_zero_map zero_chunks)
  have tb: "to_bytes (bincode_serialize sample_env) zero_map = Inr zero_bytes1"
    "to_bytes (bincode_serialize sample_env) (sample_map 160 zero_bytes1) = Inr zero_bytes2"
    using sample_to_bytes [of 160 "replicate 960 0"] sample_to_bytes [of 160 zero_bytes1]
    by (simp_all add: l1 sample_zero_map USIZE_LIMIT_def zero_bytes1_def [symmetric] zero_bytes2_def [symmetric])
  have zm: "DataMap_len zero_map = 6" "child zero_map = None"
    using sample_map_len [of 160 "replicate 960 0"] by (simp_all add: sample_zero_map n)
  have "\<exists>dm. encrypt_with_child_level sample_env 160 (Suc (Suc (Suc (Suc (Suc (Suc f)))))) (replicate 960 0) 0 =
     Some (Inr (dm, replicate 6 (replicate 160 0) @ file_chunks 160 zero_bytes1 @ file_chunks 160 zero_bytes2))" for f
    by (simp add: lv tb zm l1 l2 n next_child_level_def del: replicate.simps)
  from this [of 8] show ?thesis by (simp add: encrypt_def)
qed

section \<open>Properties\<close>

text \<open>
  C2: for data of at least three bytes the recursion of encryption and shrinking ends, and
  decryption undoes encryption. With cryptographic primitives that do not fail, fuel of twice
  the number of chunks plus two is enough for \<open>encrypt\<close> to return a data map of at most three
  chunks; given that map and the returned chunks, \<open>decrypt\<close> returns the data, as long as the
  content hash does not collide on the chunks and the data map itself fits in three chunks.
\<close>

theorem encrypt_decrypt_round_trip:
  assumes "se_laws C" "se_total C" "bincode_size C" "160 \<le> mcs"
    and "3 \<le> length data" "length data < USIZE_LIMIT"
    and "18 + 80 * get_num_chunks mcs (length data) < 3 * mcs"
    and "2 * get_num_chunks mcs (length data) + 2 \<le> fuel"
  shows "\<exists>dm chunks. encrypt C mcs fuel data = Some (Inr (dm, chunks)) \<and> DataMap_len dm \<le> 3 \<and>
           (inj_on (content_hash C) (set chunks) \<longrightarrow> decrypt C dm chunks = Inr data)"
proof -
  obtain dm chunks where e: "encrypt C mcs fuel data = Some (Inr (dm, chunks))"
    using encrypt_enough_fuel [OF assms(1-6,8), of 0] by (auto simp: encrypt_def)
  moreover have "DataMap_len dm \<le> 3" using e encrypt_level_len by (simp add: encrypt_def)
  moreover have "0 < mcs" using assms(4) by simp
  ultimately show ?thesis using encrypt_decrypt [OF assms(1,3) _ assms(7)] by blast
qed

lemma sample_encrypt:
  "encrypt sample_env 160 8 [1, 2, 3] =
     Some (Inr (\<lparr>chunk_identifiers = map (\<lambda>i. \<lparr>index = i, dst_hash = word_of_nat (i + 1) # replicate 31 0,
                     src_hash = word_of_nat (i + 1) # replicate 31 0, src_size = 1\<rparr>) [0, 1, 2],
                 child = None\<rparr>, [[1], [2], [3]]))"
  by code_simp

lemma encrypt_decrypt_round_trip_witness:
  "\<exists>dm. encrypt sample_env 160 8 [1, 2, 3] = Some (Inr (dm, [[1], [2], [3]])) \<and>
        decrypt sample_env dm [[1], [2], [3]] = Inr [1, 2, 3]"
proof -
  have "inj_on (content_hash sample_env) (set [[1], [2], [3]])"
    by (simp add: content_hash_def sample_env_def)
  then show ?thesis
    using encrypt_decrypt_round_trip [of sample_env 160 "[1, 2, 3]" 8] sample_encrypt
    by (auto simp: chunking_defs USIZE_LIMIT_def)
qed

text \<open>
  Decryption with an incomplete set of chunks fails and says which chunk is missing. For a
  root data map, if some chunk of the map has a hash that no supplied chunk has, \<open>decrypt\<close>
  returns the error \<open>MissingChunk\<close> with the hash of such a chunk.
\<close>

theorem decrypt_missing_chunk:
  assumes "\<not> is_child dm" "info \<in> set (infos dm)" "dst_hash info \<notin> content_hash C ` set chunks"
  shows "\<exists>i \<in> set (infos dm). dst_hash i \<notin> content_hash C ` set chunks \<and>
           decrypt C dm chunks = Inl (Generic (MissingChunk (dst_hash i)))"
  using root_lookup_missing [OF assms(2,3)] assms(1) by (auto simp: decrypt_def)

lemma decrypt_missing_chunk_witness:
  "\<exists>i \<in> set (infos zero_map).
     decrypt sample_env zero_map [] = Inl (Generic (MissingChunk (dst_hash i)))"
proof -
  have "\<not> is_child zero_map" "infos zero_map ! 0 \<in> set (infos zero_map)"
    by (simp add: is_child_def zero_map_def) (rule nth_mem, simp add: infos_def zero_map_def)
  from decrypt_missing_chunk [OF this, of sample_env "[]"] show ?thesis by auto
qed

text \<open>
  The two loops of \<open>encrypt_with_child_level\<close>, which encrypt the chunks from the third on
  with a growing list of hashes and insert the first two at the end, compute the specification
  \<open>one_level_spec\<close>: each chunk is encrypted with the key derived from the complete list of
  source hashes, and the data map lists the chunks in index order with their hashes and sizes.
\<close>

theorem encrypt_one_level_refines_spec:
  assumes "0 < mcs" "3 \<le> length data"
  shows "encrypt_one_level C mcs data l = one_level_spec C mcs data l"
  using assms by (rule encrypt_one_level_eq)

lemma encrypt_one_level_refines_spec_witness:
  "encrypt_one_level sample_env 1 [5, 6, 7, 8] 0 = one_level_spec sample_env 1 [5, 6, 7, 8] 0"
  using encrypt_one_level_refines_spec [of 1 "[5, 6, 7, 8]"] by simp

text \<open>
  The keys of a chunk come from the chunk itself and its two cyclic predecessors: for a file
  of at least three chunks \<open>get_n_1_n_2\<close> returns the indices one and two positions before the
  chunk, counted modulo the number of chunks, and it fails exactly for fewer than three chunks
  or an index outside the file.
\<close>

theorem get_n_1_n_2_cyclic:
  "get_n_1_n_2 i n =
     (if n < 3 then Inl (Generic (TotalNumChunksTooSmall n))
      else if n \<le> i then Inl (Generic (ChunkIndexOutOfBounds i n))
      else Inr ((i + n - 1) mod n, (i + n - 2) mod n))"
proof (cases "3 \<le> n \<and> 2 \<le> i \<and> i < n")
  case True
  then have "i + n - 1 = (i - 1) + n" "i + n - 2 = (i - 2) + n" by auto
  moreover have "(i - 1 + n) mod n = i - 1" "(i - 2 + n) mod n = i - 2"
    using True by (simp_all only: mod_add_self2) (rule mod_less, linarith)+
  ultimately show ?thesis using True by (simp add: get_n_1_n_2_def)
next
  case False
  then consider "n < 3" | "n \<le> i" | "3 \<le> n" "i = 0" | "3 \<le> n" "i = 1" by linarith
  then show ?thesis by cases (auto simp: get_n_1_n_2_def)
qed

text \<open>
  \<open>decrypt_range\<close> returns exactly the requested bytes: for every position and length whose
  sum is a machine integer, also beyond the end of the file, the result is the slice of the
  original data that \<open>decrypt\<close> would return.
\<close>

theorem decrypt_range_is_slice:
  assumes "se_laws C" "0 < mcs" "encrypt_one_level C mcs data 0 = Inr (dm, ecs)"
    and "inj_on (content_hash C) (set chunks)" "set ecs \<subseteq> set chunks"
    and "pos + len < USIZE_LIMIT"
  shows "decrypt_range C mcs dm chunks pos len = Inr (slice_of pos (pos + len) data)"
proof (rule one_level_okE [OF assms(3,2)])
  assume "dm = map_of_chunks C mcs data ecs"
  then show ?thesis
    using decrypt_range_ok [OF assms(1-3) refl _ assms(4-6)] by (simp add: child_level_of_def)
qed

lemma decrypt_range_is_slice_witness:
  "\<exists>dm ecs. encrypt_one_level sample_env 2 [10, 20, 30, 40, 50, 60, 70] 0 = Inr (dm, ecs) \<and>
            decrypt_range sample_env 2 dm ecs 1 4 = Inr [20, 30, 40, 50]"
proof -
  let ?d = "[10, 20, 30, 40, 50, 60, 70] :: bytes"
  have e: "encrypt_one_level sample_env 2 ?d 0 = Inr (sample_map 2 ?d, file_chunks 2 ?d)"
    by (rule sample_one_level) simp_all
  have c: "file_chunks 2 ?d = [[10, 20], [30, 40], [50, 60], [70]]" by code_simp
  have "inj_on (content_hash sample_env) (set (file_chunks 2 ?d))"
    unfolding c by (simp add: content_hash_def sample_env_def)
  then show ?thesis
    using decrypt_range_is_slice [OF sample_env_laws _ e _ order.refl, of 1 4] e
    by (auto simp: USIZE_LIMIT_def slice_of_def)
qed

text \<open>
  C29: a data map is shrunk at most once without loss. When the serialised data map itself does
  not fit in three chunks, the nested call of \<open>encrypt_with_child_level\<close> shrinks its own map
  starting again from \<open>child = None\<close>: the returned map has level 1, and \<open>get_root_data_map\<close>
  resolves it to an intermediate map, which describes fewer bytes than the data.
\<close>

theorem shrinking_twice_loses_root:
  assumes "se_laws C" "bincode_size C" "160 \<le> mcs"
    and "encrypt C mcs fuel data = Some (Inr (dm, chunks))"
    and "3 * mcs \<le> 9 + 80 * get_num_chunks mcs (length data)"
    and "inj_on (content_hash C) (set chunks)"
  shows "\<exists>root. get_root_data_map C (lookup_chunk C chunks) () dm = Inr root \<and>
                original_file_size root < length data"
proof -
  have n: "3 < get_num_chunks mcs (length data)" using assms(3,5) by linarith
  obtain data' m' ecs1 where "last_round C mcs data' m' dm ecs1 chunks" "child dm = Some 1"
    "length data' < length data"
    using encrypt_last_round [OF assms(4) [unfolded encrypt_def] assms(2,3) n] assms(5) by auto
  then show ?thesis
    using last_round_root [OF assms(1) _ _ _ assms(6), of mcs data' m' dm ecs1] assms(3) by simp
qed

lemma shrinking_twice_loses_root_witness:
  "\<exists>dm chunks root. encrypt sample_env 160 14 (replicate 960 0) = Some (Inr (dm, chunks)) \<and>
     get_root_data_map sample_env (lookup_chunk sample_env chunks) () dm = Inr root \<and>
     original_file_size root < 960"
proof -
  obtain dm where e: "encrypt sample_env 160 14 (replicate 960 0) =
     Some (Inr (dm, replicate 6 (replicate 160 0) @ file_chunks 160 zero_bytes1 @ file_chunks 160 zero_bytes2))"
    using encrypt_zeros by blast
  have "inj_on (content_hash sample_env)
      (set (replicate 160 0 # file_chunks 160 zero_bytes1 @ file_chunks 160 zero_bytes2))"
    using zero_hashes_distinct unfolding distinct_map by blast
  moreover have "set (replicate 6 (replicate 160 0) @ file_chunks 160 zero_bytes1 @ file_chunks 160 zero_bytes2) =
      set (replicate 160 0 # file_chunks 160 zero_bytes1 @ file_chunks 160 zero_bytes2)"
    by auto
  ultimately show ?thesis
    using shrinking_twice_loses_root [OF _ _ _ e] e by (auto simp: chunking_defs)
qed

end
