(* ===== verification/Stream_Decrypt.thy ===== *)
theory Stream_Decrypt
  imports Self_Encryption_Properties
begin

text \<open>
  Streaming decryption: \<open>src/self_encryption/src/stream_decrypt.rs\<close> and
  \<open>get_root_data_map_parallel\<close> of \<open>lib.rs\<close>.

  The closure \<open>get_chunk_parallel\<close> is the argument \<open>get\<close> of the operations, a function from the
  requested pairs of index and hash to the fetched pairs of index and content. The batch size
  \<open>STREAM_DECRYPT_BATCH_SIZE\<close> is the argument \<open>batch\<close>. An operation with \<open>&mut self\<close> returns its
  result together with the new stream; an error in the middle of a batch leaves the part of the
  batch that was decrypted.
\<close>

section \<open>The root map\<close>

type_synonym chunk_getter = "(nat \<times> xorname) list \<Rightarrow> (nat \<times> bytes) list se_result"

definition missing_hashes :: "(xorname \<rightharpoonup> bytes) \<Rightarrow> DataMap \<Rightarrow> (nat \<times> xorname) list" where
  "missing_hashes cache dm =
     filter (\<lambda>(i, h). cache h = None) (map (\<lambda>info. (index info, dst_hash info)) (infos dm))"

definition cache_insert_all ::
  "(nat \<times> xorname) list \<Rightarrow> (nat \<times> bytes) list \<Rightarrow> (xorname \<rightharpoonup> bytes) \<Rightarrow> (xorname \<rightharpoonup> bytes)" where
  "cache_insert_all missing new_chunks cache =
     fold (\<lambda>((i, h), (j, chunk_data)) c. c(h \<mapsto> chunk_data)) (zip missing new_chunks) cache"

function inner_get_root_map_parallel ::
  "se_env \<Rightarrow> chunk_getter \<Rightarrow> (xorname \<rightharpoonup> bytes) \<Rightarrow> DataMap \<Rightarrow> nat \<Rightarrow> DataMap se_result" where
  "inner_get_root_map_parallel C get cache dm depth =
     (if 100 < depth then Inl (Generic MaxRecursionDepth)
      else if \<not> is_child dm then Inr dm
      else
        try_bind
          (if missing_hashes cache dm = [] then Inr cache
           else try_bind (get (missing_hashes cache dm)) (\<lambda>new_chunks.
                  Inr (cache_insert_all (missing_hashes cache dm) new_chunks cache)))
          (\<lambda>cache'.
             try_bind
               (traverse (\<lambda>info. ok_or (Generic (ChunkNotFound (dst_hash info))) (cache' (dst_hash info)))
                  (infos dm))
               (\<lambda>encrypted_chunks.
                  try_bind (decrypt_full_set C dm encrypted_chunks) (\<lambda>decrypted_bytes.
                  try_bind (map_err (\<lambda>e. Generic (DeserializeDataMapFailed e))
                              (from_bytes (bincode_deserialize C) decrypted_bytes)) (\<lambda>parent_data_map.
                  inner_get_root_map_parallel C get cache' parent_data_map (depth + 1))))))"
  by pat_completeness auto
termination
  by (relation "measure (\<lambda>(C, get, cache, dm, depth). 101 - depth)") auto

declare inner_get_root_map_parallel.simps [simp del]

definition get_root_data_map_parallel :: "se_env \<Rightarrow> chunk_getter \<Rightarrow> DataMap \<Rightarrow> DataMap se_result" where
  "get_root_data_map_parallel C get dm = inner_get_root_map_parallel C get Map.empty dm 0"

section \<open>The stream\<close>

record DecryptionStream =
  chunk_infos :: "ChunkInfo list"
  ds_src_hashes :: "xorname list"
  child_level :: nat
  get_chunk_parallel :: chunk_getter
  current_batch_start :: nat
  current_batch_chunks :: "bytes list"
  current_batch_index :: nat

definition DecryptionStream_new :: "se_env \<Rightarrow> DataMap \<Rightarrow> chunk_getter \<Rightarrow> DecryptionStream se_result" where
  "DecryptionStream_new C dm get =
     try_bind (if is_child dm then get_root_data_map_parallel C get dm else Inr dm) (\<lambda>root_map.
     Inr \<lparr>chunk_infos = sort_key index (infos root_map),
          ds_src_hashes = extract_hashes root_map,
          child_level = child_level_of root_map,
          get_chunk_parallel = get,
          current_batch_start = 0,
          current_batch_chunks = [],
          current_batch_index = 0\<rparr>)"

definition streaming_decrypt :: "se_env \<Rightarrow> DataMap \<Rightarrow> chunk_getter \<Rightarrow> DecryptionStream se_result" where
  "streaming_decrypt C dm get = DecryptionStream_new C dm get"

text \<open>The loop over a batch: the decrypted chunks so far, and the error that stopped it.\<close>

fun decrypt_batch ::
  "se_env \<Rightarrow> xorname list \<Rightarrow> nat \<Rightarrow> (ChunkInfo \<times> nat \<times> bytes) list \<Rightarrow> bytes list
     \<Rightarrow> bytes list \<times> se_error option" where
  "decrypt_batch C hashes level [] acc = (acc, None)"
| "decrypt_batch C hashes level ((info, i, encrypted_content) # rest) acc =
     (case decrypt_chunk C (index info) encrypted_content hashes level of
        Inl e \<Rightarrow> (acc, Some e)
      | Inr d \<Rightarrow> decrypt_batch C hashes level rest (acc @ [d]))"

definition fetch_next_batch ::
  "se_env \<Rightarrow> nat \<Rightarrow> DecryptionStream \<Rightarrow> bool se_result \<times> DecryptionStream" where
  "fetch_next_batch C batch ds =
     (if length (chunk_infos ds) \<le> current_batch_start ds then (Inr False, ds)
      else
        (let batch_end = min (current_batch_start ds + batch) (length (chunk_infos ds));
             batch_infos = slice_of (current_batch_start ds) batch_end (chunk_infos ds);
             batch_hashes = map (\<lambda>info. (index info, dst_hash info)) batch_infos
         in case get_chunk_parallel ds batch_hashes of
              Inl e \<Rightarrow> (Inl e, ds)
            | Inr fetched \<Rightarrow>
                (let (chunks, err) =
                       decrypt_batch C (ds_src_hashes ds) (child_level ds)
                         (zip batch_infos (sort_key fst fetched)) []
                 in case err of
                      Some e \<Rightarrow> (Inl e, ds\<lparr>current_batch_chunks := chunks\<rparr>)
                    | None \<Rightarrow>
                        (Inr True,
                         ds\<lparr>current_batch_chunks := chunks, current_batch_start := batch_end,
                            current_batch_index := 0\<rparr>))))"

definition yield_current :: "DecryptionStream \<Rightarrow> bytes se_result option \<times> DecryptionStream" where
  "yield_current ds =
     (case nth_opt (current_batch_chunks ds) (current_batch_index ds) of
        Some chunk \<Rightarrow> (Some (Inr chunk), ds\<lparr>current_batch_index := current_batch_index ds + 1\<rparr>)
      | None \<Rightarrow> (None, ds))"

definition ds_next ::
  "se_env \<Rightarrow> nat \<Rightarrow> DecryptionStream \<Rightarrow> bytes se_result option \<times> DecryptionStream" where
  "ds_next C batch ds =
     (if length (current_batch_chunks ds) \<le> current_batch_index ds
      then (case fetch_next_batch C batch ds of
              (Inr has_more, ds') \<Rightarrow> if has_more then yield_current ds' else (None, ds')
            | (Inl e, ds') \<Rightarrow> (Some (Inl e), ds'))
      else yield_current ds)"

section \<open>Random access\<close>

definition file_size :: "DecryptionStream \<Rightarrow> nat" where
  "file_size ds = fold (\<lambda>chunk acc. acc + src_size chunk) (chunk_infos ds) 0"

definition get_chunk_start_position :: "DecryptionStream \<Rightarrow> nat \<Rightarrow> nat" where
  "get_chunk_start_position ds chunk_index =
     fold (\<lambda>chunk acc. acc + src_size chunk)
       (filter (\<lambda>info. index info < chunk_index) (chunk_infos ds)) 0"

fun find_chunk_index :: "ChunkInfo list \<Rightarrow> nat \<Rightarrow> nat \<Rightarrow> nat option" where
  "find_chunk_index [] position accumulated_size = None"
| "find_chunk_index (info # rest) position accumulated_size =
     (if accumulated_size \<le> position \<and> position < accumulated_size + src_size info
      then Some (index info)
      else find_chunk_index rest position (accumulated_size + src_size info))"

definition get_chunk_index_from_infos :: "DecryptionStream \<Rightarrow> nat \<Rightarrow> nat" where
  "get_chunk_index_from_infos ds position =
     (case find_chunk_index (chunk_infos ds) position 0 of
        Some i \<Rightarrow> i
      | None \<Rightarrow> (if chunk_infos ds = [] then 0 else index (last (chunk_infos ds))))"

text \<open>The chunks that were not fetched are skipped, as in the code.\<close>

definition decrypt_present ::
  "se_env \<Rightarrow> xorname list \<Rightarrow> nat \<Rightarrow> (nat \<rightharpoonup> bytes) \<Rightarrow> nat list \<Rightarrow> bytes se_result" where
  "decrypt_present C hashes level chunks idxs =
     try_bind
       (traverse (\<lambda>i. case chunks i of
                        Some encrypted_content \<Rightarrow> decrypt_chunk C i encrypted_content hashes level
                      | None \<Rightarrow> Inr [])
          idxs)
       (\<lambda>parts. Inr (concat parts))"

definition get_range :: "se_env \<Rightarrow> DecryptionStream \<Rightarrow> nat \<Rightarrow> nat \<Rightarrow> bytes se_result" where
  "get_range C ds start len =
     (if file_size ds \<le> start then Inr []
      else if USIZE_LIMIT \<le> start + len then Inl ArithmeticOverflow
      else
        (let end_pos = min (start + len) (file_size ds);
             actual_len = end_pos - start
         in if actual_len = 0 then Inr []
            else
              (let start_chunk = get_chunk_index_from_infos ds start;
                   end_chunk = get_chunk_index_from_infos ds (end_pos - 1);
                   required_hashes =
                     sort_key fst
                       (map (\<lambda>info. (index info, dst_hash info))
                          (filter (\<lambda>info. start_chunk \<le> index info \<and> index info \<le> end_chunk)
                             (chunk_infos ds)))
               in try_bind (get_chunk_parallel ds required_hashes) (\<lambda>fetched_chunks.
                  try_bind
                    (decrypt_present C (ds_src_hashes ds) (child_level ds) (hash_map_of fetched_chunks)
                       [start_chunk..<Suc end_chunk])
                    (\<lambda>bs.
                       (let start_chunk_pos = get_chunk_start_position ds start_chunk
                        in if start < start_chunk_pos then Inl ArithmeticOverflow
                           else
                             (let internal_offset = start - start_chunk_pos
                              in if length bs \<le> internal_offset then Inr []
                                 else
                                   (let range_len = min actual_len (length bs - internal_offset)
                                    in Inr (slice_of internal_offset (internal_offset + range_len) bs)))))))))"

definition ds_range :: "se_env \<Rightarrow> DecryptionStream \<Rightarrow> nat \<Rightarrow> nat \<Rightarrow> bytes se_result" where
  "ds_range C ds range_start range_end = get_range C ds range_start (range_end - range_start)"

definition range_from :: "se_env \<Rightarrow> DecryptionStream \<Rightarrow> nat \<Rightarrow> bytes se_result" where
  "range_from C ds start = get_range C ds start (file_size ds - start)"

definition range_to :: "se_env \<Rightarrow> DecryptionStream \<Rightarrow> nat \<Rightarrow> bytes se_result" where
  "range_to C ds stop = get_range C ds 0 stop"

definition range_full :: "se_env \<Rightarrow> DecryptionStream \<Rightarrow> bytes se_result" where
  "range_full C ds = get_range C ds 0 (file_size ds)"

definition range_inclusive :: "se_env \<Rightarrow> DecryptionStream \<Rightarrow> nat \<Rightarrow> nat \<Rightarrow> bytes se_result" where
  "range_inclusive C ds start stop =
     (if USIZE_LIMIT \<le> (stop - start) + 1 then Inl ArithmeticOverflow
      else get_range C ds start (stop - start + 1))"

end
