(* ===== verification/Stream_Decrypt_Correct.thy ===== *)
theory Stream_Decrypt_Correct
  imports Stream_Decrypt "HOL-Library.Multiset"
begin

text \<open>
  Correctness of streaming decryption. A stream over the data map of some data yields the chunks
  of the data in order, whatever the batch size and in whatever order the closure returns the
  chunks of a batch; random access returns the requested slice.
\<close>

section \<open>Streams over a data map\<close>

text \<open>
  \<open>serves\<close>: asked for chunks of the data map, the closure returns them all, in any order.
\<close>

definition serves :: "se_env \<Rightarrow> bytes list \<Rightarrow> chunk_getter \<Rightarrow> bool" where
  "serves C ecs get \<longleftrightarrow>
     (\<forall>is. (\<forall>i \<in> set is. i < length ecs) \<longrightarrow>
        (\<exists>rs. get (map (\<lambda>i. (i, content_hash C (ecs ! i))) is) = Inr rs \<and>
              mset rs = mset (map (\<lambda>i. (i, ecs ! i)) is)))"

definition stream_over ::
  "se_env \<Rightarrow> nat \<Rightarrow> bytes \<Rightarrow> nat \<Rightarrow> bytes list \<Rightarrow> DecryptionStream \<Rightarrow> bool" where
  "stream_over C mcs data l ecs ds \<longleftrightarrow>
     chunk_infos ds = map (\<lambda>i. info_nth C mcs data i (ecs ! i)) [0..<length ecs] \<and>
     ds_src_hashes ds = src_hashes C mcs data \<and> child_level ds = l \<and>
     length ecs = get_num_chunks mcs (length data) \<and> 3 \<le> length data \<and>
     (\<forall>i < length ecs. decrypt_chunk C i (ecs ! i) (src_hashes C mcs data) l = Inr (file_chunk mcs data i)) \<and>
     serves C ecs (get_chunk_parallel ds)"

lemma infos_map_of_chunks_upt:
  "infos (map_of_chunks C mcs data ecs) = map (\<lambda>i. info_nth C mcs data i (ecs ! i)) [0..<length ecs]"
  by (rule nth_equalityI) (auto simp: nth_enumerate_eq)

lemma info_nth_simps [simp]:
  "index (info_nth C mcs data i e) = i"
  "dst_hash (info_nth C mcs data i e) = content_hash C e"
  "src_size (info_nth C mcs data i e) = chunk_end mcs (length data) i - chunk_start mcs (length data) i"
  by (simp_all add: info_nth_def)

lemma slice_map_upt: "b \<le> n \<Longrightarrow> slice_of a b (map f [0..<n]) = map f [a..<b]"
  by (rule nth_equalityI) (auto simp: slice_of_def)

lemma sort_fetched:
  assumes "mset rs = mset (map (\<lambda>i. (i, f i)) [a..<b])"
  shows "sort_key fst rs = map (\<lambda>i. (i, f i)) [a..<b]"
proof (rule sort_key_inj_key_eq [OF assms])
  have "set rs = set (map (\<lambda>i. (i, f i)) [a..<b])" using assms by (metis set_mset_mset)
  then show "inj_on fst (set rs)" by (auto simp: inj_on_def)
  show "sorted (map fst (map (\<lambda>i. (i, f i)) [a..<b]))" by (simp add: comp_def)
qed

lemma decrypt_batch_ok:
  assumes "\<And>i. i \<in> set is \<Longrightarrow> decrypt_chunk C i (f i) hs l = Inr (g i)"
  shows "decrypt_batch C hs l (zip (map (\<lambda>i. info_nth C mcs data i (f i)) is) (map (\<lambda>i. (i, f i)) is)) acc =
         (acc @ map g is, None)"
  using assms by (induction "is" arbitrary: acc) auto

lemma servesD:
  assumes "serves C ecs get" "\<And>i. i \<in> set js \<Longrightarrow> i < length ecs"
  obtains rs where "get (map (\<lambda>i. (i, content_hash C (ecs ! i))) js) = Inr rs"
    "mset rs = mset (map (\<lambda>i. (i, ecs ! i)) js)"
  using assms by (auto simp: serves_def)

section \<open>Iteration\<close>

definition stream_at :: "nat \<Rightarrow> bytes \<Rightarrow> nat \<Rightarrow> DecryptionStream \<Rightarrow> bool" where
  "stream_at mcs data k ds \<longleftrightarrow>
     (\<exists>a. current_batch_chunks ds = map (file_chunk mcs data) [a..<current_batch_start ds] \<and>
          a + current_batch_index ds = k \<and> k \<le> current_batch_start ds \<and>
          current_batch_start ds \<le> get_num_chunks mcs (length data))"

lemma yield_current_at:
  assumes "stream_at mcs data k ds" "k < current_batch_start ds"
  shows "yield_current ds = (Some (Inr (file_chunk mcs data k)), ds\<lparr>current_batch_index := current_batch_index ds + 1\<rparr>)"
    and "stream_at mcs data (Suc k) (ds\<lparr>current_batch_index := current_batch_index ds + 1\<rparr>)"
  using assms by (auto simp: stream_at_def yield_current_def nth_opt_def)

lemma fetch_next_batch_at:
  assumes over: "stream_over C mcs data l ecs ds" and at: "stream_at mcs data k ds"
    and k: "k = current_batch_start ds" "k < length ecs" and "0 < batch"
  shows "\<exists>ds'. fetch_next_batch C batch ds = (Inr True, ds') \<and> stream_over C mcs data l ecs ds' \<and>
               stream_at mcs data k ds' \<and> k < current_batch_start ds'"
proof -
  let ?e = "min (k + batch) (length ecs)"
  have e: "k < ?e" "?e \<le> length ecs" using assms by auto
  have ci: "chunk_infos ds = map (\<lambda>i. info_nth C mcs data i (ecs ! i)) [0..<length ecs]"
    and n: "length ecs = get_num_chunks mcs (length data)"
    using over by (auto simp: stream_over_def)
  obtain rs where rs: "get_chunk_parallel ds (map (\<lambda>i. (i, content_hash C (ecs ! i))) [k..<?e]) = Inr rs"
    "mset rs = mset (map (\<lambda>i. (i, ecs ! i)) [k..<?e])"
    using over by (auto simp: stream_over_def elim!: servesD [where js = "[k..<?e]"])
  have dec: "decrypt_batch C (ds_src_hashes ds) (child_level ds)
      (zip (map (\<lambda>i. info_nth C mcs data i (ecs ! i)) [k..<?e]) (map (\<lambda>i. (i, ecs ! i)) [k..<?e])) [] =
      (map (file_chunk mcs data) [k..<?e], None)"
    using over e(2) by (subst decrypt_batch_ok) (auto simp: stream_over_def)
  let ?ds = "ds\<lparr>current_batch_chunks := map (file_chunk mcs data) [k..<?e],
                current_batch_start := ?e, current_batch_index := 0\<rparr>"
  have "fetch_next_batch C batch ds = (Inr True, ?ds)"
    using k rs sort_fetched [OF rs(2)] dec
    by (simp add: fetch_next_batch_def ci slice_map_upt Let_def comp_def)
  moreover have "stream_over C mcs data l ecs ?ds" using over by (simp add: stream_over_def)
  moreover have "stream_at mcs data k ?ds" using e n by (auto simp: stream_at_def)
  ultimately show ?thesis using e(1) by force
qed

lemma ds_next_at:
  assumes over: "stream_over C mcs data l ecs ds" and at: "stream_at mcs data k ds"
    and "k < length ecs" "0 < batch"
  shows "\<exists>ds'. ds_next C batch ds = (Some (Inr (file_chunk mcs data k)), ds') \<and>
               stream_over C mcs data l ecs ds' \<and> stream_at mcs data (Suc k) ds'"
proof (cases "k < current_batch_start ds")
  case True
  then have "current_batch_index ds < length (current_batch_chunks ds)"
    using at by (auto simp: stream_at_def)
  then show ?thesis
    using yield_current_at [OF at True] over by (auto simp: ds_next_def stream_over_def)
next
  case False
  then have k: "k = current_batch_start ds" "length (current_batch_chunks ds) \<le> current_batch_index ds"
    using at by (auto simp: stream_at_def)
  obtain ds' where f: "fetch_next_batch C batch ds = (Inr True, ds')" "stream_over C mcs data l ecs ds'"
    "stream_at mcs data k ds'" "k < current_batch_start ds'"
    using fetch_next_batch_at [OF over at k(1) assms(3,4)] by blast
  then show ?thesis
    using yield_current_at [OF f(3,4)] k(2) by (auto simp: ds_next_def stream_over_def)
qed

lemma ds_next_end:
  assumes "stream_over C mcs data l ecs ds" "stream_at mcs data (length ecs) ds"
  shows "ds_next C batch ds = (None, ds)"
  using assms by (auto simp: ds_next_def stream_over_def stream_at_def fetch_next_batch_def)

text \<open>Collecting the iterator until it returns \<open>None\<close> or an error.\<close>

fun ds_collect :: "se_env \<Rightarrow> nat \<Rightarrow> nat \<Rightarrow> DecryptionStream \<Rightarrow> bytes list se_result option" where
  "ds_collect C batch 0 ds = None"
| "ds_collect C batch (Suc fuel) ds =
     (case ds_next C batch ds of
        (None, ds') \<Rightarrow> Some (Inr [])
      | (Some (Inl e), ds') \<Rightarrow> Some (Inl e)
      | (Some (Inr chunk), ds') \<Rightarrow> map_option (map_sum id ((#) chunk)) (ds_collect C batch fuel ds'))"

lemma ds_collect_at:
  assumes "stream_over C mcs data l ecs ds" "stream_at mcs data k ds" "0 < batch"
    and "k \<le> length ecs" "length ecs - k < fuel"
  shows "ds_collect C batch fuel ds = Some (Inr (map (file_chunk mcs data) [k..<length ecs]))"
  using assms
proof (induction fuel arbitrary: k ds)
  case (Suc fuel)
  show ?case
  proof (cases "k = length ecs")
    case True
    with Suc.prems show ?thesis by (simp add: ds_next_end)
  next
    case False
    with Suc.prems obtain ds' where n: "ds_next C batch ds = (Some (Inr (file_chunk mcs data k)), ds')"
      "stream_over C mcs data l ecs ds'" "stream_at mcs data (Suc k) ds'"
      using ds_next_at by (metis le_neq_implies_less)
    have "ds_collect C batch fuel ds' = Some (Inr (map (file_chunk mcs data) [Suc k..<length ecs]))"
      using Suc.prems False n by (intro Suc.IH) auto
    moreover have "[k..<length ecs] = k # [Suc k..<length ecs]"
      using False Suc.prems by (simp add: upt_conv_Cons)
    ultimately show ?thesis using n(1) by simp
  qed
qed simp

section \<open>Random access\<close>

lemma sum_chunk_sizes:
  assumes "0 < mcs" "3 \<le> fs" "i < get_num_chunks mcs fs"
  shows "(\<Sum>j\<leftarrow>[0..<i]. chunk_end mcs fs j - chunk_start mcs fs j) = chunk_start mcs fs i"
  using assms(3)
proof (induction i)
  case 0
  then show ?case using chunk_start_0 [OF assms(1,2)] by simp
next
  case (Suc i)
  then show ?case
    using chunk_end_next [OF assms(1,2), of i] chunk_in_file(1) [OF assms(1,2), of i] by simp
qed

lemma stream_file_size:
  assumes "stream_over C mcs data l ecs ds" "0 < mcs"
  shows "file_size ds = length data"
proof -
  have len: "3 \<le> length data" and n: "length ecs = get_num_chunks mcs (length data)"
    and ci: "chunk_infos ds = infos (map_of_chunks C mcs data ecs)"
    using assms(1) by (auto simp only: stream_over_def infos_map_of_chunks_upt)
  show ?thesis
    using original_file_size_map_of_chunks [OF assms(2) len n, of C] ci
    by (simp add: file_size_def original_file_size_def total_src_size_def infos_def)
qed

lemma stream_start_position:
  assumes "stream_over C mcs data l ecs ds" "0 < mcs" "i < length ecs"
  shows "get_chunk_start_position ds i = chunk_start mcs (length data) i"
proof -
  have ci: "chunk_infos ds = map (\<lambda>j. info_nth C mcs data j (ecs ! j)) [0..<length ecs]"
    and len: "3 \<le> length data" and n: "length ecs = get_num_chunks mcs (length data)"
    using assms(1) by (auto simp: stream_over_def)
  have "filter (\<lambda>j. j < i) [0..<length ecs] = [0..<i]"
    using assms(3) by (intro sorted_distinct_set_unique) (auto simp: sorted_wrt_filter)
  then have "filter (\<lambda>info. index info < i) (chunk_infos ds) =
      map (\<lambda>j. info_nth C mcs data j (ecs ! j)) [0..<i]"
    by (simp add: ci filter_map comp_def)
  then show ?thesis
    using sum_chunk_sizes [OF assms(2) len, of i] assms(3) n
    by (simp add: get_chunk_start_position_def sum_list_fold comp_def)
qed

lemma find_chunk_index_upt:
  assumes "0 < mcs" "3 \<le> length data" "pos < length data"
    and "n = get_num_chunks mcs (length data)" "j \<le> get_chunk_index mcs (length data) pos"
  shows "find_chunk_index (map (\<lambda>i. info_nth C mcs data i (ecs ! i)) [j..<n]) pos
           (chunk_start mcs (length data) j) = Some (get_chunk_index mcs (length data) pos)"
  using assms(5)
proof (induction "n - j" arbitrary: j)
  case 0
  then show ?case using get_chunk_index_bounds(1) [OF assms(1-3)] assms(4) by simp
next
  case (Suc d)
  let ?fs = "length data" and ?i = "get_chunk_index mcs (length data) pos"
  have j: "j < n" "[j..<n] = j # [Suc j..<n]" using Suc(2) by (simp_all add: upt_conv_Cons)
  have i: "?i < n" "chunk_start mcs ?fs ?i \<le> pos" "pos < chunk_end mcs ?fs ?i"
    using get_chunk_index_bounds [OF assms(1-3)] assms(4) by auto
  have c: "chunk_start mcs ?fs j < chunk_end mcs ?fs j"
    using chunk_in_file(1) [OF assms(1,2)] j(1) assms(4) by simp
  show ?case
  proof (cases "j = ?i")
    case True
    then show ?thesis using j i c by simp
  next
    case False
    then have lt: "j < ?i" using Suc.prems by simp
    then have le: "chunk_end mcs ?fs j \<le> chunk_start mcs ?fs ?i"
      using chunk_start_mono [OF assms(1,2), of j ?i] i(1) assms(4) by simp
    moreover have next_start: "chunk_end mcs ?fs j = chunk_start mcs ?fs (Suc j)"
      using chunk_end_next [OF assms(1,2), of j] lt i(1) assms(4) by simp
    moreover have "find_chunk_index (map (\<lambda>i. info_nth C mcs data i (ecs ! i)) [Suc j..<n]) pos
        (chunk_start mcs ?fs (Suc j)) = Some ?i"
      using Suc(1) [of "Suc j"] Suc(2) lt by simp
    ultimately show ?thesis using j(2) i(2) c by simp
  qed
qed

lemma stream_chunk_index:
  assumes "stream_over C mcs data l ecs ds" "0 < mcs" "pos < length data"
  shows "get_chunk_index_from_infos ds pos = get_chunk_index mcs (length data) pos"
proof -
  have ci: "chunk_infos ds = map (\<lambda>j. info_nth C mcs data j (ecs ! j)) [0..<length ecs]"
    and len: "3 \<le> length data" and n: "length ecs = get_num_chunks mcs (length data)"
    using assms(1) by (auto simp: stream_over_def)
  show ?thesis
    using find_chunk_index_upt [OF assms(2) len assms(3) n, of 0 C ecs] chunk_start_0 [OF assms(2) len]
    by (simp add: get_chunk_index_from_infos_def ci)
qed

lemma hash_map_of_perm:
  assumes "mset rs = mset (map (\<lambda>i. (i, f i)) js)" "distinct js" "i \<in> set js"
  shows "hash_map_of rs i = Some (f i)"
proof -
  have "mset (map fst rs) = mset js"
    using arg_cong [OF assms(1), of "image_mset fst"] by (simp add: image_mset.compositionality comp_def)
  then have "distinct (map fst rs)" using assms(2) mset_eq_imp_distinct_iff by blast
  moreover have "(i, f i) \<in> set rs"
    using assms(1,3) mset_eq_setD [OF assms(1)] by auto
  ultimately show ?thesis by (simp add: hash_map_of_def rev_map [symmetric])
qed

lemma get_range_ok:
  assumes over: "stream_over C mcs data l ecs ds" and mcs: "0 < mcs"
    and nov: "start + len < USIZE_LIMIT"
  shows "get_range C ds start len = Inr (slice_of start (start + len) data)"
proof (cases "start < length data \<and> 0 < len")
  case False
  then show ?thesis
    using stream_file_size [OF over mcs] nov by (auto simp: get_range_def slice_of_def)
next
  case True
  define q where "q = min (start + len) (length data)"
  let ?fs = "length data"
  let ?s = "get_chunk_index mcs ?fs start" and ?e = "get_chunk_index mcs ?fs (q - 1)"
  let ?a = "chunk_start mcs ?fs ?s" and ?b = "chunk_end mcs ?fs ?e"
  have ci: "chunk_infos ds = map (\<lambda>j. info_nth C mcs data j (ecs ! j)) [0..<length ecs]"
    and data: "3 \<le> length data" and n: "length ecs = get_num_chunks mcs (length data)"
    and dec: "\<And>i. i < length ecs \<Longrightarrow>
      decrypt_chunk C i (ecs ! i) (src_hashes C mcs data) l = Inr (file_chunk mcs data i)"
    and st: "ds_src_hashes ds = src_hashes C mcs data" "child_level ds = l"
      "serves C ecs (get_chunk_parallel ds)"
    using over by (auto simp: stream_over_def)
  have q: "start \<le> q - 1" "q - 1 < ?fs" "start < q" using True data by (auto simp: q_def)
  have s: "?s < length ecs" "?a \<le> start"
    using get_chunk_index_bounds(1,2) [OF mcs data, of start] True n by auto
  have e: "?e < length ecs" "q \<le> ?b" "?b \<le> ?fs"
    using get_chunk_index_bounds(1,3) [OF mcs data q(2)] chunk_in_file(2) [OF mcs data, of ?e] n by auto
  have se: "?s \<le> ?e"
    using div_le_mono [OF q(1), of "get_chunk_size mcs ?fs 0"]
    unfolding get_chunk_index_eq [OF mcs data] by (intro min.mono) auto
  let ?js = "[?s..<Suc ?e]"
  have req: "map (\<lambda>info. (index info, dst_hash info))
      (filter (\<lambda>info. ?s \<le> index info \<and> index info \<le> ?e) (chunk_infos ds)) =
      map (\<lambda>i. (i, content_hash C (ecs ! i))) ?js"
    using filter_between_upt [OF e(1), of ?s] by (simp add: ci filter_map comp_def del: upt_Suc)
  have sorted: "sort_key fst (map (\<lambda>i. (i, content_hash C (ecs ! i))) ?js) =
      map (\<lambda>i. (i, content_hash C (ecs ! i))) ?js"
    by (rule sort_fetched) simp
  have js: "i < length ecs" if "i \<in> set ?js" for i using that e(1) by (simp del: upt_Suc)
  obtain rs where rs: "get_chunk_parallel ds (map (\<lambda>i. (i, content_hash C (ecs ! i))) ?js) = Inr rs"
    "mset rs = mset (map (\<lambda>i. (i, ecs ! i)) ?js)"
    by (rule servesD [OF st(3) js])
  have parts: "decrypt_present C (src_hashes C mcs data) l (hash_map_of rs) ?js =
      Inr (concat (map (file_chunk mcs data) ?js))"
    unfolding decrypt_present_def using js hash_map_of_perm [OF rs(2)] dec
    by (subst traverse_pure [where g = "file_chunk mcs data"]) (auto simp del: upt_Suc)
  have bytes: "concat (map (file_chunk mcs data) ?js) = slice_of ?a ?b data"
    using concat_chunks_between [OF mcs data, of ?s "?e - ?s"] se e(1) n by simp
  have window: "slice_of (start - ?a) (start - ?a + min (q - start) (?b - ?a - (start - ?a))) (slice_of ?a ?b data)
      = slice_of start (start + (q - start)) data"
    using s(2) e q(3) by (intro slice_of_window) auto
  have nonempty: "\<not> ?b - ?a \<le> start - ?a" using s(2) e(2) q(3) by linarith
  have cut: "slice_of start (start + (q - start)) data = slice_of start (start + len) data"
    by (auto simp: slice_of_def q_def min_def)
  show ?thesis
    unfolding get_range_def Let_def stream_file_size [OF over mcs] q_def [symmetric] st(1,2)
      stream_chunk_index [OF over mcs conjunct1 [OF True]] stream_chunk_index [OF over mcs q(2)]
      stream_start_position [OF over mcs s(1)] req sorted rs(1)
    using True q s(2) e nov nonempty window cut parts bytes by (simp del: upt_Suc)
qed

section \<open>Opening a stream\<close>

text \<open>
  Two closures over a store: one fails when a chunk is missing, the other, as in the examples of
  the documentation of \<open>streaming_decrypt\<close>, leaves missing chunks out of its answer.
\<close>

definition getter_of :: "(xorname \<rightharpoonup> bytes) \<Rightarrow> chunk_getter" where
  "getter_of store reqs =
     traverse (\<lambda>(i, h). try_bind (ok_or (Generic (ChunkNotFound h)) (store h)) (\<lambda>c. Inr (i, c))) reqs"

definition skipping_getter :: "(xorname \<rightharpoonup> bytes) \<Rightarrow> chunk_getter" where
  "skipping_getter store reqs =
     Inr (concat (map (\<lambda>(i, h). case store h of Some c \<Rightarrow> [(i, c)] | None \<Rightarrow> []) reqs))"

lemma getter_of_hits:
  assumes "\<And>r. r \<in> set reqs \<Longrightarrow> store (snd r) = Some (f r)"
  shows "getter_of store reqs = Inr (map (\<lambda>r. (fst r, f r)) reqs)"
  unfolding getter_of_def using assms by (intro traverse_pure) auto

lemma serves_getter_of:
  assumes "\<And>i. i < length ecs \<Longrightarrow> store (content_hash C (ecs ! i)) = Some (ecs ! i)"
  shows "serves C ecs (getter_of store)"
proof -
  have "getter_of store (map (\<lambda>i. (i, content_hash C (ecs ! i))) js) = Inr (map (\<lambda>i. (i, ecs ! i)) js)"
    if js: "\<forall>i \<in> set js. i < length ecs" for js
  proof -
    have "getter_of store (map (\<lambda>i. (i, content_hash C (ecs ! i))) js) =
        Inr (map (\<lambda>r. (fst r, ecs ! fst r)) (map (\<lambda>i. (i, content_hash C (ecs ! i))) js))"
      using js assms by (intro getter_of_hits) auto
    then show ?thesis by (simp add: comp_def)
  qed
  then show ?thesis by (auto simp: serves_def)
qed

lemma serves_rev: "serves C ecs get \<Longrightarrow> serves C ecs (\<lambda>reqs. map_sum id rev (get reqs))"
  unfolding serves_def
proof (intro allI impI)
  fix js
  assume get: "\<forall>js. (\<forall>i\<in>set js. i < length ecs) \<longrightarrow>
      (\<exists>rs. get (map (\<lambda>i. (i, content_hash C (ecs ! i))) js) = Inr rs \<and>
            mset rs = mset (map (\<lambda>i. (i, ecs ! i)) js))"
    and js: "\<forall>i\<in>set js. i < length ecs"
  then obtain rs where "get (map (\<lambda>i. (i, content_hash C (ecs ! i))) js) = Inr rs"
    "mset rs = mset (map (\<lambda>i. (i, ecs ! i)) js)" by blast
  then show "\<exists>rs. map_sum id rev (get (map (\<lambda>i. (i, content_hash C (ecs ! i))) js)) = Inr rs \<and>
      mset rs = mset (map (\<lambda>i. (i, ecs ! i)) js)"
    by (intro exI [of _ "rev rs"]) simp
qed

lemma cache_insert_all_map:
  "cache_insert_all missing (map (\<lambda>r. (fst r, f (snd r))) missing) cache h =
     (if h \<in> snd ` set missing then Some (f h) else cache h)"
  unfolding cache_insert_all_def
  by (induction missing arbitrary: cache) auto

lemma get_root_parallel_step:
  assumes "se_laws C" "0 < mcs" "encrypt_one_level C mcs bs l = Inr (dm, ecs)"
    and "inj_on (content_hash C) (set chunks)" "set ecs \<subseteq> set chunks"
    and "from_bytes (bincode_deserialize C) bs = Inr parent" "\<not> is_child parent"
  shows "get_root_data_map_parallel C (getter_of (chunk_map C chunks)) (with_child (infos dm) l) = Inr parent"
proof (rule one_level_okE [OF assms(3,2)])
  assume dm: "dm = map_of_chunks C mcs bs ecs"
  let ?m = "with_child (infos dm) l" and ?get = "getter_of (chunk_map C chunks)"
  have infos: "infos ?m = map (\<lambda>i. info_nth C mcs bs i (ecs ! i)) [0..<length ecs]"
    using infos_with_child_sorted [of dm C mcs bs ecs l] dm
    by (simp only: infos_map_of_chunks_upt)
  have hit: "chunk_map C chunks (content_hash C (ecs ! i)) = Some (ecs ! i)" if "i < length ecs" for i
    using that assms(4,5) by (intro chunk_map_hit) auto
  let ?ms = "missing_hashes Map.empty ?m"
  let ?f = "\<lambda>h. the (chunk_map C chunks h)"
  have ms: "?ms = map (\<lambda>i. (i, content_hash C (ecs ! i))) [0..<length ecs]"
    by (simp add: missing_hashes_def infos comp_def)
  have got: "?get ?ms = Inr (map (\<lambda>r. (fst r, ?f (snd r))) ?ms)"
    using hit by (intro getter_of_hits) (auto simp: ms)
  have found: "traverse (\<lambda>info. ok_or (Generic (ChunkNotFound (dst_hash info)))
      (cache_insert_all ?ms (map (\<lambda>r. (fst r, ?f (snd r))) ?ms) Map.empty (dst_hash info))) (infos ?m) = Inr ecs"
    using hit unfolding cache_insert_all_map [where f = ?f]
    by (auto simp: traverse_Inr_iff list_all2_conv_all_nth infos ms image_image)
  have "inj_on (content_hash C) (set ecs)" using assms(4,5) by (rule inj_on_subset)
  then have dec: "decrypt_full_set C ?m ecs = Inr bs"
    using assms(1-3) infos dm by (intro decrypt_full_set_ok)
      (auto simp: child_level_of_def with_child_def infos_map_of_chunks_upt simp del: infos_map_of_chunks)
  have "is_child ?m" by (simp add: is_child_def with_child_def)
  moreover have "?ms \<noteq> [] \<or> ecs = []" by (auto simp: ms)
  ultimately show ?thesis using found got dec assms(6,7)
    by (cases "ecs = []") (auto simp: get_root_data_map_parallel_def infos
        inner_get_root_map_parallel.simps [of _ _ _ ?m] inner_get_root_map_parallel.simps [of _ _ _ parent])
qed

lemma stream_over_new:
  assumes "se_laws C" "0 < mcs" "encrypt_one_level C mcs data 0 = Inr (root, ecs)"
    and "serves C ecs get"
    and "if is_child dm then get_root_data_map_parallel C get dm = Inr root else dm = root"
  shows "\<exists>ds. streaming_decrypt C dm get = Inr ds \<and> stream_over C mcs data 0 ecs ds \<and> stream_at mcs data 0 ds"
proof (rule one_level_okE [OF assms(3,2)])
  assume root: "root = map_of_chunks C mcs data ecs" and len: "3 \<le> length data"
    and n: "length ecs = get_num_chunks mcs (length data)"
  let ?is = "map (\<lambda>i. info_nth C mcs data i (ecs ! i)) [0..<length ecs]"
  have "map index ?is = [0..<length ?is]" by (rule nth_equalityI) auto
  then have sorted: "sort_key index ?is = ?is" by (rule sort_key_index_id)
  have infos: "infos root = ?is" unfolding root by (rule infos_map_of_chunks_upt)
  have "extract_hashes root = src_hashes C mcs data"
    using extract_hashes_map_of_chunks [OF n] root by simp
  moreover have "child_level_of root = 0" by (simp add: root child_level_of_def)
  moreover have "\<forall>i < length ecs. decrypt_chunk C i (ecs ! i) (src_hashes C mcs data) 0 = Inr (file_chunk mcs data i)"
    using one_level_nth_decrypts [OF assms(1-3)] by blast
  ultimately show ?thesis
    using assms(4,5) len n infos sorted
    by (auto simp: streaming_decrypt_def DecryptionStream_new_def stream_over_def stream_at_def split: if_splits)
qed

section \<open>Properties\<close>

text \<open>
  C31: streaming decryption returns the data that was encrypted. With enough fuel \<open>encrypt\<close>
  returns a data map and chunks; if their hashes do not collide, a stream opened on that map
  over a store of those chunks yields, for every batch size, parts whose concatenation is the
  data and then ends, and every byte range read from it is the slice of the data.
\<close>

theorem streaming_decrypt_round_trip:
  assumes "se_laws C" "se_total C" "bincode_size C" "160 \<le> mcs"
    and "3 \<le> length data" "length data < USIZE_LIMIT"
    and "18 + 80 * get_num_chunks mcs (length data) < 3 * mcs"
    and "2 * get_num_chunks mcs (length data) + 2 \<le> fuel" "0 < batch"
  shows "\<exists>dm chunks. encrypt C mcs fuel data = Some (Inr (dm, chunks)) \<and>
           (inj_on (content_hash C) (set chunks) \<longrightarrow>
            (\<exists>ds parts. streaming_decrypt C dm (getter_of (chunk_map C chunks)) = Inr ds \<and>
               ds_collect C batch (get_num_chunks mcs (length data) + 1) ds = Some (Inr parts) \<and>
               concat parts = data \<and>
               (\<forall>start len. start + len < USIZE_LIMIT \<longrightarrow>
                  get_range C ds start len = Inr (slice_of start (start + len) data))))"
proof -
  have mcs: "0 < mcs" using assms(4) by simp
  obtain dm chunks where e: "encrypt C mcs fuel data = Some (Inr (dm, chunks))"
    using encrypt_enough_fuel [OF assms(1-6,8), of 0] by (auto simp: encrypt_def)
  let ?get = "getter_of (chunk_map C chunks)"
  have "\<exists>ds parts. streaming_decrypt C dm ?get = Inr ds \<and>
      ds_collect C batch (get_num_chunks mcs (length data) + 1) ds = Some (Inr parts) \<and>
      concat parts = data \<and> (\<forall>start len. start + len < USIZE_LIMIT \<longrightarrow>
         get_range C ds start len = Inr (slice_of start (start + len) data))"
    if inj: "inj_on (content_hash C) (set chunks)"
  proof -
    obtain root ecs where r: "encrypt_one_level C mcs data 0 = Inr (root, ecs)" "set ecs \<subseteq> set chunks"
      "if is_child dm then get_root_data_map_parallel C ?get dm = Inr root else dm = root"
      using e mcs assms(3,7)
    proof (cases rule: encrypt_single_levelE)
      case (root ecs)
      then show ?thesis using that by (simp add: is_child_def)
    next
      case (shrunk root ecs bs dm1 ecs1)
      have "from_bytes (bincode_deserialize C) bs = Inr root"
        using shrunk(2) assms(1) by (auto intro: from_bytes_to_bytes simp: se_laws_def)
      then have "get_root_data_map_parallel C ?get dm = Inr root"
        using get_root_parallel_step [OF assms(1) mcs shrunk(3) inj] shrunk(4-6) by (simp add: is_child_def)
      then show ?thesis using that [OF shrunk(1)] shrunk(4,5) by (simp add: is_child_def with_child_def)
    qed
    have "chunk_map C chunks (content_hash C (ecs ! i)) = Some (ecs ! i)" if "i < length ecs" for i
      using inj r(2) that by (intro chunk_map_hit) auto
    from serves_getter_of [OF this] obtain ds where ds: "streaming_decrypt C dm ?get = Inr ds"
      "stream_over C mcs data 0 ecs ds" "stream_at mcs data 0 ds"
      using stream_over_new [OF assms(1) mcs r(1) _ r(3)] by blast
    have n: "length ecs = get_num_chunks mcs (length data)" using ds(2) by (simp add: stream_over_def)
    have "ds_collect C batch (get_num_chunks mcs (length data) + 1) ds = Some (Inr (file_chunks mcs data))"
      using ds_collect_at [OF ds(2,3) assms(9)] n by (simp add: file_chunks_def del: ds_collect.simps)
    then show ?thesis
      using ds(1) concat_file_chunks [OF mcs assms(5)] get_range_ok [OF ds(2) mcs] by blast
  qed
  with e show ?thesis by blast
qed

lemma streaming_decrypt_round_trip_witness:
  "\<exists>dm ds. encrypt sample_env 160 8 [1, 2, 3] = Some (Inr (dm, [[1], [2], [3]])) \<and>
     streaming_decrypt sample_env dm (getter_of (chunk_map sample_env [[1], [2], [3]])) = Inr ds \<and>
     get_range sample_env ds 1 1 = Inr [2]"
proof -
  have "inj_on (content_hash sample_env) (set [[1], [2], [3]])"
    by (simp add: content_hash_def sample_env_def)
  with streaming_decrypt_round_trip [of sample_env 160 "[1, 2, 3]" 8 10] sample_encrypt
  obtain dm ds where "encrypt sample_env 160 8 [1, 2, 3] = Some (Inr (dm, [[1], [2], [3]]))"
    "streaming_decrypt sample_env dm (getter_of (chunk_map sample_env [[1], [2], [3]])) = Inr ds"
    "\<forall>start len. start + len < USIZE_LIMIT \<longrightarrow>
       get_range sample_env ds start len = Inr (slice_of start (start + len) [1, 2, 3])"
    by (auto simp: chunking_defs USIZE_LIMIT_def)
  moreover from this(3) have "get_range sample_env ds 1 1 = Inr [2]"
    by (simp add: USIZE_LIMIT_def slice_of_def)
  ultimately show ?thesis by blast
qed

text \<open>
  The order in which the closure returns the chunks of a request does not matter, nor does
  the batch size: a stream over a data map yields the chunks of the data in index order.
\<close>

theorem stream_order_independent:
  assumes "se_laws C" "0 < mcs" "encrypt_one_level C mcs data 0 = Inr (dm, ecs)" "serves C ecs get"
    and "0 < batch" "length ecs < fuel"
  shows "\<exists>ds. streaming_decrypt C dm get = Inr ds \<and>
              ds_collect C batch fuel ds = Some (Inr (file_chunks mcs data))"
proof -
  have dm: "\<not> is_child dm" using assms(2,3) by (auto simp: is_child_def elim: one_level_okE)
  then obtain ds where ds: "streaming_decrypt C dm get = Inr ds"
      "stream_over C mcs data 0 ecs ds" "stream_at mcs data 0 ds"
    using stream_over_new [OF assms(1-4), of dm] by auto
  moreover have "length ecs = get_num_chunks mcs (length data)" using ds(2) by (simp add: stream_over_def)
  ultimately show ?thesis
    using ds_collect_at [OF ds(2,3) assms(5)] assms(6) by (auto simp: file_chunks_def)
qed

lemma stream_order_independent_witness:
  "\<exists>ds. streaming_decrypt sample_env (sample_map 2 [10, 20, 30, 40, 50, 60, 70])
          (\<lambda>reqs. map_sum id rev (getter_of (chunk_map sample_env (file_chunks 2 [10, 20, 30, 40, 50, 60, 70])) reqs))
          = Inr ds \<and>
        ds_collect sample_env 3 5 ds = Some (Inr (file_chunks 2 [10, 20, 30, 40, 50, 60, 70]))"
proof -
  let ?d = "[10, 20, 30, 40, 50, 60, 70] :: bytes"
  let ?get = "getter_of (chunk_map sample_env (file_chunks 2 ?d))"
  have e: "encrypt_one_level sample_env 2 ?d 0 = Inr (sample_map 2 ?d, file_chunks 2 ?d)"
    by (rule sample_one_level) simp_all
  have c: "file_chunks 2 ?d = [[10, 20], [30, 40], [50, 60], [70]]" by code_simp
  have "inj_on (content_hash sample_env) (set (file_chunks 2 ?d))"
    unfolding c by (simp add: content_hash_def sample_env_def)
  then have "serves sample_env (file_chunks 2 ?d) ?get"
    by (intro serves_getter_of chunk_map_hit) auto
  then have "serves sample_env (file_chunks 2 ?d) (\<lambda>reqs. map_sum id rev (?get reqs))"
    by (rule serves_rev)
  from stream_order_independent [OF sample_env_laws _ e this, of 3 5] c show ?thesis by simp
qed

text \<open>
  A missing chunk is not always reported. The documentation of \<open>get_range\<close> promises an error
  when chunks are missing, and its examples pass a closure that leaves missing chunks out; then
  \<open>get_range\<close> skips them and returns bytes of another position of the file. Here the data is
  one, two, three in three chunks, the first chunk is missing from the store, and the range of
  two bytes from the start comes back, without an error, as the single byte two.
\<close>

theorem get_range_skips_missing_chunk:
  "\<exists>dm ds. encrypt sample_env 160 8 [1, 2, 3] = Some (Inr (dm, [[1], [2], [3]])) \<and>
     streaming_decrypt sample_env dm (skipping_getter (chunk_map sample_env [[2], [3]])) = Inr ds \<and>
     get_range sample_env ds 0 2 = Inr [2]"
proof -
  let ?is = "map (\<lambda>i. \<lparr>index = i, dst_hash = word_of_nat (i + 1) # replicate 31 0,
      src_hash = word_of_nat (i + 1) # replicate 31 0, src_size = 1\<rparr>) [0, 1, 2]"
  let ?ds = "\<lparr>chunk_infos = ?is,
    ds_src_hashes = map (\<lambda>i. word_of_nat (i + 1) # replicate 31 0) [0, 1, 2], child_level = 0,
    get_chunk_parallel = skipping_getter (chunk_map sample_env [[2], [3]]),
    current_batch_start = 0, current_batch_chunks = [], current_batch_index = 0\<rparr>"
  have "streaming_decrypt sample_env \<lparr>chunk_identifiers = ?is, child = None\<rparr>
      (skipping_getter (chunk_map sample_env [[2], [3]])) = Inr ?ds"
    by (simp add: streaming_decrypt_def DecryptionStream_new_def is_child_def child_level_of_def
        extract_hashes_def infos_def)
  moreover have "decrypt_present sample_env (ds_src_hashes ?ds) 0 (hash_map_of [(1, [2])]) [0, 1] = Inr [2]"
    "skipping_getter (chunk_map sample_env [[2], [3]])
       [(0, 1 # replicate 31 0), (1, 2 # replicate 31 0)] = Inr [(1, [2])]"
    by code_simp+
  then have "get_range sample_env ?ds 0 2 = Inr [2]"
    by (simp add: get_range_def file_size_def get_chunk_index_from_infos_def get_chunk_start_position_def
        USIZE_LIMIT_def Let_def slice_of_def)
  ultimately show ?thesis using sample_encrypt by blast
qed

end
