(* ===== verification/Stream_Encrypt.thy ===== *)
theory Stream_Encrypt
  imports Self_Encryption
begin

text \<open>
  Streaming encryption: \<open>src/self_encryption/src/stream_encrypt.rs\<close>.

  The state of the iterator is the record \<open>EncryptionStream\<close>, field by field; the input iterator
  is the list of the items it has still to deliver. Every method with \<open>&mut self\<close> returns its
  result and the new state, also when it fails. The loop of \<open>try_process_chunks\<close> is
  \<open>process_loop\<close>, one iteration of it \<open>process_one\<close>. Shrinking the data map takes the fuel of
  \<open>shrink_data_map\<close>, and \<open>None\<close> is running out of it.
\<close>

section \<open>State\<close>

datatype ChunkOrDataMap = Chunk bytes | FinalMap DataMap

record EncryptionStream =
  data_iter :: "bytes list"
  data_size :: nat
  buffer :: bytes
  chunks_processed :: nat
  total_chunks :: nat
  st_src_hashes :: "xorname option list"
  deferred_chunks :: "bytes option list"
  st_chunk_infos :: "ChunkInfo option list"
  input_complete :: bool
  is_complete :: bool
  final_datamap :: "DataMap option"
  shrinking_chunks :: "bytes list"
  shrinking_chunk_index :: nat

definition EncryptionStream_new :: "nat \<Rightarrow> nat \<Rightarrow> bytes list \<Rightarrow> EncryptionStream se_result" where
  "EncryptionStream_new mcs fsize items =
     (let n = get_num_chunks mcs fsize
      in if fsize < MIN_ENCRYPTABLE_BYTES then Inl (Generic TooSmallForSelfEncryption)
         else if n < 3 then Inl (Generic FewerThanThreeChunks)
         else Inr \<lparr>data_iter = items, data_size = fsize, buffer = [], chunks_processed = 0,
                   total_chunks = n, st_src_hashes = replicate n None,
                   deferred_chunks = [None, None], st_chunk_infos = replicate n None,
                   input_complete = False, is_complete = False, final_datamap = None,
                   shrinking_chunks = [], shrinking_chunk_index = 0\<rparr>)"

definition stream_encrypt :: "nat \<Rightarrow> nat \<Rightarrow> bytes list \<Rightarrow> EncryptionStream se_result" where
  "stream_encrypt mcs fsize items = EncryptionStream_new mcs fsize items"

section \<open>Encrypting the chunks\<close>

definition get_processed_bytes :: "nat \<Rightarrow> EncryptionStream \<Rightarrow> nat" where
  "get_processed_bytes mcs st =
     fold (\<lambda>i processed. let (start, stop) = get_start_end_positions mcs (data_size st) i
                         in processed + (stop - start))
       [0..<chunks_processed st] 0"

definition has_hash :: "EncryptionStream \<Rightarrow> nat \<Rightarrow> bool" where
  "has_hash st i = (case nth_opt (st_src_hashes st) i of Some (Some h) \<Rightarrow> True | _ \<Rightarrow> False)"

definition can_encrypt_chunk :: "EncryptionStream \<Rightarrow> nat \<Rightarrow> bool" where
  "can_encrypt_chunk st chunk_index =
     (if chunk_index < 2 then list_all (\<lambda>h. h \<noteq> None) (st_src_hashes st)
      else
        (case get_n_1_n_2 chunk_index (total_chunks st) of
           Inl e \<Rightarrow> False
         | Inr (n1, n2) \<Rightarrow> has_hash st chunk_index \<and> has_hash st n1 \<and> has_hash st n2))"

definition set_dst_hash :: "nat \<Rightarrow> xorname \<Rightarrow> EncryptionStream \<Rightarrow> EncryptionStream" where
  "set_dst_hash i h st =
     (case nth_opt (st_chunk_infos st) i of
        Some (Some info) \<Rightarrow> st\<lparr>st_chunk_infos := (st_chunk_infos st)[i := Some (info\<lparr>dst_hash := h\<rparr>)]\<rparr>
      | _ \<Rightarrow> st)"

text \<open>
  The hashes of chunks that have not been read yet are filled up with the hash of the empty
  string; the two vectors have the same length, so the bounds check of the copy never fails.
\<close>

definition known_hashes :: "se_env \<Rightarrow> EncryptionStream \<Rightarrow> xorname list" where
  "known_hashes C st =
     map (\<lambda>h. case h of Some x \<Rightarrow> x | None \<Rightarrow> content_hash C []) (st_src_hashes st)"

definition stream_encrypt_chunk ::
  "se_env \<Rightarrow> EncryptionStream \<Rightarrow> nat \<Rightarrow> bytes \<Rightarrow> bytes se_result \<times> EncryptionStream" where
  "stream_encrypt_chunk C st chunk_index chunk_data =
     (case try_bind (get_pad_key_and_nonce C chunk_index (known_hashes C st) 0) (encrypt_chunk C chunk_data) of
        Inl e \<Rightarrow> (Inl e, st)
      | Inr encrypted_content \<Rightarrow>
          (Inr encrypted_content, set_dst_hash chunk_index (content_hash C encrypted_content) st))"

section \<open>Processing the buffer\<close>

datatype process_step =
    Break
  | Continue EncryptionStream
  | Yield bytes EncryptionStream
  | Fail se_error EncryptionStream

definition drain_chunk :: "nat \<Rightarrow> nat \<Rightarrow> EncryptionStream \<Rightarrow> EncryptionStream" where
  "drain_chunk a b st =
     st\<lparr>chunks_processed := chunks_processed st + 1,
        buffer := (if b \<le> length (buffer st) then take a (buffer st) @ drop b (buffer st) else buffer st)\<rparr>"

definition process_chunk :: "se_env \<Rightarrow> EncryptionStream \<Rightarrow> nat \<Rightarrow> nat \<Rightarrow> process_step" where
  "process_chunk C st buffer_start buffer_end =
     (let chunk_index = chunks_processed st;
          chunk_data = slice_of buffer_start buffer_end (buffer st);
          src_hash = content_hash C chunk_data;
          st1 = st\<lparr>st_src_hashes := (st_src_hashes st)[chunk_index := Some src_hash]\<rparr>;
          st2 = st1\<lparr>st_chunk_infos := (st_chunk_infos st)[chunk_index :=
                      Some \<lparr>index = chunk_index, dst_hash = content_hash C [],
                            src_hash = src_hash, src_size = length chunk_data\<rparr>]\<rparr>
      in if length (st_src_hashes st) \<le> chunk_index then Fail (Generic (StreamIndexOutOfBounds chunk_index)) st
         else if length (st_chunk_infos st) \<le> chunk_index
           then Fail (Generic (StreamIndexOutOfBounds chunk_index)) st1
         else if chunk_index < 2
           then Continue (drain_chunk buffer_start buffer_end
                  (st2\<lparr>deferred_chunks := (deferred_chunks st)[chunk_index := Some chunk_data]\<rparr>))
         else if can_encrypt_chunk st2 chunk_index
           then (case stream_encrypt_chunk C st2 chunk_index chunk_data of
                   (Inl e, st3) \<Rightarrow> Fail e st3
                 | (Inr encrypted, st3) \<Rightarrow> Yield encrypted (drain_chunk buffer_start buffer_end st3))
         else Continue (drain_chunk buffer_start buffer_end st2))"

definition process_one :: "se_env \<Rightarrow> nat \<Rightarrow> EncryptionStream \<Rightarrow> process_step" where
  "process_one C mcs st =
     (let (chunk_start, chunk_end) = get_start_end_positions mcs (data_size st) (chunks_processed st);
          chunk_size = chunk_end - chunk_start;
          buffer_start = chunk_start - get_processed_bytes mcs st
      in if buffer_start + chunk_size \<le> length (buffer st) \<or> input_complete st
         then
           (let actual_chunk_size =
                  (if input_complete st then min chunk_size (length (buffer st) - buffer_start)
                   else chunk_size)
            in if actual_chunk_size = 0 then Break
               else if buffer_start + actual_chunk_size \<le> length (buffer st)
                 then process_chunk C st buffer_start (buffer_start + actual_chunk_size)
               else Break)
         else Break)"

lemma drain_chunk_simps [simp]:
  "chunks_processed (drain_chunk a b st) = Suc (chunks_processed st)"
  "total_chunks (drain_chunk a b st) = total_chunks st"
  "data_iter (drain_chunk a b st) = data_iter st"
  by (simp_all add: drain_chunk_def)

lemma process_one_Continue:
  "process_one C mcs st = Continue st' \<Longrightarrow>
     chunks_processed st' = Suc (chunks_processed st) \<and> total_chunks st' = total_chunks st"
  by (auto simp: process_one_def process_chunk_def Let_def split: if_splits prod.splits sum.splits)

function process_loop :: "se_env \<Rightarrow> nat \<Rightarrow> EncryptionStream \<Rightarrow> process_step \<times> EncryptionStream" where
  "process_loop C mcs st =
     (if chunks_processed st < total_chunks st
      then (case process_one C mcs st of
              Continue st' \<Rightarrow> process_loop C mcs st'
            | r \<Rightarrow> (r, st))
      else (Break, st))"
  by pat_completeness auto
termination
  by (relation "measure (\<lambda>(C, mcs, st). total_chunks st - chunks_processed st)")
    (auto dest: process_one_Continue)

declare process_loop.simps [simp del]

section \<open>Finishing\<close>

text \<open>The loop over the two deferred chunks returns at the first one that is still there.\<close>

fun finalize_deferred ::
  "se_env \<Rightarrow> xorname list \<Rightarrow> nat list \<Rightarrow> EncryptionStream
     \<Rightarrow> (bytes se_result option) \<times> EncryptionStream" where
  "finalize_deferred C hashes [] st = (None, st)"
| "finalize_deferred C hashes (chunk_index # rest) st =
     (case nth_opt (deferred_chunks st) chunk_index of
        Some (Some chunk_data) \<Rightarrow>
          (let st1 = st\<lparr>deferred_chunks := (deferred_chunks st)[chunk_index := None]\<rparr>
           in case try_bind (get_pad_key_and_nonce C chunk_index hashes 0) (encrypt_chunk C chunk_data) of
                Inl e \<Rightarrow> (Some (Inl e), st1)
              | Inr encrypted_content \<Rightarrow>
                  (Some (Inr encrypted_content),
                   set_dst_hash chunk_index (content_hash C encrypted_content) st1))
      | _ \<Rightarrow> finalize_deferred C hashes rest st)"

definition finish_shrinking ::
  "DataMap \<Rightarrow> bytes list \<Rightarrow> EncryptionStream \<Rightarrow> ChunkOrDataMap option se_result \<times> EncryptionStream" where
  "finish_shrinking shrunk_map shrink_chunks st =
     (let st1 = st\<lparr>shrinking_chunks := shrink_chunks, final_datamap := Some shrunk_map\<rparr>
      in if shrink_chunks \<noteq> [] \<and> shrinking_chunk_index st < length shrink_chunks
         then (Inr (Some (Chunk (shrink_chunks ! shrinking_chunk_index st))),
               st1\<lparr>shrinking_chunk_index := shrinking_chunk_index st + 1\<rparr>)
         else (Inr (Some (FinalMap shrunk_map)), st1\<lparr>is_complete := True\<rparr>))"

definition finalize_encryption ::
  "se_env \<Rightarrow> nat \<Rightarrow> nat \<Rightarrow> EncryptionStream
     \<Rightarrow> (ChunkOrDataMap option se_result \<times> EncryptionStream) option" where
  "finalize_encryption C mcs fuel st =
     (if is_complete st then Some (Inr None, st)
      else
        (case traverse (\<lambda>(i, h). ok_or (Generic (MissingSourceHash i)) h) (enumerate 0 (st_src_hashes st)) of
           Inl e \<Rightarrow> Some (Inl e, st)
         | Inr hashes \<Rightarrow>
             (case finalize_deferred C hashes [0..<min 2 (total_chunks st)] st of
                (Some (Inl e), st1) \<Rightarrow> Some (Inl e, st1)
              | (Some (Inr encrypted), st1) \<Rightarrow> Some (Inr (Some (Chunk encrypted)), st1)
              | (None, st1) \<Rightarrow>
                  (case traverse (ok_or (Generic MissingChunkInfo)) (st_chunk_infos st1) of
                     Inl e \<Rightarrow> Some (Inl e, st1)
                   | Inr final_infos \<Rightarrow>
                       (case shrink_data_map C mcs fuel (\<lambda>s h c. Inr s) ()
                               (DataMap_new (sort_key index final_infos)) [] of
                          None \<Rightarrow> None
                        | Some (Inl e) \<Rightarrow> Some (Inl e, st1)
                        | Some (Inr (shrunk_map, shrink_chunks, s)) \<Rightarrow>
                            Some (finish_shrinking shrunk_map shrink_chunks st1))))))"

definition try_process_chunks ::
  "se_env \<Rightarrow> nat \<Rightarrow> nat \<Rightarrow> EncryptionStream
     \<Rightarrow> (ChunkOrDataMap option se_result \<times> EncryptionStream) option" where
  "try_process_chunks C mcs fuel st =
     (case process_loop C mcs st of
        (Yield encrypted st', _) \<Rightarrow> Some (Inr (Some (Chunk encrypted)), st')
      | (Fail e st', _) \<Rightarrow> Some (Inl e, st')
      | (_, st') \<Rightarrow>
          (if input_complete st' \<and> total_chunks st' \<le> chunks_processed st'
           then finalize_encryption C mcs fuel st'
           else Some (Inr None, st')))"

section \<open>The iterator\<close>

type_synonym next_result = "(ChunkOrDataMap se_result option \<times> EncryptionStream) option"

definition yield_shrinking :: "EncryptionStream \<Rightarrow> ChunkOrDataMap se_result option \<times> EncryptionStream" where
  "yield_shrinking st =
     (let i = shrinking_chunk_index st
      in (Some (Inr (Chunk (shrinking_chunks st ! i))),
          st\<lparr>shrinking_chunk_index := i + 1,
             is_complete := (length (shrinking_chunks st) \<le> i + 1 \<or> is_complete st)\<rparr>))"

text \<open>
  \<open>next_internal\<close>: its loop is the recursion over the items that \<open>data_iter\<close> still delivers.
\<close>

fun next_loop :: "se_env \<Rightarrow> nat \<Rightarrow> nat \<Rightarrow> bytes list \<Rightarrow> EncryptionStream \<Rightarrow> next_result" where
  "next_loop C mcs fuel items st =
     (if shrinking_chunks st \<noteq> [] \<and> shrinking_chunk_index st < length (shrinking_chunks st)
      then Some (yield_shrinking st)
      else if is_complete st
      then (case final_datamap st of
              Some dm \<Rightarrow> Some (Some (Inr (FinalMap dm)), st)
            | None \<Rightarrow> Some (None, st))
      else
        (case try_process_chunks C mcs fuel st of
           None \<Rightarrow> None
         | Some (Inr (Some r), st1) \<Rightarrow> Some (Some (Inr r), st1)
         | Some (Inl e, st1) \<Rightarrow> Some (Some (Inl e), st1)
         | Some (Inr None, st1) \<Rightarrow>
             (if \<not> input_complete st1
              then
                (case items of
                   data # rest \<Rightarrow>
                     (case try_process_chunks C mcs fuel
                             (st1\<lparr>data_iter := rest, buffer := buffer st1 @ data\<rparr>) of
                        None \<Rightarrow> None
                      | Some (Inr (Some r), st2) \<Rightarrow> Some (Some (Inr r), st2)
                      | Some (Inl e, st2) \<Rightarrow> Some (Some (Inl e), st2)
                      | Some (Inr None, st2) \<Rightarrow> next_loop C mcs fuel rest st2)
                 | [] \<Rightarrow>
                     (case try_process_chunks C mcs fuel (st1\<lparr>input_complete := True\<rparr>) of
                        None \<Rightarrow> None
                      | Some (Inr (Some r), st2) \<Rightarrow> Some (Some (Inr r), st2)
                      | Some (Inl e, st2) \<Rightarrow> Some (Some (Inl e), st2)
                      | Some (Inr None, st2) \<Rightarrow> Some (None, st2)))
              else Some (None, st1))))"

declare next_loop.simps [simp del]

definition next_internal :: "se_env \<Rightarrow> nat \<Rightarrow> nat \<Rightarrow> EncryptionStream \<Rightarrow> next_result" where
  "next_internal C mcs fuel st = next_loop C mcs fuel (data_iter st) st"

definition ChunkStream_next ::
  "se_env \<Rightarrow> nat \<Rightarrow> nat \<Rightarrow> EncryptionStream
     \<Rightarrow> ((xorname \<times> bytes) se_result option \<times> EncryptionStream) option" where
  "ChunkStream_next C mcs fuel st =
     (case next_internal C mcs fuel st of
        None \<Rightarrow> None
      | Some (Some (Inr (Chunk content)), st') \<Rightarrow> Some (Some (Inr (content_hash C content, content)), st')
      | Some (Some (Inr (FinalMap dm)), st') \<Rightarrow> Some (None, st'\<lparr>final_datamap := Some dm\<rparr>)
      | Some (Some (Inl e), st') \<Rightarrow> Some (Some (Inl e), st')
      | Some (None, st') \<Rightarrow> Some (None, st'))"

definition into_datamap :: "EncryptionStream \<Rightarrow> DataMap option" where
  "into_datamap st = final_datamap st"

end
