(* ===== verification/Stream_Encrypt_Correct.thy ===== *)
theory Stream_Encrypt_Correct
  imports Stream_Encrypt Self_Encryption_Properties
begin

text \<open>
  Streaming encryption refines in-memory encryption. The iterator is in one of three phases:
  reading the input (\<open>reading\<close>), encrypting the two deferred chunks (\<open>finishing\<close>), and handing
  out the chunks of the shrunk data map (\<open>shrinking\<close>). Each call of \<open>next_internal\<close> takes the
  state from one point of this order to the next.
\<close>

section \<open>Vectors that are filled from the left\<close>

definition partial :: "nat \<Rightarrow> nat \<Rightarrow> (nat \<Rightarrow> 'a) \<Rightarrow> 'a option list" where
  "partial n k f = map (\<lambda>i. if i < k then Some (f i) else None) [0..<n]"

lemma length_partial [simp]: "length (partial n k f) = n"
  by (simp add: partial_def)

lemma nth_partial [simp]: "i < n \<Longrightarrow> partial n k f ! i = (if i < k then Some (f i) else None)"
  by (simp add: partial_def)

lemma partial_0: "partial n 0 f = replicate n None"
  by (rule nth_equalityI) auto

lemma partial_update: "k < n \<Longrightarrow> f k = x \<Longrightarrow> (partial n k f)[k := Some x] = partial n (Suc k) f"
  by (rule nth_equalityI) (auto simp: nth_list_update less_Suc_eq)

lemma partial_full_update:
  "(\<And>i. i < n \<Longrightarrow> i \<noteq> k \<Longrightarrow> f i = g i) \<Longrightarrow> k < n \<Longrightarrow> (partial n n f)[k := Some (g k)] = partial n n g"
  by (rule nth_equalityI) (auto simp: nth_list_update)

section \<open>The reading phase\<close>

definition bytes_done :: "nat \<Rightarrow> bytes \<Rightarrow> nat \<Rightarrow> nat" where
  "bytes_done mcs data k =
     (if k < get_num_chunks mcs (length data) then chunk_start mcs (length data) k else length data)"

definition stream_info :: "se_env \<Rightarrow> nat \<Rightarrow> bytes \<Rightarrow> bytes list \<Rightarrow> nat \<Rightarrow> nat \<Rightarrow> ChunkInfo" where
  "stream_info C mcs data ecs j i = info_nth C mcs data i (if j \<le> i \<and> i < 2 then [] else ecs ! i)"

definition idle :: "EncryptionStream \<Rightarrow> bool" where
  "idle st \<longleftrightarrow> \<not> is_complete st \<and> shrinking_chunks st = [] \<and> shrinking_chunk_index st = 0"

definition reading :: "se_env \<Rightarrow> nat \<Rightarrow> bytes \<Rightarrow> bytes list \<Rightarrow> nat \<Rightarrow> EncryptionStream \<Rightarrow> bool" where
  "reading C mcs data ecs k st \<longleftrightarrow>
     (let n = get_num_chunks mcs (length data) in
      data_size st = length data \<and> chunks_processed st = k \<and> total_chunks st = n \<and> k \<le> n \<and>
      st_src_hashes st = partial n k ((!) (src_hashes C mcs data)) \<and>
      st_chunk_infos st = partial n k (stream_info C mcs data ecs 0) \<and>
      deferred_chunks st = partial 2 k (file_chunk mcs data) \<and>
      buffer st @ concat (data_iter st) = drop (bytes_done mcs data k) data \<and>
      (input_complete st \<longrightarrow> data_iter st = []) \<and> idle st)"

text \<open>The data, its single-level encryption, and the facts about them the phases share.\<close>

definition encrypts :: "se_env \<Rightarrow> nat \<Rightarrow> bytes \<Rightarrow> bytes list \<Rightarrow> bool" where
  "encrypts C mcs data ecs \<longleftrightarrow>
     0 < mcs \<and> 3 \<le> length data \<and> length ecs = get_num_chunks mcs (length data) \<and>
     (\<forall>i < length ecs. encrypt_nth C mcs data 0 i = Inr (ecs ! i))"

lemma encryptsD:
  assumes "encrypts C mcs data ecs"
  shows "0 < mcs" "3 \<le> length data" "length ecs = get_num_chunks mcs (length data)"
    "3 \<le> get_num_chunks mcs (length data)"
    "\<And>i. i < get_num_chunks mcs (length data) \<Longrightarrow> encrypt_nth C mcs data 0 i = Inr (ecs ! i)"
  using assms by (auto simp: encrypts_def intro: num_chunks_ge_3)

lemma bytes_done_Suc:
  assumes "encrypts C mcs data ecs" "k < get_num_chunks mcs (length data)"
  shows "bytes_done mcs data (Suc k) = bytes_done mcs data k + get_chunk_size mcs (length data) k"
    "bytes_done mcs data k = chunk_start mcs (length data) k"
    "bytes_done mcs data (Suc k) = chunk_end mcs (length data) k"
    "bytes_done mcs data (Suc k) \<le> length data"
proof -
  note e = encryptsD [OF assms(1)]
  show "bytes_done mcs data k = chunk_start mcs (length data) k" using assms(2) by (simp add: bytes_done_def)
  show "bytes_done mcs data (Suc k) = chunk_end mcs (length data) k"
  proof (cases "Suc k < get_num_chunks mcs (length data)")
    case True
    then show ?thesis using chunk_end_next [OF e(1,2) True] by (simp add: bytes_done_def)
  next
    case False
    then have "k = get_num_chunks mcs (length data) - 1" using assms(2) by simp
    then show ?thesis using chunk_end_last [OF e(1,2)] False by (simp add: bytes_done_def)
  qed
  then show "bytes_done mcs data (Suc k) = bytes_done mcs data k + get_chunk_size mcs (length data) k"
    "bytes_done mcs data (Suc k) \<le> length data"
    using assms(2) chunk_start_eq(2) [OF e(1,2) assms(2)] chunk_in_file(2) [OF e(1,2) assms(2)]
    by (simp_all add: bytes_done_def)
qed

lemma processed_bytes:
  assumes "encrypts C mcs data ecs" "k \<le> get_num_chunks mcs (length data)"
    and "data_size st = length data" "chunks_processed st = k"
  shows "get_processed_bytes mcs st = bytes_done mcs data k"
proof -
  have "fold (\<lambda>i processed. let (start, stop) = get_start_end_positions mcs (length data) i
            in processed + (stop - start)) [0..<k] 0 = bytes_done mcs data k"
    using assms(2)
  proof (induction k)
    case 0
    then show ?case
      using chunk_start_0 [OF encryptsD(1,2) [OF assms(1)]] encryptsD(4) [OF assms(1)]
      by (simp add: bytes_done_def)
  next
    case (Suc k)
    then have k: "k < get_num_chunks mcs (length data)" by simp
    with Suc bytes_done_Suc [OF assms(1) k]
      chunk_in_file(1) [OF encryptsD(1,2) [OF assms(1)] k] show ?case
      by (simp add: positions_eq)
  qed
  then show ?thesis using assms(3,4) by (simp add: get_processed_bytes_def)
qed

lemma known_hashes_key:
  assumes "2 \<le> k" "k < n" "length hs = n" "st_src_hashes st = partial n (Suc k) ((!) hs)"
  shows "get_pad_key_and_nonce C k (known_hashes C st) l = get_pad_key_and_nonce C k hs l"
  using assms by (auto simp: get_pad_key_and_nonce_def get_n_1_n_2_def known_hashes_def nth_opt_def)

lemma can_encrypt_read:
  assumes "2 \<le> k" "k < n" "total_chunks st = n" "st_src_hashes st = partial n (Suc k) f"
  shows "can_encrypt_chunk st k"
  using assms by (auto simp: can_encrypt_chunk_def get_n_1_n_2_def has_hash_def nth_opt_def)

text \<open>One iteration of the loop processes the next chunk when all of it is in the buffer.\<close>

lemma process_chunk_reading:
  assumes enc: "encrypts C mcs data ecs" and rd: "reading C mcs data ecs k st"
    and k: "k < get_num_chunks mcs (length data)"
    and full: "get_chunk_size mcs (length data) k \<le> length (buffer st)"
  shows "\<exists>st'. process_chunk C st 0 (get_chunk_size mcs (length data) k) =
           (if k < 2 then Continue st' else Yield (ecs ! k) st') \<and>
         reading C mcs data ecs (Suc k) st' \<and> data_iter st' = data_iter st \<and>
         input_complete st' = input_complete st"
proof -
  let ?n = "get_num_chunks mcs (length data)" and ?sz = "get_chunk_size mcs (length data) k"
  let ?fc = "file_chunk mcs data k"
  note e = encryptsD [OF enc]
  have st: "data_size st = length data" "chunks_processed st = k" "total_chunks st = ?n"
    "st_src_hashes st = partial ?n k ((!) (src_hashes C mcs data))"
    "st_chunk_infos st = partial ?n k (stream_info C mcs data ecs 0)"
    "deferred_chunks st = partial 2 k (file_chunk mcs data)"
    "buffer st @ concat (data_iter st) = drop (bytes_done mcs data k) data"
    "input_complete st \<longrightarrow> data_iter st = []" "idle st"
    using rd by (simp_all add: reading_def Let_def)
  have bd: "bytes_done mcs data k = chunk_start mcs (length data) k"
    "bytes_done mcs data (Suc k) = bytes_done mcs data k + ?sz"
    "chunk_end mcs (length data) k = bytes_done mcs data k + ?sz"
    using bytes_done_Suc [OF enc k] by simp_all
  have data: "slice_of 0 ?sz (buffer st) = ?fc"
  proof -
    have "slice_of 0 ?sz (buffer st) = take ?sz (buffer st @ concat (data_iter st))"
      using full by (simp add: slice_of_def)
    then show ?thesis unfolding st(7) using bd by (simp add: file_chunk_eq slice_of_def)
  qed
  have rest: "drop ?sz (buffer st) @ concat (data_iter st) = drop (bytes_done mcs data (Suc k)) data"
  proof -
    have "drop ?sz (buffer st) @ concat (data_iter st) = drop ?sz (buffer st @ concat (data_iter st))"
      using full by simp
    then show ?thesis unfolding st(7) by (simp add: bd(2) add.commute)
  qed
  have len: "length ?fc = chunk_end mcs (length data) k - chunk_start mcs (length data) k"
    using length_file_chunk [OF e(1,2) k] bd by simp
  have hash: "content_hash C ?fc = src_hashes C mcs data ! k" using k by (simp add: src_hashes_def)
  have hs: "(partial ?n k ((!) (src_hashes C mcs data)))[k := Some (content_hash C ?fc)] =
      partial ?n (Suc k) ((!) (src_hashes C mcs data))"
    using k hash by (intro partial_update) simp_all
  let ?info = "\<lambda>e. \<lparr>index = k, dst_hash = content_hash C e, src_hash = content_hash C ?fc, src_size = length ?fc\<rparr>"
  have infos: "(partial ?n k (stream_info C mcs data ecs 0))[k := Some (?info (if k < 2 then [] else ecs ! k))] =
      partial ?n (Suc k) (stream_info C mcs data ecs 0)"
    using k len by (intro partial_update) (simp_all add: stream_info_def info_nth_def)
  show ?thesis
  proof (cases "k < 2")
    case True
    have def: "(partial 2 k (file_chunk mcs data))[k := Some ?fc] = partial 2 (Suc k) (file_chunk mcs data)"
      using True by (intro partial_update) simp_all
    show ?thesis
      using True k st rest full hs infos def
      by (auto simp: process_chunk_def data Let_def drain_chunk_def reading_def idle_def)
  next
    case False
    let ?st2 = "st\<lparr>st_src_hashes := partial ?n (Suc k) ((!) (src_hashes C mcs data)),
       st_chunk_infos := (partial ?n k (stream_info C mcs data ecs 0))[k := Some (?info [])]\<rparr>"
    have "try_bind (get_pad_key_and_nonce C k (known_hashes C ?st2) 0) (encrypt_chunk C ?fc) = Inr (ecs ! k)"
      using e(5) [OF k] known_hashes_key [of k ?n "src_hashes C mcs data" ?st2 C 0] False k
      by (simp add: encrypt_nth_def)
    then have enc2: "stream_encrypt_chunk C ?st2 k ?fc =
        (Inr (ecs ! k), st\<lparr>st_src_hashes := partial ?n (Suc k) ((!) (src_hashes C mcs data)),
           st_chunk_infos := partial ?n (Suc k) (stream_info C mcs data ecs 0)\<rparr>)"
      using k infos False by (simp add: stream_encrypt_chunk_def set_dst_hash_def nth_opt_def)
    have "partial 2 k (file_chunk mcs data) = partial 2 (Suc k) (file_chunk mcs data)"
      using False by (intro nth_equalityI) auto
    moreover have "can_encrypt_chunk ?st2 k"
      using False k st(3) by (intro can_encrypt_read [of k ?n]) simp_all
    ultimately show ?thesis
      using False k st rest full hs enc2
      by (auto simp: process_chunk_def data Let_def drain_chunk_def reading_def idle_def)
  qed
qed

lemma process_one_reading:
  assumes enc: "encrypts C mcs data ecs" and rd: "reading C mcs data ecs k st"
    and k: "k < get_num_chunks mcs (length data)"
  shows "(\<exists>st'. process_one C mcs st = (if k < 2 then Continue st' else Yield (ecs ! k) st') \<and>
             reading C mcs data ecs (Suc k) st' \<and> data_iter st' = data_iter st \<and>
             input_complete st' = input_complete st) \<or>
         process_one C mcs st = Break \<and> \<not> input_complete st"
proof -
  let ?sz = "get_chunk_size mcs (length data) k"
  note e = encryptsD [OF enc]
  have st: "data_size st = length data" "chunks_processed st = k"
    "buffer st @ concat (data_iter st) = drop (bytes_done mcs data k) data"
    "input_complete st \<longrightarrow> data_iter st = []"
    using rd by (simp_all add: reading_def Let_def)
  have sz: "0 < ?sz" using chunk_size_pos [OF e(1,2) k] .
  have pos: "get_start_end_positions mcs (data_size st) (chunks_processed st) =
      (bytes_done mcs data k, bytes_done mcs data k + ?sz)"
    using bytes_done_Suc [OF enc k] st(1,2) by (simp add: positions_eq)
  have pb: "get_processed_bytes mcs st = bytes_done mcs data k"
    using processed_bytes [OF enc _ st(1,2)] k by simp
  have complete: "?sz \<le> length (buffer st)" if "input_complete st"
  proof -
    have "buffer st = drop (bytes_done mcs data k) data" using that st(3,4) by simp
    then show ?thesis using bytes_done_Suc [OF enc k] by simp
  qed
  show ?thesis
  proof (cases "?sz \<le> length (buffer st)")
    case True
    then have "process_one C mcs st = process_chunk C st 0 ?sz"
      using sz by (auto simp: process_one_def pos pb Let_def)
    then show ?thesis using process_chunk_reading [OF enc rd k True] by auto
  next
    case False
    then show ?thesis using complete by (auto simp: process_one_def pos pb Let_def)
  qed
qed

lemma process_loop_reading:
  assumes enc: "encrypts C mcs data ecs" and rd: "reading C mcs data ecs k st"
  shows "(\<exists>st' st0. process_loop C mcs st = (Yield (ecs ! max k 2) st', st0) \<and>
            max k 2 < get_num_chunks mcs (length data) \<and> reading C mcs data ecs (Suc (max k 2)) st' \<and>
            data_iter st' = data_iter st \<and> input_complete st' = input_complete st) \<or>
         (\<exists>st' k'. process_loop C mcs st = (Break, st') \<and> reading C mcs data ecs k' st' \<and>
            max k' 2 = max k 2 \<and> (k' < get_num_chunks mcs (length data) \<longrightarrow> \<not> input_complete st') \<and>
            (k < get_num_chunks mcs (length data) \<longrightarrow> k' < get_num_chunks mcs (length data)) \<and>
            data_iter st' = data_iter st \<and> input_complete st' = input_complete st)"
  using rd
proof (induction "get_num_chunks mcs (length data) - k" arbitrary: k st)
  case 0
  let ?n = "get_num_chunks mcs (length data)"
  have "chunks_processed st = k" "total_chunks st = ?n" "k = ?n"
    using 0 by (auto simp: reading_def Let_def)
  then have "process_loop C mcs st = (Break, st)" by (simp add: process_loop.simps)
  then show ?case using 0(2) \<open>k = ?n\<close> by auto
next
  case (Suc d)
  let ?n = "get_num_chunks mcs (length data)"
  have k: "k < ?n" using Suc(2) by simp
  have lt: "chunks_processed st < total_chunks st"
    using Suc(3) k by (auto simp: reading_def Let_def)
  from process_one_reading [OF enc Suc(3) k] show ?case
  proof (elim disjE exE conjE)
    fix st'
    assume one: "process_one C mcs st = (if k < 2 then Continue st' else Yield (ecs ! k) st')"
      and rd': "reading C mcs data ecs (Suc k) st'"
      and same: "data_iter st' = data_iter st" "input_complete st' = input_complete st"
    show ?thesis
    proof (cases "k < 2")
      case True
      then have loop: "process_loop C mcs st = process_loop C mcs st'"
        using lt one by (subst process_loop.simps) simp
      have mx: "max (Suc k) 2 = max k 2" using True by simp
      have "Suc k < ?n" using True encryptsD(4) [OF enc] by simp
      with Suc(1) [OF _ rd'] Suc(2) show ?thesis
        unfolding loop mx same by simp
    next
      case False
      then show ?thesis
        using lt one rd' same k by (subst (1) process_loop.simps) (simp add: max_def)
    qed
  next
    assume "process_one C mcs st = Break" "\<not> input_complete st"
    then show ?thesis using lt Suc(3) k by (subst (2) process_loop.simps) auto
  qed
qed

lemma try_process_reading:
  assumes enc: "encrypts C mcs data ecs" and rd: "reading C mcs data ecs k st"
    and k: "k < get_num_chunks mcs (length data)"
  shows "(\<exists>st'. try_process_chunks C mcs fuel st = Some (Inr (Some (Chunk (ecs ! max k 2))), st') \<and>
            reading C mcs data ecs (Suc (max k 2)) st') \<or>
         (\<exists>st' k'. try_process_chunks C mcs fuel st = Some (Inr None, st') \<and> reading C mcs data ecs k' st' \<and>
            max k' 2 = max k 2 \<and> k' < get_num_chunks mcs (length data) \<and> \<not> input_complete st \<and>
            \<not> input_complete st' \<and> data_iter st' = data_iter st)"
  using process_loop_reading [OF enc rd]
proof (elim disjE exE conjE)
  fix st' k'
  assume "process_loop C mcs st = (Break, st')" "reading C mcs data ecs k' st'" "max k' 2 = max k 2"
    "k' < get_num_chunks mcs (length data) \<longrightarrow> \<not> input_complete st'"
    "k < get_num_chunks mcs (length data) \<longrightarrow> k' < get_num_chunks mcs (length data)"
    "data_iter st' = data_iter st" "input_complete st' = input_complete st"
  with k show ?thesis by (intro disjI2 exI [of _ st'] exI [of _ k']) (auto simp: try_process_chunks_def)
qed (auto simp: try_process_chunks_def)

lemma reading_feed:
  "reading C mcs data ecs k st \<Longrightarrow> data_iter st = d # rest \<Longrightarrow>
     reading C mcs data ecs k (st\<lparr>data_iter := rest, buffer := buffer st @ d\<rparr>)"
  by (auto simp: reading_def Let_def idle_def)

lemma reading_eof:
  "reading C mcs data ecs k st \<Longrightarrow> data_iter st = [] \<Longrightarrow>
     reading C mcs data ecs k (st\<lparr>input_complete := True\<rparr>)"
  by (auto simp: reading_def Let_def idle_def)

lemma reading_idle: "reading C mcs data ecs k st \<Longrightarrow> \<not> is_complete st \<and> shrinking_chunks st = []"
  by (auto simp: reading_def Let_def idle_def)

lemma next_reading:
  assumes enc: "encrypts C mcs data ecs" and rd: "reading C mcs data ecs k st"
    and k: "k < get_num_chunks mcs (length data)" and items: "items = data_iter st"
  shows "\<exists>st'. next_loop C mcs fuel items st = Some (Some (Inr (Chunk (ecs ! max k 2))), st') \<and>
               reading C mcs data ecs (Suc (max k 2)) st'"
  using rd k items
proof (induction items arbitrary: k st)
  case Nil
  from try_process_reading [OF enc Nil(1,2), of fuel] show ?case
  proof (elim disjE exE conjE)
    fix st' k'
    assume t: "try_process_chunks C mcs fuel st = Some (Inr None, st')" and r: "reading C mcs data ecs k' st'"
      and mx: "max k' 2 = max k 2" "k' < get_num_chunks mcs (length data)"
      and c: "\<not> input_complete st'" "data_iter st' = data_iter st"
    have "reading C mcs data ecs k' (st'\<lparr>input_complete := True\<rparr>)"
      using reading_eof [OF r] c(2) Nil(3) by simp
    from try_process_reading [OF enc this mx(2), of fuel] show ?thesis
      using t c(1) reading_idle [OF Nil(1)] mx(1) by (auto simp: next_loop.simps [of _ _ _ _ st])
  qed (use reading_idle [OF Nil(1)] in \<open>auto simp: next_loop.simps\<close>)
next
  case (Cons d items)
  from try_process_reading [OF enc Cons(2,3), of fuel] show ?case
  proof (elim disjE exE conjE)
    fix st' k'
    assume t: "try_process_chunks C mcs fuel st = Some (Inr None, st')" and r: "reading C mcs data ecs k' st'"
      and mx: "max k' 2 = max k 2" "k' < get_num_chunks mcs (length data)"
      and c: "\<not> input_complete st'" "data_iter st' = data_iter st"
    have it: "data_iter st' = d # items" using c(2) Cons(4) by simp
    note feed = reading_feed [OF r it]
    from try_process_reading [OF enc feed mx(2), of fuel] show ?thesis
    proof (elim disjE exE conjE)
      fix st2 k2
      assume "try_process_chunks C mcs fuel (st'\<lparr>data_iter := items, buffer := buffer st' @ d\<rparr>) = Some (Inr None, st2)"
        "reading C mcs data ecs k2 st2" "max k2 2 = max k' 2" "k2 < get_num_chunks mcs (length data)"
        "data_iter st2 = data_iter (st'\<lparr>data_iter := items, buffer := buffer st' @ d\<rparr>)"
      then show ?thesis
        using Cons(1) [of k2 st2] t c(1) mx(1) reading_idle [OF Cons(2)]
        by (simp add: next_loop.simps [of _ _ _ _ st])
    qed (use t c(1) mx(1) reading_idle [OF Cons(2)] in \<open>auto simp: next_loop.simps [of _ _ _ _ st]\<close>)
  qed (use reading_idle [OF Cons(2)] in \<open>auto simp: next_loop.simps\<close>)
qed

section \<open>The deferred chunks\<close>

definition finishing :: "se_env \<Rightarrow> nat \<Rightarrow> bytes \<Rightarrow> bytes list \<Rightarrow> nat \<Rightarrow> EncryptionStream \<Rightarrow> bool" where
  "finishing C mcs data ecs j st \<longleftrightarrow>
     (let n = get_num_chunks mcs (length data) in
      chunks_processed st = n \<and> total_chunks st = n \<and>
      st_src_hashes st = partial n n ((!) (src_hashes C mcs data)) \<and>
      st_chunk_infos st = partial n n (stream_info C mcs data ecs j) \<and>
      deferred_chunks st = map (\<lambda>i. if j \<le> i then Some (file_chunk mcs data i) else None) [0, 1] \<and>
      input_complete st \<and> idle st)"

lemma reading_finishing:
  assumes "reading C mcs data ecs (get_num_chunks mcs (length data)) st" "input_complete st"
    and "encrypts C mcs data ecs"
  shows "finishing C mcs data ecs 0 st"
proof -
  have "partial 2 (get_num_chunks mcs (length data)) (file_chunk mcs data) =
      map (\<lambda>i. Some (file_chunk mcs data i)) [0, 1]"
    using encryptsD(4) [OF assms(3)] by (auto simp: partial_def upt_rec numeral_2_eq_2)
  then show ?thesis using assms by (simp add: reading_def finishing_def Let_def)
qed

lemma upt_0_2 [simp]: "[0..<2] = [0, 1]"
  by (simp add: upt_rec numeral_2_eq_2)

lemma collected_hashes:
  assumes "st_src_hashes st = partial n n f" "n = length hs" "f = (!) hs"
  shows "traverse (\<lambda>(i, h). ok_or (err i) h) (enumerate 0 (st_src_hashes st)) = Inr hs"
  using assms by (auto simp: traverse_Inr_iff list_all2_conv_all_nth nth_enumerate_eq)

lemma finalize_finishing:
  assumes enc: "encrypts C mcs data ecs" and fin: "finishing C mcs data ecs j st" and j: "j < 2"
  shows "\<exists>st'. finalize_encryption C mcs fuel st = Some (Inr (Some (Chunk (ecs ! j))), st') \<and>
               finishing C mcs data ecs (Suc j) st'"
proof -
  let ?n = "get_num_chunks mcs (length data)" and ?hs = "src_hashes C mcs data"
  note e = encryptsD [OF enc]
  have st: "chunks_processed st = ?n" "total_chunks st = ?n" "st_src_hashes st = partial ?n ?n ((!) ?hs)"
    "st_chunk_infos st = partial ?n ?n (stream_info C mcs data ecs j)"
    "deferred_chunks st = map (\<lambda>i. if j \<le> i then Some (file_chunk mcs data i) else None) [0, 1]"
    "input_complete st" "idle st"
    using fin by (auto simp: finishing_def Let_def)
  have enc_j: "try_bind (get_pad_key_and_nonce C j ?hs 0) (encrypt_chunk C (file_chunk mcs data j)) = Inr (ecs ! j)"
    using e(5) [of j] j e(4) by (simp add: encrypt_nth_def)
  have hashes: "traverse (\<lambda>(i, h). ok_or (Generic (MissingSourceHash i)) h) (enumerate 0 (st_src_hashes st)) = Inr ?hs"
    using st(3) by (rule collected_hashes) simp_all
  have infos: "(partial ?n ?n (stream_info C mcs data ecs j))[j := Some (stream_info C mcs data ecs (Suc j) j)] =
      partial ?n ?n (stream_info C mcs data ecs (Suc j))"
    using j e(4) by (intro partial_full_update) (auto simp: stream_info_def)
  have upd: "(stream_info C mcs data ecs j j)\<lparr>dst_hash := content_hash C (ecs ! j)\<rparr> = stream_info C mcs data ecs (Suc j) j"
    by (simp add: stream_info_def info_nth_def)
  have two: "[0..<min 2 ?n] = [0, 1]" using e(4) by (simp add: min_def upt_rec numeral_2_eq_2)
  have "j = 0 \<or> j = 1" using j by auto
  then show ?thesis
    using st(1-7) enc_j hashes infos upd e(4)
    by (auto simp: finalize_encryption_def idle_def two nth_opt_def set_dst_hash_def Let_def finishing_def)
qed

lemma finalize_shrink:
  assumes enc: "encrypts C mcs data ecs" and fin: "finishing C mcs data ecs 2 st"
    and shr: "shrink_data_map C mcs fuel (\<lambda>s h c. Inr s) () (map_of_chunks C mcs data ecs) [] =
              Some (Inr (dm, shrunk, s))"
  shows "finalize_encryption C mcs fuel st = Some (finish_shrinking dm shrunk st)"
proof -
  let ?n = "get_num_chunks mcs (length data)" and ?hs = "src_hashes C mcs data"
  note e = encryptsD [OF enc]
  have hashes: "traverse (\<lambda>(i, h). ok_or (Generic (MissingSourceHash i)) h) (enumerate 0 (st_src_hashes st)) = Inr ?hs"
    using fin by (intro collected_hashes [of _ ?n "(!) ?hs"]) (auto simp: finishing_def Let_def)
  have "traverse (ok_or (Generic MissingChunkInfo)) (st_chunk_infos st) = Inr (infos (map_of_chunks C mcs data ecs))"
    using fin e(3)
    by (auto simp: finishing_def Let_def traverse_Inr_iff list_all2_conv_all_nth nth_enumerate_eq stream_info_def)
  moreover have "DataMap_new (sort_key index (infos (map_of_chunks C mcs data ecs))) = map_of_chunks C mcs data ecs"
    using map_of_chunks_sorted [of C mcs data ecs] by (simp add: DataMap_new_def map_of_chunks_def infos_def)
  moreover have two: "[0..<min 2 ?n] = [0, 1]" using e(4) by (simp add: min_def upt_rec numeral_2_eq_2)
  ultimately show ?thesis
    using fin hashes shr
    by (simp add: finalize_encryption_def finishing_def Let_def idle_def nth_opt_def)
qed

lemma next_to_finishing:
  assumes enc: "encrypts C mcs data ecs"
    and rd: "reading C mcs data ecs (get_num_chunks mcs (length data)) st" and items: "items = data_iter st"
  shows "\<exists>st'. next_loop C mcs fuel items st = Some (Some (Inr (Chunk (ecs ! 0))), st') \<and>
               finishing C mcs data ecs 1 st'"
  using rd items
proof (induction items arbitrary: st)
  case Nil
  let ?st = "st\<lparr>input_complete := True\<rparr>"
  have loop: "process_loop C mcs st = (Break, st)" "process_loop C mcs ?st = (Break, ?st)"
    using Nil(1) by (auto simp: reading_def Let_def process_loop.simps)
  have "finishing C mcs data ecs 0 ?st" using reading_eof [OF Nil(1)] Nil(2) enc by (auto intro: reading_finishing)
  from finalize_finishing [OF enc this, of fuel] obtain st'
    where f: "finalize_encryption C mcs fuel ?st = Some (Inr (Some (Chunk (ecs ! 0))), st')" "finishing C mcs data ecs 1 st'"
    by auto
  have fully: "total_chunks st \<le> chunks_processed st" using Nil(1) by (auto simp: reading_def Let_def)
  show ?case
  proof (cases "input_complete st")
    case True
    then have "?st = st" by simp
    with f loop True fully reading_idle [OF Nil(1)] show ?thesis
      by (simp add: next_loop.simps try_process_chunks_def)
  next
    case False
    with f loop fully reading_idle [OF Nil(1)] show ?thesis
      by (simp add: next_loop.simps try_process_chunks_def)
  qed
next
  case (Cons d items)
  have c: "\<not> input_complete st" and fully: "total_chunks st \<le> chunks_processed st"
    using Cons(2,3) by (auto simp: reading_def Let_def)
  let ?st = "st\<lparr>data_iter := items, buffer := buffer st @ d\<rparr>"
  have r: "reading C mcs data ecs (get_num_chunks mcs (length data)) ?st"
    using reading_feed [OF Cons(2)] Cons(3) by simp
  have loop: "process_loop C mcs st = (Break, st)" "process_loop C mcs ?st = (Break, ?st)"
    using Cons(2) by (auto simp: reading_def Let_def process_loop.simps)
  have "next_loop C mcs fuel (d # items) st = next_loop C mcs fuel items ?st"
    using c loop reading_idle [OF Cons(2)] by (simp add: next_loop.simps [of _ _ _ _ st] try_process_chunks_def)
  then show ?case using Cons(1) [OF r] by simp
qed

lemma next_finishing:
  assumes enc: "encrypts C mcs data ecs" and fin: "finishing C mcs data ecs j st"
  shows "next_loop C mcs fuel items st =
    (case finalize_encryption C mcs fuel st of
       None \<Rightarrow> None
     | Some (Inr (Some r), st1) \<Rightarrow> Some (Some (Inr r), st1)
     | Some (Inl e, st1) \<Rightarrow> Some (Some (Inl e), st1)
     | Some (Inr None, st1) \<Rightarrow> next_loop C mcs fuel items st)"
proof -
  have "process_loop C mcs st = (Break, st)" and "\<not> is_complete st" "shrinking_chunks st = []"
    and "input_complete st" "total_chunks st \<le> chunks_processed st"
    using fin by (auto simp: finishing_def Let_def process_loop.simps idle_def)
  then have "try_process_chunks C mcs fuel st = finalize_encryption C mcs fuel st"
    by (simp add: try_process_chunks_def)
  then show ?thesis
    using \<open>\<not> is_complete st\<close> \<open>shrinking_chunks st = []\<close>
    by (auto simp: next_loop.simps [of _ _ _ _ st] split: option.splits sum.splits prod.splits)
qed

section \<open>The chunks of the shrunk map\<close>

lemma shrink_pushing_grows:
  "shrink_pushing C mcs fuel dm pushed = Some (Inr (dm', pushed')) \<Longrightarrow> length pushed \<le> length pushed'"
proof (induction fuel arbitrary: dm pushed)
  case (Suc fuel)
  then show ?case by (fastforce split: if_splits sum.splits option.splits prod.splits)
qed simp

lemma encrypt_level_chunks:
  assumes "encrypt_with_child_level C mcs fuel data l = Some (Inr (dm, chunks))" "0 < mcs"
  shows "3 \<le> length chunks"
proof (cases fuel)
  case (Suc f)
  then obtain m ecs where lvl: "encrypt_one_level C mcs data l = Inr (m, ecs)"
    and shr: "shrink_pushing C mcs f m ecs = Some (Inr (dm, chunks))"
    using assms(1) by (auto split: sum.splits)
  have "3 \<le> length ecs"
    using one_level_okE [OF lvl assms(2)] num_chunks_ge_3 [OF assms(2)] by metis
  then show ?thesis using shrink_pushing_grows [OF shr] by simp
qed (use assms in simp)

lemma shrunk_chunks:
  assumes "shrink_data_map C mcs fuel store s dm all = Some (Inr (dm', all', s'))" "0 < mcs"
  shows "all' = all \<or> length all + 3 \<le> length all'"
  using assms(1)
proof (induction fuel arbitrary: s dm all)
  case (Suc fuel)
  then show ?case
    by (fastforce split: if_splits sum.splits option.splits prod.splits
        dest: encrypt_level_chunks [OF _ assms(2)])
qed simp

lemma shrink_pushing_ignoring:
  "shrink_pushing C mcs fuel dm (p @ all) =
     map_option (map_sum id (\<lambda>(dm', all', s). (dm', p @ all')))
       (shrink_data_map C mcs fuel (\<lambda>s h c. Inr s) () dm all)"
proof (induction fuel arbitrary: dm all)
  case (Suc fuel)
  have "store_chunks C (\<lambda>s h c. Inr s) () cs = Inr ()" for cs by (induction cs) auto
  with Suc show ?case by (auto split: sum.splits option.splits prod.splits)
qed simp

definition shrinking :: "DataMap \<Rightarrow> bytes list \<Rightarrow> nat \<Rightarrow> EncryptionStream \<Rightarrow> bool" where
  "shrinking dm shrunk j st \<longleftrightarrow>
     shrinking_chunks st = shrunk \<and> shrinking_chunk_index st = j \<and> final_datamap st = Some dm \<and>
     (is_complete st \<longleftrightarrow> length shrunk \<le> j)"

text \<open>Collecting \<open>ChunkStream\<close> until it ends or fails, in at most the given number of calls.\<close>

fun collect_chunks ::
  "se_env \<Rightarrow> nat \<Rightarrow> nat \<Rightarrow> nat \<Rightarrow> EncryptionStream
     \<Rightarrow> ((xorname \<times> bytes) list se_result \<times> EncryptionStream) option" where
  "collect_chunks C mcs fuel 0 st = None"
| "collect_chunks C mcs fuel (Suc calls) st =
     (case ChunkStream_next C mcs fuel st of
        None \<Rightarrow> None
      | Some (None, st') \<Rightarrow> Some (Inr [], st')
      | Some (Some (Inl e), st') \<Rightarrow> Some (Inl e, st')
      | Some (Some (Inr c), st') \<Rightarrow>
          map_option (\<lambda>(r, s). (map_sum id ((#) c) r, s)) (collect_chunks C mcs fuel calls st'))"

text \<open>
  \<open>produces\<close>: within the given number of calls the stream delivers exactly these chunks, with
  their hashes, and ends with this data map.
\<close>

definition produces ::
  "se_env \<Rightarrow> nat \<Rightarrow> nat \<Rightarrow> nat \<Rightarrow> bytes list \<Rightarrow> DataMap \<Rightarrow> EncryptionStream \<Rightarrow> bool" where
  "produces C mcs fuel calls cs dm st \<longleftrightarrow>
     (\<exists>st'. collect_chunks C mcs fuel calls st = Some (Inr (map (\<lambda>c. (content_hash C c, c)) cs), st') \<and>
            into_datamap st' = Some dm)"

lemma produces_chunk:
  assumes "next_internal C mcs fuel st = Some (Some (Inr (Chunk c)), st')" "produces C mcs fuel calls cs dm st'"
  shows "produces C mcs fuel (Suc calls) (c # cs) dm st"
  using assms by (auto simp: produces_def ChunkStream_next_def)

lemma produces_end:
  assumes "next_internal C mcs fuel st = Some (Some (Inr (FinalMap dm)), st')"
  shows "produces C mcs fuel (Suc calls) [] dm st"
  using assms by (auto simp: produces_def ChunkStream_next_def into_datamap_def)

lemma produces_shrinking:
  assumes "shrinking dm shrunk j st" "length shrunk - j < calls" "j \<le> length shrunk"
  shows "produces C mcs fuel calls (drop j shrunk) dm st"
  using assms
proof (induction "length shrunk - j" arbitrary: j st calls)
  case 0
  then have "next_internal C mcs fuel st = Some (Some (Inr (FinalMap dm)), st)"
    by (auto simp: shrinking_def next_internal_def next_loop.simps)
  moreover obtain m where "calls = Suc m" using 0 by (cases calls) auto
  ultimately show ?case using 0 by (auto intro: produces_end)
next
  case (Suc d)
  obtain m where m: "calls = Suc m" using Suc(4) by (cases calls) auto
  let ?st = "st\<lparr>shrinking_chunk_index := j + 1,
                is_complete := (length (shrinking_chunks st) \<le> j + 1 \<or> is_complete st)\<rparr>"
  have j: "j < length shrunk" using Suc(2) by simp
  have "next_internal C mcs fuel st = Some (Some (Inr (Chunk (shrunk ! j))), ?st)"
    using Suc(3) j by (auto simp: shrinking_def next_internal_def next_loop.simps yield_shrinking_def)
  moreover have "produces C mcs fuel m (drop (Suc j) shrunk) dm ?st"
    using Suc j m by (intro Suc(1)) (auto simp: shrinking_def)
  ultimately show ?case
    unfolding m using j by (simp add: Cons_nth_drop_Suc [symmetric] produces_chunk)
qed

lemma produces_finishing_2:
  assumes enc: "encrypts C mcs data ecs" and fin: "finishing C mcs data ecs 2 st"
    and shr: "shrink_data_map C mcs fuel (\<lambda>s h c. Inr s) () (map_of_chunks C mcs data ecs) [] =
              Some (Inr (dm, shrunk, s))"
    and calls: "length shrunk < calls"
  shows "produces C mcs fuel calls shrunk dm st"
proof -
  obtain m where m: "calls = Suc m" using calls by (cases calls) auto
  have f: "next_internal C mcs fuel st =
      (case finish_shrinking dm shrunk st of
         (Inr (Some r), st1) \<Rightarrow> Some (Some (Inr r), st1)
       | (Inl e, st1) \<Rightarrow> Some (Some (Inl e), st1)
       | (Inr None, st1) \<Rightarrow> next_loop C mcs fuel (data_iter st) st)"
    unfolding next_internal_def
    by (subst next_finishing [OF enc fin]) (simp add: finalize_shrink [OF enc fin shr])
  have idx: "shrinking_chunk_index st = 0" "\<not> is_complete st"
    using fin by (auto simp: finishing_def Let_def idle_def)
  show ?thesis
  proof (cases shrunk)
    case Nil
    then show ?thesis using f m idx by (auto simp: finish_shrinking_def intro: produces_end)
  next
    case (Cons c cs)
    let ?st = "st\<lparr>shrinking_chunks := shrunk, final_datamap := Some dm, shrinking_chunk_index := 1\<rparr>"
    have two: "2 \<le> length shrunk" using shrunk_chunks [OF shr encryptsD(1) [OF enc]] Cons by auto
    have "next_internal C mcs fuel st = Some (Some (Inr (Chunk c)), ?st)"
      using f idx Cons by (simp add: finish_shrinking_def)
    moreover have "produces C mcs fuel m (drop 1 shrunk) dm ?st"
      using two calls m idx by (intro produces_shrinking) (auto simp: shrinking_def)
    ultimately show ?thesis unfolding m using Cons by (auto intro: produces_chunk)
  qed
qed

section \<open>The whole stream\<close>

lemma produces_finishing:
  assumes enc: "encrypts C mcs data ecs" and fin: "finishing C mcs data ecs 1 st"
    and shr: "shrink_data_map C mcs fuel (\<lambda>s h c. Inr s) () (map_of_chunks C mcs data ecs) [] =
              Some (Inr (dm, shrunk, s))"
    and calls: "length shrunk < calls"
  shows "produces C mcs fuel (Suc calls) (ecs ! 1 # shrunk) dm st"
proof -
  obtain st' where f: "finalize_encryption C mcs fuel st = Some (Inr (Some (Chunk (ecs ! 1))), st')"
    "finishing C mcs data ecs 2 st'"
    using finalize_finishing [OF enc fin, of fuel] by (auto simp: numeral_2_eq_2)
  have "next_internal C mcs fuel st = Some (Some (Inr (Chunk (ecs ! 1))), st')"
    unfolding next_internal_def by (subst next_finishing [OF enc fin]) (simp add: f(1))
  then show ?thesis using produces_finishing_2 [OF enc f(2) shr calls] by (rule produces_chunk)
qed

lemma produces_reading:
  assumes enc: "encrypts C mcs data ecs" and rd: "reading C mcs data ecs k st"
    and shr: "shrink_data_map C mcs fuel (\<lambda>s h c. Inr s) () (map_of_chunks C mcs data ecs) [] =
              Some (Inr (dm, shrunk, s))"
    and calls: "length shrunk < calls"
  shows "produces C mcs fuel (length ecs - max k 2 + 2 + calls)
           (drop (max k 2) ecs @ [ecs ! 0, ecs ! 1] @ shrunk) dm st"
  using rd
proof (induction "length ecs - k" arbitrary: k st rule: less_induct)
  case (less k st)
  note e = encryptsD [OF enc]
  have le: "k \<le> length ecs" using less.prems e(3) by (auto simp: reading_def Let_def)
  show ?case
  proof (cases "k < length ecs")
    case True
    then obtain st' where n: "next_internal C mcs fuel st = Some (Some (Inr (Chunk (ecs ! max k 2))), st')"
      "reading C mcs data ecs (Suc (max k 2)) st'"
      using next_reading [OF enc less.prems _ refl] e(3) by (auto simp: next_internal_def)
    have m: "max k 2 < length ecs" "max (Suc (max k 2)) 2 = Suc (max k 2)" using True e(3,4) by auto
    have "produces C mcs fuel (length ecs - Suc (max k 2) + 2 + calls)
        (drop (Suc (max k 2)) ecs @ [ecs ! 0, ecs ! 1] @ shrunk) dm st'"
      using less.hyps [OF _ n(2)] m(1) unfolding m(2) by linarith
    from produces_chunk [OF n(1) this] show ?thesis
      using m(1) by (simp add: Cons_nth_drop_Suc [symmetric] Suc_diff_Suc)
  next
    case False
    then have k: "k = get_num_chunks mcs (length data)" "max k 2 = length ecs" using le e(3,4) by auto
    then obtain st' where n: "next_internal C mcs fuel st = Some (Some (Inr (Chunk (ecs ! 0))), st')"
      "finishing C mcs data ecs 1 st'"
      using next_to_finishing [OF enc _ refl] less.prems by (auto simp: next_internal_def)
    from produces_chunk [OF n(1) produces_finishing [OF enc n(2) shr calls]] show ?thesis
      by (simp add: k(2))
  qed
qed

lemma reading_new:
  assumes "encrypts C mcs data ecs" "concat items = data"
  shows "\<exists>st. stream_encrypt mcs (length data) items = Inr st \<and> reading C mcs data ecs 0 st"
  using encryptsD [OF assms(1)] assms(2) chunk_start_0 [of mcs "length data"]
  by (auto simp: stream_encrypt_def EncryptionStream_new_def Let_def MIN_ENCRYPTABLE_BYTES_def
      MIN_CHUNK_SIZE_def reading_def partial_0 numeral_2_eq_2 bytes_done_def idle_def)

lemma encrypts_one_level:
  assumes "encrypt_one_level C mcs data 0 = Inr (m, ecs)" "0 < mcs"
  shows "encrypts C mcs data ecs \<and> m = map_of_chunks C mcs data ecs"
  using assms by (auto simp: encrypts_def elim!: one_level_okE)

lemma stream_encrypt_produces:
  assumes "0 < mcs" "encrypt C mcs (Suc fuel) data = Some (Inr (dm, chunks))" "concat items = data"
  obtains st ecs shrunk where "stream_encrypt mcs (length data) items = Inr st" "chunks = ecs @ shrunk"
    "length ecs = get_num_chunks mcs (length data)"
    "produces C mcs fuel (length chunks + 1) (drop 2 ecs @ take 2 ecs @ shrunk) dm st"
proof -
  obtain m ecs where lvl: "encrypt_one_level C mcs data 0 = Inr (m, ecs)"
    and shr: "shrink_pushing C mcs fuel m ecs = Some (Inr (dm, chunks))"
    using assms(2) by (auto simp: encrypt_def split: sum.splits)
  have enc: "encrypts C mcs data ecs" and m: "m = map_of_chunks C mcs data ecs"
    using encrypts_one_level [OF lvl assms(1)] by auto
  note e = encryptsD [OF enc]
  obtain shrunk s where sh: "shrink_data_map C mcs fuel (\<lambda>s h c. Inr s) () m [] = Some (Inr (dm, shrunk, s))"
    and chunks: "chunks = ecs @ shrunk"
    using shrink_pushing_ignoring [of C mcs fuel m ecs "[]"] shr
    by (auto simp: map_option_case map_sum_def split: option.splits sum.splits)
  obtain st where st: "stream_encrypt mcs (length data) items = Inr st" "reading C mcs data ecs 0 st"
    using reading_new [OF enc assms(3)] by blast
  have "produces C mcs fuel (length ecs - 2 + 2 + (length shrunk + 1)) (drop 2 ecs @ [ecs ! 0, ecs ! 1] @ shrunk) dm st"
    using produces_reading [OF enc st(2) sh [unfolded m], of "length shrunk + 1"] by simp
  moreover have "length ecs - 2 + 2 + (length shrunk + 1) = length chunks + 1" using e(3,4) chunks by simp
  moreover have "[ecs ! 0, ecs ! 1] = take 2 ecs"
    using e(3,4) by (intro nth_equalityI) (auto simp: less_Suc_eq nth_Cons split: nat.splits)
  ultimately have "produces C mcs fuel (length chunks + 1) (drop 2 ecs @ take 2 ecs @ shrunk) dm st"
    by (simp only:)
  with st(1) chunks e(3) that show thesis by blast
qed

section \<open>Properties\<close>

text \<open>
  C14: streaming encryption computes the same encryption as \<open>encrypt\<close>, however the input is cut
  into pieces. Whenever \<open>encrypt\<close> returns a data map and chunks, a stream over pieces of the same
  data delivers the same chunks in a fixed other order (the third to the last, then the first
  and second, then the chunks of the data map itself), each with its content hash, in one call
  more than there are chunks, and ends with the same data map.
\<close>

theorem stream_encrypt_refines_encrypt:
  assumes "0 < mcs" "encrypt C mcs (Suc fuel) data = Some (Inr (dm, chunks))" "concat items = data"
  shows "\<exists>st st' ecs shrunk.
           stream_encrypt mcs (length data) items = Inr st \<and>
           chunks = ecs @ shrunk \<and> length ecs = get_num_chunks mcs (length data) \<and>
           collect_chunks C mcs fuel (length chunks + 1) st =
             Some (Inr (map (\<lambda>c. (content_hash C c, c)) (drop 2 ecs @ take 2 ecs @ shrunk)), st') \<and>
           into_datamap st' = Some dm"
proof -
  obtain st ecs shrunk where st: "stream_encrypt mcs (length data) items = Inr st" "chunks = ecs @ shrunk"
    "length ecs = get_num_chunks mcs (length data)"
    "produces C mcs fuel (length chunks + 1) (drop 2 ecs @ take 2 ecs @ shrunk) dm st"
    by (rule stream_encrypt_produces [OF assms])
  from st(4) obtain st' where "collect_chunks C mcs fuel (length chunks + 1) st =
      Some (Inr (map (\<lambda>c. (content_hash C c, c)) (drop 2 ecs @ take 2 ecs @ shrunk)), st')"
    "into_datamap st' = Some dm"
    unfolding produces_def by blast
  then show ?thesis using st(1-3) by blast
qed

lemma stream_encrypt_refines_encrypt_witness:
  "\<exists>st st' dm. stream_encrypt 160 3 [[1], [], [2, 3]] = Inr st \<and>
     collect_chunks sample_env 160 7 4 st =
       Some (Inr (map (\<lambda>c. (content_hash sample_env c, c)) [[3], [1], [2]]), st') \<and>
     into_datamap st' = Some dm \<and> encrypt sample_env 160 8 [1, 2, 3] = Some (Inr (dm, [[1], [2], [3]]))"
proof -
  obtain dm where e: "encrypt sample_env 160 (Suc 7) [1, 2, 3] = Some (Inr (dm, [[1], [2], [3]]))"
    using sample_encrypt by auto
  obtain st st' ecs shrunk where r: "stream_encrypt 160 3 [[1], [], [2, 3]] = Inr st"
    "[[1], [2], [3]] = ecs @ shrunk" "length ecs = get_num_chunks 160 3"
    "collect_chunks sample_env 160 7 4 st =
       Some (Inr (map (\<lambda>c. (content_hash sample_env c, c)) (drop 2 ecs @ take 2 ecs @ shrunk)), st')"
    "into_datamap st' = Some dm"
    using stream_encrypt_refines_encrypt [OF _ e, of "[[1], [], [2, 3]]"] by (auto simp: eval_nat_numeral)
  have "length ecs = 3" using r(3) by (simp add: chunking_defs)
  then have "shrunk = []" "ecs = [[1], [2], [3]]" using r(2) by (auto dest: arg_cong [of _ _ length])
  then show ?thesis using r e by (auto simp: eval_nat_numeral)
qed

end
