(* ===== verification/Pqc_Tunnel.thy ===== *)
theory Pqc_Tunnel
  imports Prelude
begin

unbundle bit_operations_syntax

text \<open>
  The application-layer post-quantum tunnel: \<open>src/ant-protocol/src/pqc_tunnel.rs\<close>. Envelopes,
  the session cipher and its nonces.

  ChaCha20-Poly1305 and BLAKE3 are fields of the record \<open>tunnel_env\<close>. A Rust array of fixed
  size is a byte list whose length is stated where it matters. The three pairs of envelope
  functions are instances of the interface \<open>envelope\<close>, whose laws are what the session layer
  relies on.
\<close>

section \<open>Constants and types\<close>

definition PQC_VERSION :: u16 where "PQC_VERSION = 2"
definition ML_KEM_768_EK_SIZE :: nat where "ML_KEM_768_EK_SIZE = 1184"
definition ML_KEM_768_CT_SIZE :: nat where "ML_KEM_768_CT_SIZE = 1088"
definition ML_DSA_65_PK_SIZE :: nat where "ML_DSA_65_PK_SIZE = 1952"
definition ML_DSA_65_SIG_SIZE :: nat where "ML_DSA_65_SIG_SIZE = 3309"
definition KDF_CONTEXT :: string where "KDF_CONTEXT = ''ant-wt-pqc-v1''"

definition AUTH_SIGN_CONTEXT :: bytes where
  "AUTH_SIGN_CONTEXT = map of_char ''ant-wt-auth-v1''"

datatype EnvelopeType = ClientHello | ServerAccept | Encrypted

definition envelope_byte :: "EnvelopeType \<Rightarrow> byte" where
  "envelope_byte t = (case t of ClientHello \<Rightarrow> 0x01 | ServerAccept \<Rightarrow> 0x02 | Encrypted \<Rightarrow> 0x03)"

definition from_byte :: "byte \<Rightarrow> EnvelopeType option" where
  "from_byte b =
     (if b = 0x01 then Some ClientHello
      else if b = 0x02 then Some ServerAccept
      else if b = 0x03 then Some Encrypted
      else None)"

datatype Direction = ClientToServer | ServerToClient

datatype TunnelError =
    EnvelopeTooShort EnvelopeType nat
  | EnvelopeWrongType EnvelopeType byte
  | UnsupportedVersion u16
  | EncryptionFailed
  | DecryptionFailed
  | AuthenticationFailed
  | PeerIdMismatch bytes bytes

section \<open>The session cipher\<close>

record tunnel_env =
  derive_key :: "string \<Rightarrow> bytes \<Rightarrow> bytes"
  aead_encrypt :: "bytes \<Rightarrow> bytes \<Rightarrow> bytes \<Rightarrow> bytes option"
  aead_decrypt :: "bytes \<Rightarrow> bytes \<Rightarrow> bytes \<Rightarrow> bytes option"
  hash32 :: "bytes \<Rightarrow> bytes"

definition tunnel_laws :: "tunnel_env \<Rightarrow> bool" where
  "tunnel_laws T \<longleftrightarrow>
     (\<forall>k n m c. aead_encrypt T k n m = Some c \<longrightarrow> aead_decrypt T k n c = Some m)"

record SessionCipher =
  key :: bytes

definition from_shared_secret :: "tunnel_env \<Rightarrow> bytes \<Rightarrow> SessionCipher" where
  "from_shared_secret T ss = \<lparr>key = derive_key T KDF_CONTEXT ss\<rparr>"

definition build_nonce :: "u32 \<Rightarrow> Direction \<Rightarrow> bytes" where
  "build_nonce stream_seq direction =
     u32_be stream_seq @ [case direction of ClientToServer \<Rightarrow> 0x00 | ServerToClient \<Rightarrow> 0x01]
       @ replicate 7 0"

definition session_encrypt ::
  "tunnel_env \<Rightarrow> SessionCipher \<Rightarrow> u32 \<Rightarrow> Direction \<Rightarrow> bytes \<Rightarrow> TunnelError + bytes" where
  "session_encrypt T c stream_seq direction plaintext =
     ok_or EncryptionFailed (aead_encrypt T (key c) (build_nonce stream_seq direction) plaintext)"

definition session_decrypt ::
  "tunnel_env \<Rightarrow> SessionCipher \<Rightarrow> u32 \<Rightarrow> Direction \<Rightarrow> bytes \<Rightarrow> TunnelError + bytes" where
  "session_decrypt T c stream_seq direction ciphertext =
     ok_or DecryptionFailed (aead_decrypt T (key c) (build_nonce stream_seq direction) ciphertext)"

section \<open>Envelopes\<close>

definition encode_client_hello :: "bytes \<Rightarrow> bytes" where
  "encode_client_hello ek_bytes = envelope_byte ClientHello # u16_be PQC_VERSION @ ek_bytes"

definition decode_client_hello :: "bytes \<Rightarrow> TunnelError + (u16 \<times> bytes)" where
  "decode_client_hello data =
     (if length data < 1 + 2 + ML_KEM_768_EK_SIZE then Inl (EnvelopeTooShort ClientHello (length data))
      else if data ! 0 \<noteq> envelope_byte ClientHello then Inl (EnvelopeWrongType ClientHello (data ! 0))
      else Inr (u16_of_be (slice_of 1 3 data), slice_of 3 (3 + ML_KEM_768_EK_SIZE) data))"

record ServerAcceptData =
  sa_version :: u16
  ct :: bytes
  pubkey :: bytes
  signature :: bytes

definition encode_server_accept :: "bytes \<Rightarrow> bytes \<Rightarrow> bytes \<Rightarrow> bytes" where
  "encode_server_accept ct_bytes pk sig =
     envelope_byte ServerAccept # u16_be PQC_VERSION @ ct_bytes @ pk @ sig"

definition decode_server_accept :: "bytes \<Rightarrow> TunnelError + ServerAcceptData" where
  "decode_server_accept data =
     (let ct_start = 3;
          pk_start = ct_start + ML_KEM_768_CT_SIZE;
          sig_start = pk_start + ML_DSA_65_PK_SIZE
      in if length data < 1 + 2 + ML_KEM_768_CT_SIZE + ML_DSA_65_PK_SIZE + ML_DSA_65_SIG_SIZE
         then Inl (EnvelopeTooShort ServerAccept (length data))
         else if data ! 0 \<noteq> envelope_byte ServerAccept
         then Inl (EnvelopeWrongType ServerAccept (data ! 0))
         else Inr \<lparr>sa_version = u16_of_be (slice_of 1 3 data),
                   ct = slice_of ct_start pk_start data,
                   pubkey = slice_of pk_start sig_start data,
                   signature = slice_of sig_start (sig_start + ML_DSA_65_SIG_SIZE) data\<rparr>)"

definition build_auth_message :: "bytes \<Rightarrow> bytes \<Rightarrow> bytes" where
  "build_auth_message client_ek ct_bytes = AUTH_SIGN_CONTEXT @ client_ek @ ct_bytes"

definition derive_peer_id :: "tunnel_env \<Rightarrow> bytes \<Rightarrow> bytes" where
  "derive_peer_id T pk = hash32 T pk"

definition encode_encrypted :: "u32 \<Rightarrow> bytes \<Rightarrow> bytes" where
  "encode_encrypted stream_seq ciphertext =
     envelope_byte Encrypted # u32_be stream_seq @ ciphertext"

definition decode_encrypted :: "bytes \<Rightarrow> TunnelError + (u32 \<times> bytes)" where
  "decode_encrypted data =
     (if length data < 5 then Inl (EnvelopeTooShort Encrypted (length data))
      else if data ! 0 \<noteq> envelope_byte Encrypted then Inl (EnvelopeWrongType Encrypted (data ! 0))
      else Inr (u32_of_be (slice_of 1 5 data), drop 5 data))"

section \<open>The interface of an envelope\<close>

text \<open>
  An envelope type: its type byte, an encoder, a decoder, and the messages the encoder is given.
  Decoding returns the encoded message, also when more bytes follow; every decoded message
  carries the type byte.
\<close>

locale envelope =
  fixes tag :: byte and encode :: "'a \<Rightarrow> bytes" and decode :: "bytes \<Rightarrow> TunnelError + 'a"
    and valid :: "'a \<Rightarrow> bool"
  assumes decode_encode: "valid x \<Longrightarrow> decode (encode x) = Inr x"
    and encode_tag: "\<exists>rest. encode x = tag # rest"
    and decode_tag: "decode b = Inr x \<Longrightarrow> \<exists>rest. b = tag # rest"
begin

lemma encode_inject: "valid x \<Longrightarrow> valid y \<Longrightarrow> encode x = encode y \<Longrightarrow> x = y"
  using decode_encode by (metis sum.inject(2))

lemma encode_nonempty: "0 < length (encode x)"
  using encode_tag [of x] by auto

lemma decode_other_tag: "b \<noteq> [] \<Longrightarrow> hd b \<noteq> tag \<Longrightarrow> \<exists>e. decode b = Inl e"
  using decode_tag by (cases "decode b") fastforce+

end

definition hello_valid :: "u16 \<times> bytes \<Rightarrow> bool" where
  "hello_valid x \<longleftrightarrow> fst x = PQC_VERSION \<and> length (snd x) = ML_KEM_768_EK_SIZE"

definition accept_valid :: "ServerAcceptData \<Rightarrow> bool" where
  "accept_valid x \<longleftrightarrow> sa_version x = PQC_VERSION \<and> length (ct x) = ML_KEM_768_CT_SIZE \<and>
     length (pubkey x) = ML_DSA_65_PK_SIZE \<and> length (signature x) = ML_DSA_65_SIG_SIZE"

interpretation hello: envelope "envelope_byte ClientHello" "\<lambda>(v, ek). encode_client_hello ek"
  decode_client_hello hello_valid
proof unfold_locales
  fix x :: "u16 \<times> bytes"
  assume "hello_valid x"
  then show "decode_client_hello (case x of (v, ek) \<Rightarrow> encode_client_hello ek) = Inr x"
    by (cases x) (simp add: hello_valid_def decode_client_hello_def encode_client_hello_def slice_of_def
        ML_KEM_768_EK_SIZE_def)
next
  fix b x
  assume "decode_client_hello b = Inr x"
  then show "\<exists>rest. b = envelope_byte ClientHello # rest"
    by (cases b) (auto simp: decode_client_hello_def split: if_splits)
qed (auto simp: encode_client_hello_def split: prod.splits)

interpretation accept: envelope "envelope_byte ServerAccept"
  "\<lambda>a. encode_server_accept (ct a) (pubkey a) (signature a)" decode_server_accept accept_valid
proof unfold_locales
  fix a :: ServerAcceptData
  assume "accept_valid a"
  then show "decode_server_accept (encode_server_accept (ct a) (pubkey a) (signature a)) = Inr a"
    by (simp add: accept_valid_def decode_server_accept_def encode_server_accept_def slice_of_def Let_def
        ML_KEM_768_CT_SIZE_def ML_DSA_65_PK_SIZE_def ML_DSA_65_SIG_SIZE_def)
next
  fix b x
  assume "decode_server_accept b = Inr x"
  then show "\<exists>rest. b = envelope_byte ServerAccept # rest"
    by (cases b) (auto simp: decode_server_accept_def Let_def split: if_splits)
qed (auto simp: encode_server_accept_def)

interpretation encrypted: envelope "envelope_byte Encrypted" "\<lambda>(s, c). encode_encrypted s c"
  decode_encrypted "\<lambda>x. True"
proof unfold_locales
  fix x :: "u32 \<times> bytes"
  show "decode_encrypted (case x of (s, c) \<Rightarrow> encode_encrypted s c) = Inr x"
    by (cases x) (simp add: decode_encrypted_def encode_encrypted_def slice_of_def)
next
  fix b x
  assume "decode_encrypted b = Inr x"
  then show "\<exists>rest. b = envelope_byte Encrypted # rest"
    by (cases b) (auto simp: decode_encrypted_def split: if_splits)
qed (auto simp: encode_encrypted_def split: prod.splits)

section \<open>Lemmas\<close>

lemma from_byte_envelope_byte: "from_byte b = Some t \<longleftrightarrow> b = envelope_byte t"
  by (cases t) (auto simp: from_byte_def envelope_byte_def)

lemma session_decrypt_encrypt:
  "tunnel_laws T \<Longrightarrow> session_encrypt T c s d m = Inr e \<Longrightarrow> session_decrypt T c s d e = Inr m"
  by (auto simp: session_encrypt_def session_decrypt_def tunnel_laws_def result_simps)

lemma length_build_nonce [simp]: "length (build_nonce s d) = 12"
  by (simp add: build_nonce_def)

lemma build_nonce_inject [simp]: "build_nonce s d = build_nonce s' d' \<longleftrightarrow> s = s' \<and> d = d'"
  by (auto simp: build_nonce_def split: Direction.splits)

end
