(* ===== verification/Chunk_Protocol.thy ===== *)
theory Chunk_Protocol
  imports Prelude
begin

text \<open>
  The chunk protocol: \<open>src/ant-protocol/src/chunk.rs\<close> and \<open>src/ant-protocol/src/lib.rs\<close> (the
  types are repeated, byte-compatible, in \<open>src/ant-node/src/ant_protocol/chunk.rs\<close>).

  A Rust \<open>String\<close> is a \<open>string\<close>. The binary form of a message is made by the crate \<open>postcard\<close>,
  whose two functions are the fields of the record \<open>postcard\<close>, together with BLAKE3; what is
  relied on is \<open>postcard_laws\<close>.
\<close>

section \<open>Constants\<close>

definition CHUNK_PROTOCOL_ID :: string where "CHUNK_PROTOCOL_ID = ''autonomi/ant/chunk/v1''"
definition PROTOCOL_VERSION :: u16 where "PROTOCOL_VERSION = 1"
definition MAX_CHUNK_SIZE :: nat where "MAX_CHUNK_SIZE = 4 * 1024 * 1024"
definition MAX_WIRE_MESSAGE_SIZE :: nat where "MAX_WIRE_MESSAGE_SIZE = 5 * 1024 * 1024"
definition DATA_TYPE_CHUNK :: u32 where "DATA_TYPE_CHUNK = 0"
definition PROOF_TAG_SINGLE_NODE :: byte where "PROOF_TAG_SINGLE_NODE = 0x01"
definition PROOF_TAG_MERKLE :: byte where "PROOF_TAG_MERKLE = 0x02"
definition CLOSE_GROUP_SIZE :: nat where "CLOSE_GROUP_SIZE = 5"
definition CLOSE_GROUP_MAJORITY :: nat where "CLOSE_GROUP_MAJORITY = CLOSE_GROUP_SIZE div 2 + 1"

section \<open>Messages\<close>

datatype ProtocolError =
    SerializationFailed string
  | DeserializationFailed string
  | MessageTooLarge nat nat
  | ChunkTooLarge nat nat
  | AddressMismatch xorname xorname
  | StorageFailed string
  | PaymentFailed string
  | QuoteFailed string
  | Internal string

record ChunkPutRequest =
  put_address :: xorname
  put_content :: bytes
  payment_proof :: "bytes option"

definition ChunkPutRequest_new :: "xorname \<Rightarrow> bytes \<Rightarrow> ChunkPutRequest" where
  "ChunkPutRequest_new address content =
     \<lparr>put_address = address, put_content = content, payment_proof = None\<rparr>"

definition with_payment :: "xorname \<Rightarrow> bytes \<Rightarrow> bytes \<Rightarrow> ChunkPutRequest" where
  "with_payment address content proof =
     \<lparr>put_address = address, put_content = content, payment_proof = Some proof\<rparr>"

datatype ChunkPutResponse =
    PutSuccess xorname
  | PutAlreadyExists xorname
  | PutPaymentRequired string
  | PutError ProtocolError

record ChunkGetRequest =
  get_address :: xorname

definition ChunkGetRequest_new :: "xorname \<Rightarrow> ChunkGetRequest" where
  "ChunkGetRequest_new address = \<lparr>get_address = address\<rparr>"

datatype ChunkGetResponse =
    GetSuccess xorname bytes
  | GetNotFound xorname
  | GetError ProtocolError

record ChunkQuoteRequest =
  quote_address :: xorname
  quote_data_size :: u64
  quote_data_type :: u32

definition ChunkQuoteRequest_new :: "xorname \<Rightarrow> u64 \<Rightarrow> ChunkQuoteRequest" where
  "ChunkQuoteRequest_new address sz =
     \<lparr>quote_address = address, quote_data_size = sz, quote_data_type = DATA_TYPE_CHUNK\<rparr>"

datatype ChunkQuoteResponse =
    QuoteSuccess bytes bool
  | QuoteError ProtocolError

record MerkleCandidateQuoteRequest =
  mq_address :: xorname
  mq_data_type :: u32
  mq_data_size :: u64
  merkle_payment_timestamp :: u64

datatype MerkleCandidateQuoteResponse =
    CandidateSuccess bytes
  | CandidateError ProtocolError

datatype ChunkMessageBody =
    PutRequest ChunkPutRequest
  | PutResponse ChunkPutResponse
  | GetRequest ChunkGetRequest
  | GetResponse ChunkGetResponse
  | QuoteRequest ChunkQuoteRequest
  | QuoteResponse ChunkQuoteResponse
  | MerkleQuoteRequest MerkleCandidateQuoteRequest
  | MerkleQuoteResponse MerkleCandidateQuoteResponse

record ChunkMessage =
  request_id :: u64
  body :: ChunkMessageBody

section \<open>Encoding\<close>

record postcard =
  to_stdvec :: "ChunkMessage \<Rightarrow> string + bytes"
  from_postcard :: "bytes \<Rightarrow> string + ChunkMessage"
  blake3 :: "bytes \<Rightarrow> bytes"

definition postcard_laws :: "postcard \<Rightarrow> bool" where
  "postcard_laws P \<longleftrightarrow>
     (\<forall>m b. to_stdvec P m = Inr b \<longrightarrow> from_postcard P b = Inr m) \<and>
     (\<forall>b. length (blake3 P b) = 32)"

definition msg_encode :: "postcard \<Rightarrow> ChunkMessage \<Rightarrow> ProtocolError + bytes" where
  "msg_encode P msg = map_err SerializationFailed (to_stdvec P msg)"

definition msg_decode :: "postcard \<Rightarrow> bytes \<Rightarrow> ProtocolError + ChunkMessage" where
  "msg_decode P data =
     (if MAX_WIRE_MESSAGE_SIZE < length data
      then Inl (MessageTooLarge (length data) MAX_WIRE_MESSAGE_SIZE)
      else map_err DeserializationFailed (from_postcard P data))"

lemma msg_decode_encode:
  assumes "postcard_laws P" "msg_encode P m = Inr b" "length b \<le> MAX_WIRE_MESSAGE_SIZE"
  shows "msg_decode P b = Inr m"
  using assms by (auto simp: postcard_laws_def msg_encode_def msg_decode_def result_simps)

lemma rid_round_trip: "word_of_nat (le_value (le_bytes 8 (unat (w :: u64)))) = w"
proof -
  have "unat w < 18446744073709551616" using unsigned_less [of w, where 'a = nat] by simp
  then show ?thesis by (simp add: le_value_le_bytes)
qed

section \<open>Content addresses\<close>

definition compute_address :: "postcard \<Rightarrow> bytes \<Rightarrow> xorname" where
  "compute_address P content = blake3 P content"

record DataChunk =
  address :: xorname
  content :: bytes

definition DataChunk_new :: "xorname \<Rightarrow> bytes \<Rightarrow> DataChunk" where
  "DataChunk_new addr c = \<lparr>address = addr, content = c\<rparr>"

definition from_content :: "postcard \<Rightarrow> bytes \<Rightarrow> DataChunk" where
  "from_content P c = \<lparr>address = compute_address P c, content = c\<rparr>"

definition verify :: "postcard \<Rightarrow> DataChunk \<Rightarrow> bool" where
  "verify P chunk = (address chunk = compute_address P (content chunk))"

definition chunk_size :: "DataChunk \<Rightarrow> nat" where
  "chunk_size chunk = length (content chunk)"

lemma verify_from_content [simp]: "verify P (from_content P c)"
  by (simp add: verify_def from_content_def)

end
