(* ===== verification/Wt_Session.thy ===== *)
theory Wt_Session
  imports Pqc_Tunnel Chunk_Protocol
begin

text \<open>
  Both ends of a WebTransport session: the browser side in
  \<open>src/ant-wasm/src/transport.rs\<close> (\<open>WtTransport\<close>) and the node side in
  \<open>src/ant-node/src/webtransport/server.rs\<close> (handshake, encrypted streams, the accept loop with
  its permits).

  The WebTransport API itself is an argument: \<open>exchange\<close> opens a bidirectional stream, writes
  and closes, and returns the pieces the peer sends until it closes its side, or the browser's
  error. On the node a stream is the bytes that arrive before the client closes. ML-KEM-768 and
  ML-DSA-65 are the fields of \<open>pq_env\<close>, with the random choices of the call as an argument.
\<close>

section \<open>Framing\<close>

definition frame :: "bytes \<Rightarrow> bytes" where
  "frame payload = u32_be (word_of_nat (length payload)) @ payload"

text \<open>
  The node reads four bytes, checks the announced length against its limit and reads that many
  bytes (\<open>read_exact\<close> fails when the stream ends early).
\<close>

datatype read_error = StreamEnded | AnnouncedTooLarge nat

definition read_framed :: "nat \<Rightarrow> bytes \<Rightarrow> read_error + bytes" where
  "read_framed limit recv =
     (if length recv < 4 then Inl StreamEnded
      else
        (let len = unat (u32_of_be (take 4 recv))
         in if limit < len then Inl (AnnouncedTooLarge len)
            else if length recv - 4 < len then Inl StreamEnded
            else Inr (take len (drop 4 recv))))"

text \<open>The browser collects the pieces of the response up to a limit.\<close>

fun read_bounded :: "nat \<Rightarrow> bytes list \<Rightarrow> bytes \<Rightarrow> nat + bytes" where
  "read_bounded limit [] buf = Inr buf"
| "read_bounded limit (piece # rest) buf =
     (if limit < length (buf @ piece) then Inl (length (buf @ piece))
      else read_bounded limit rest (buf @ piece))"

section \<open>Post-quantum primitives\<close>

record pq_env =
  kem_keygen :: "bytes \<Rightarrow> (bytes \<times> bytes) option"
  kem_ek_ok :: "bytes \<Rightarrow> bool"
  kem_encaps :: "bytes \<Rightarrow> bytes \<Rightarrow> (bytes \<times> bytes) option"
  kem_ct_ok :: "bytes \<Rightarrow> bool"
  kem_decaps :: "bytes \<Rightarrow> bytes \<Rightarrow> bytes option"
  dsa_pk_ok :: "bytes \<Rightarrow> bool"
  dsa_sk_ok :: "bytes \<Rightarrow> bool"
  dsa_sign :: "bytes \<Rightarrow> bytes \<Rightarrow> bytes option"
  dsa_verify :: "bytes \<Rightarrow> bytes \<Rightarrow> bytes \<Rightarrow> bool"

record NodeIdentity =
  public_key :: bytes
  secret_key :: bytes

definition kem_laws :: "pq_env \<Rightarrow> bool" where
  "kem_laws H \<longleftrightarrow>
     (\<forall>r ek dk. kem_keygen H r = Some (ek, dk) \<longrightarrow>
        length ek = ML_KEM_768_EK_SIZE \<and> kem_ek_ok H ek \<and>
        (\<forall>r' ss c. kem_encaps H ek r' = Some (ss, c) \<longrightarrow>
           length c = ML_KEM_768_CT_SIZE \<and> kem_ct_ok H c \<and> kem_decaps H dk c = Some ss))"

definition dsa_identity :: "pq_env \<Rightarrow> NodeIdentity \<Rightarrow> bool" where
  "dsa_identity H i \<longleftrightarrow>
     length (public_key i) = ML_DSA_65_PK_SIZE \<and> dsa_pk_ok H (public_key i) \<and> dsa_sk_ok H (secret_key i) \<and>
     (\<forall>m s. dsa_sign H (secret_key i) m = Some s \<longrightarrow>
        length s = ML_DSA_65_SIG_SIZE \<and> dsa_verify H (public_key i) m s)"

section \<open>The handshake on the node\<close>

datatype server_error =
    NoIdentity
  | HandshakeRead read_error
  | HandshakeEnvelope TunnelError
  | InvalidEncapsKey
  | EncapsFailed
  | InvalidSecretKey
  | SigningFailed
  | CopyPanic
  | HandshakeWrite string

text \<open>
  \<open>deliver\<close> is the writing of the framed answer and the closing of the sending side, or the error
  of \<open>write_all\<close> or \<open>finish\<close>. The result is the answer that was written and the cipher.
\<close>

definition HANDSHAKE_LIMIT :: nat where "HANDSHAKE_LIMIT = 4096"

definition perform_server_handshake ::
  "tunnel_env \<Rightarrow> pq_env \<Rightarrow> NodeIdentity option \<Rightarrow> bytes \<Rightarrow> bytes \<Rightarrow> (bytes \<Rightarrow> string + unit) \<Rightarrow>
   server_error + (bytes \<times> SessionCipher)" where
  "perform_server_handshake T H node_identity rnd recv deliver =
     try_bind (ok_or NoIdentity node_identity) (\<lambda>identity.
     try_bind (map_err HandshakeRead (read_framed HANDSHAKE_LIMIT recv)) (\<lambda>msg_buf.
     try_bind (map_err HandshakeEnvelope (decode_client_hello msg_buf)) (\<lambda>(version, ek_bytes).
     if version \<noteq> PQC_VERSION then Inl (HandshakeEnvelope (UnsupportedVersion version))
     else if \<not> kem_ek_ok H ek_bytes then Inl InvalidEncapsKey
     else
     try_bind (ok_or EncapsFailed (kem_encaps H ek_bytes rnd)) (\<lambda>(ss, ct_bytes).
     if \<not> dsa_sk_ok H (secret_key identity) then Inl InvalidSecretKey
     else
     try_bind (ok_or SigningFailed (dsa_sign H (secret_key identity) (build_auth_message ek_bytes ct_bytes))) (\<lambda>sig.
     if length (public_key identity) \<noteq> ML_DSA_65_PK_SIZE \<or> length sig \<noteq> ML_DSA_65_SIG_SIZE then Inl CopyPanic
     else
       (let accept = frame (encode_server_accept ct_bytes (public_key identity) sig)
        in try_bind (map_err HandshakeWrite (deliver accept)) (\<lambda>u. Inr (accept, from_shared_secret T ss))))))))"

section \<open>The handshake in the browser\<close>

datatype client_error =
    KeygenFailed
  | StreamError string
  | ResponseTooLarge nat
  | ResponseTooShort nat
  | InvalidResponse TunnelError
  | UnsupportedPqcVersion u16
  | InvalidPublicKey
  | SignatureInvalid
  | PeerIdWrong bytes bytes
  | InvalidCiphertext
  | DecapsFailed
  | StreamLimit
  | SequenceMismatch u32 u32
  | TunnelFailed TunnelError

definition MAX_HANDSHAKE_RESPONSE :: nat where "MAX_HANDSHAKE_RESPONSE = 16 * 1024"

definition client_check_accept ::
  "tunnel_env \<Rightarrow> pq_env \<Rightarrow> bytes option \<Rightarrow> bytes \<Rightarrow> bytes \<Rightarrow> bytes \<Rightarrow> client_error + SessionCipher" where
  "client_check_accept T H expected_peer_id ek_bytes dk response_buf =
     (if length response_buf < 4 then Inl (ResponseTooShort (length response_buf))
      else
      try_bind (map_err InvalidResponse (decode_server_accept (drop 4 response_buf))) (\<lambda>accept.
      if sa_version accept \<noteq> PQC_VERSION then Inl (UnsupportedPqcVersion (sa_version accept))
      else if \<not> dsa_pk_ok H (pubkey accept) then Inl InvalidPublicKey
      else if \<not> dsa_verify H (pubkey accept) (build_auth_message ek_bytes (ct accept)) (signature accept)
        then Inl SignatureInvalid
      else
      try_bind
        (case expected_peer_id of
           Some expected \<Rightarrow>
             if derive_peer_id T (pubkey accept) \<noteq> expected
             then Inl (PeerIdWrong expected (derive_peer_id T (pubkey accept)))
             else Inr ()
         | None \<Rightarrow> Inr ())
        (\<lambda>u.
      if \<not> kem_ct_ok H (ct accept) then Inl InvalidCiphertext
      else
      try_bind (ok_or DecapsFailed (kem_decaps H dk (ct accept))) (\<lambda>ss.
      Inr (from_shared_secret T ss)))))"

definition perform_handshake ::
  "tunnel_env \<Rightarrow> pq_env \<Rightarrow> (bytes \<Rightarrow> string + bytes list) \<Rightarrow> bytes option \<Rightarrow> bytes \<Rightarrow> client_error + SessionCipher" where
  "perform_handshake T H exchange expected_peer_id rnd =
     try_bind (ok_or KeygenFailed (kem_keygen H rnd)) (\<lambda>(ek_bytes, dk).
     try_bind (map_err StreamError (exchange (frame (encode_client_hello ek_bytes)))) (\<lambda>pieces.
     try_bind (map_err ResponseTooLarge (read_bounded MAX_HANDSHAKE_RESPONSE pieces [])) (\<lambda>response_buf.
     client_check_accept T H expected_peer_id ek_bytes dk response_buf)))"

section \<open>Requests from the browser\<close>

definition MAX_STREAM_SEQ :: u32 where "MAX_STREAM_SEQ = - 1 - 1"

record WtTransport =
  cipher :: SessionCipher
  stream_seq :: u32

definition connect ::
  "tunnel_env \<Rightarrow> pq_env \<Rightarrow> (bytes \<Rightarrow> string + bytes list) \<Rightarrow> bytes option \<Rightarrow> bytes \<Rightarrow> client_error + WtTransport" where
  "connect T H exchange expected_peer_id rnd =
     try_bind (perform_handshake T H exchange expected_peer_id rnd) (\<lambda>c.
     Inr \<lparr>cipher = c, stream_seq = 1\<rparr>)"

definition client_open_response ::
  "tunnel_env \<Rightarrow> SessionCipher \<Rightarrow> u32 \<Rightarrow> bytes \<Rightarrow> client_error + bytes" where
  "client_open_response T c seq response_buf =
     (if length response_buf < 4 then Inl (ResponseTooShort (length response_buf))
      else
      try_bind (map_err InvalidResponse (decode_encrypted (drop 4 response_buf))) (\<lambda>(resp_seq, ciphertext).
      if resp_seq \<noteq> seq then Inl (SequenceMismatch seq resp_seq)
      else map_err TunnelFailed (session_decrypt T c seq ServerToClient ciphertext)))"

definition send_request ::
  "tunnel_env \<Rightarrow> (bytes \<Rightarrow> string + bytes list) \<Rightarrow> WtTransport \<Rightarrow> bytes \<Rightarrow> (client_error + bytes) \<times> WtTransport" where
  "send_request T exchange t message_bytes =
     (let seq = stream_seq t; t' = t\<lparr>stream_seq := seq + 1\<rparr>
      in if MAX_STREAM_SEQ \<le> seq then (Inl StreamLimit, t)
         else
           (try_bind (map_err TunnelFailed (session_encrypt T (cipher t) seq ClientToServer message_bytes)) (\<lambda>encrypted.
            try_bind (map_err StreamError (exchange (frame (encode_encrypted seq encrypted)))) (\<lambda>pieces.
            try_bind (map_err ResponseTooLarge (read_bounded (MAX_WIRE_MESSAGE_SIZE + 512) pieces [])) (\<lambda>response_buf.
            client_open_response T (cipher t) seq response_buf))), t'))"

section \<open>Encrypted streams on the node\<close>

text \<open>
  \<open>respond\<close> is the protocol handler with the state of the node: it returns the response, if
  there is one, and the new state. A stream that is dropped leaves the state as it is.
\<close>

definition handle_encrypted_stream ::
  "tunnel_env \<Rightarrow> ('s \<Rightarrow> bytes \<Rightarrow> bytes option \<times> 's) \<Rightarrow> SessionCipher \<Rightarrow> u32 \<Rightarrow> 's \<Rightarrow> bytes \<Rightarrow> bytes option \<times> 's" where
  "handle_encrypted_stream T respond c seq s recv =
     (case read_framed (MAX_WIRE_MESSAGE_SIZE + 256) recv of
        Inl e \<Rightarrow> (None, s)
      | Inr msg_buf \<Rightarrow>
          (case decode_encrypted msg_buf of
             Inl e \<Rightarrow> (None, s)
           | Inr (envelope_seq, ciphertext) \<Rightarrow>
               if envelope_seq \<noteq> seq then (None, s)
               else
                 (case session_decrypt T c seq ClientToServer ciphertext of
                    Inl e \<Rightarrow> (None, s)
                  | Inr plaintext \<Rightarrow>
                      (case respond s plaintext of
                         (None, s') \<Rightarrow> (None, s')
                       | (Some response, s') \<Rightarrow>
                           (case session_encrypt T c seq ServerToClient response of
                              Inl e \<Rightarrow> (None, s')
                            | Inr encrypted \<Rightarrow> (Some (frame (encode_encrypted seq encrypted)), s'))))))"

section \<open>The accept loop on the node\<close>

text \<open>
  The state of a session: the next sequence number, the free permits of the process and of the
  session, the streams being handled, and whether the loop has ended. \<open>dispatched\<close> lists the
  sequence numbers handed to a stream handler so far, the newest first. The process-wide permits
  are shared with other sessions, which may take and return them at any time.
\<close>

definition MAX_CONCURRENT_STREAMS :: nat where "MAX_CONCURRENT_STREAMS = 64"
definition MAX_STREAMS_PER_SESSION :: nat where "MAX_STREAMS_PER_SESSION = 8"

record session =
  next_seq :: u32
  global_free :: nat
  session_free :: nat
  running :: "u32 list"
  closed :: bool
  dispatched :: "u32 list"

definition session_start :: "nat \<Rightarrow> session" where
  "session_start free =
     \<lparr>next_seq = 1, global_free = free, session_free = MAX_STREAMS_PER_SESSION, running = [],
      closed = False, dispatched = []\<rparr>"

definition accept_stream :: "session \<Rightarrow> session" where
  "accept_stream s =
     (let seq = next_seq s; s1 = s\<lparr>next_seq := seq + 1\<rparr>
      in if MAX_STREAM_SEQ \<le> seq then s1\<lparr>closed := True\<rparr>
         else if global_free s = 0 then s1
         else if session_free s = 0 then s1
         else s1\<lparr>global_free := global_free s - 1, session_free := session_free s - 1,
                 running := seq # running s, dispatched := seq # dispatched s\<rparr>)"

definition finish_stream :: "u32 \<Rightarrow> session \<Rightarrow> session" where
  "finish_stream seq s =
     s\<lparr>global_free := global_free s + 1, session_free := session_free s + 1,
       running := remove1 seq (running s)\<rparr>"

inductive session_reach :: "session \<Rightarrow> bool" where
  start: "free \<le> MAX_CONCURRENT_STREAMS \<Longrightarrow> session_reach (session_start free)"
| accept: "session_reach s \<Longrightarrow> \<not> closed s \<Longrightarrow> session_reach (accept_stream s)"
| finish: "session_reach s \<Longrightarrow> seq \<in> set (running s) \<Longrightarrow> session_reach (finish_stream seq s)"
| others: "session_reach s \<Longrightarrow> free + length (running s) \<le> MAX_CONCURRENT_STREAMS \<Longrightarrow>
     session_reach (s\<lparr>global_free := free\<rparr>)"

section \<open>Lemmas on framing\<close>

lemma u32_word_of_nat: "n < 2 ^ 32 \<Longrightarrow> unat (word_of_nat n :: u32) = n"
  by (simp add: unat_of_nat)

lemma read_framed_frame:
  assumes "length p \<le> limit" "limit < 2 ^ 32"
  shows "read_framed limit (frame p) = Inr p"
  using assms u32_word_of_nat [of "length p"] by (simp add: read_framed_def frame_def)

lemma drop_frame [simp]: "drop 4 (frame p) = p"
  by (simp add: frame_def)

lemma length_frame [simp]: "length (frame p) = length p + 4"
  by (simp add: frame_def)

end
