(* ===== verification/Wt_Session_Correct.thy ===== *)
theory Wt_Session_Correct
  imports Wt_Session
begin

text \<open>
  Properties of a WebTransport session: both ends of an honest handshake derive the same cipher,
  what an accepted handshake proves to the browser, that a request comes back with the response
  of the node, and that no nonce of a session is ever used twice.
\<close>

section \<open>Handshake\<close>

definition honest_exchange ::
  "tunnel_env \<Rightarrow> pq_env \<Rightarrow> NodeIdentity option \<Rightarrow> bytes \<Rightarrow> bytes \<Rightarrow> string + bytes list" where
  "honest_exchange T H identity rnd sent =
     (case perform_server_handshake T H identity rnd sent (\<lambda>b. Inr ()) of
        Inl e \<Rightarrow> Inr []
      | Inr (reply, c) \<Rightarrow> Inr [reply])"

lemma decode_hello [simp]:
  "length ek = ML_KEM_768_EK_SIZE \<Longrightarrow> decode_client_hello (encode_client_hello ek) = Inr (PQC_VERSION, ek)"
  using hello.decode_encode [of "(PQC_VERSION, ek)"] by (simp add: hello_valid_def)

lemma decode_accept [simp]:
  assumes "length c = ML_KEM_768_CT_SIZE" "length pk = ML_DSA_65_PK_SIZE" "length sig = ML_DSA_65_SIG_SIZE"
  shows "decode_server_accept (encode_server_accept c pk sig) =
         Inr \<lparr>sa_version = PQC_VERSION, ct = c, pubkey = pk, signature = sig\<rparr>"
  using accept.decode_encode [of "\<lparr>sa_version = PQC_VERSION, ct = c, pubkey = pk, signature = sig\<rparr>"] assms
  by (simp add: accept_valid_def)

lemma decode_enc [simp]: "decode_encrypted (encode_encrypted s c) = Inr (s, c)"
  using encrypted.decode_encode [of "(s, c)"] by simp

lemma server_handshake_honest:
  assumes "kem_laws H" "dsa_identity H identity" "kem_keygen H r = Some (ek, dk)"
    and "kem_encaps H ek rnd = Some (ss, c)"
    and "dsa_sign H (secret_key identity) (build_auth_message ek c) = Some sig"
  shows "perform_server_handshake T H (Some identity) rnd (frame (encode_client_hello ek)) (\<lambda>b. Inr ()) =
         Inr (frame (encode_server_accept c (public_key identity) sig), from_shared_secret T ss)"
proof -
  have ek: "length ek = ML_KEM_768_EK_SIZE" "kem_ek_ok H ek"
    using assms(1,3) by (simp_all add: kem_laws_def)
  have "length (encode_client_hello ek) \<le> HANDSHAKE_LIMIT"
    using ek(1) by (simp add: encode_client_hello_def ML_KEM_768_EK_SIZE_def HANDSHAKE_LIMIT_def)
  then have "read_framed HANDSHAKE_LIMIT (frame (encode_client_hello ek)) = Inr (encode_client_hello ek)"
    by (rule read_framed_frame) (simp add: HANDSHAKE_LIMIT_def)
  moreover have "length sig = ML_DSA_65_SIG_SIZE" "length (public_key identity) = ML_DSA_65_PK_SIZE"
    "dsa_sk_ok H (secret_key identity)"
    using assms(2,5) by (simp_all add: dsa_identity_def)
  ultimately show ?thesis using ek assms(4,5) by (simp add: perform_server_handshake_def)
qed

lemma client_handshake_honest:
  assumes "kem_laws H" "dsa_identity H identity" "kem_keygen H r = Some (ek, dk)"
    and "kem_encaps H ek rnd = Some (ss, c)"
    and "dsa_sign H (secret_key identity) (build_auth_message ek c) = Some sig"
    and "expected = None \<or> expected = Some (derive_peer_id T (public_key identity))"
  shows "perform_handshake T H (honest_exchange T H (Some identity) rnd) expected r =
         Inr (from_shared_secret T ss)"
proof -
  let ?reply = "frame (encode_server_accept c (public_key identity) sig)"
  note server = server_handshake_honest [OF assms(1-5), of T]
  have c: "length c = ML_KEM_768_CT_SIZE" "kem_ct_ok H c" "kem_decaps H dk c = Some ss"
    using assms(1,3,4) by (auto simp: kem_laws_def)
  have s: "length sig = ML_DSA_65_SIG_SIZE" "length (public_key identity) = ML_DSA_65_PK_SIZE"
    "dsa_pk_ok H (public_key identity)" "dsa_verify H (public_key identity) (build_auth_message ek c) sig"
    using assms(2,5) by (simp_all add: dsa_identity_def)
  have "length ?reply \<le> MAX_HANDSHAKE_RESPONSE"
    using c(1) s(1,2)
    by (simp add: encode_server_accept_def ML_KEM_768_CT_SIZE_def ML_DSA_65_PK_SIZE_def
        ML_DSA_65_SIG_SIZE_def MAX_HANDSHAKE_RESPONSE_def)
  then have "read_bounded MAX_HANDSHAKE_RESPONSE [?reply] [] = Inr ?reply" by simp
  then show ?thesis
    using assms(3,6) c s server
    by (auto simp: perform_handshake_def honest_exchange_def client_check_accept_def)
qed

text \<open>
  Both ends of an undisturbed handshake agree. If key generation, encapsulation and signing
  succeed and the node has a well-formed identity, then the browser, expecting any peer or the
  one this identity belongs to, connects with exactly the session cipher the node derives, and
  starts at sequence number one.
\<close>

theorem handshake_agreement:
  assumes "kem_laws H" "dsa_identity H identity" "kem_keygen H r = Some (ek, dk)"
    and "kem_encaps H ek rnd = Some (ss, c)"
    and "dsa_sign H (secret_key identity) (build_auth_message ek c) = Some sig"
    and "expected = None \<or> expected = Some (derive_peer_id T (public_key identity))"
  shows "\<exists>reply cip. perform_server_handshake T H (Some identity) rnd (frame (encode_client_hello ek)) (\<lambda>b. Inr ()) = Inr (reply, cip) \<and>
           connect T H (honest_exchange T H (Some identity) rnd) expected r =
             Inr \<lparr>cipher = cip, stream_seq = 1\<rparr>"
  using server_handshake_honest [OF assms(1-5), of T] client_handshake_honest [OF assms]
  by (simp add: connect_def)

text \<open>
  C27: what a completed handshake proves to the browser, whatever the other side sent: it showed
  a public key whose hash is the expected peer, with a signature that verifies under this key
  over the context, this browser's encapsulation key and the ciphertext; and the session cipher
  is derived from the decapsulation of exactly that ciphertext.
\<close>

theorem handshake_authenticates:
  assumes "perform_handshake T H exchange (Some expected) r = Inr cip"
  shows "\<exists>ek dk c pk sig ss.
           kem_keygen H r = Some (ek, dk) \<and> derive_peer_id T pk = expected \<and> dsa_pk_ok H pk \<and>
           dsa_verify H pk (AUTH_SIGN_CONTEXT @ ek @ c) sig \<and>
           kem_decaps H dk c = Some ss \<and> cip = from_shared_secret T ss"
  using assms
  by (auto simp: perform_handshake_def client_check_accept_def result_simps build_auth_message_def
      split: if_splits prod.splits)

section \<open>A sample environment\<close>

text \<open>Primitives of the right sizes for evaluating the properties; they are not secure.\<close>

definition sample_tunnel :: tunnel_env where
  "sample_tunnel =
     \<lparr>derive_key = (\<lambda>s m. take 32 m), aead_encrypt = (\<lambda>k n m. if length n = 12 then Some (n @ m) else None),
      aead_decrypt = (\<lambda>k n c. if take 12 c = n then Some (drop 12 c) else None),
      hash32 = (\<lambda>m. take 32 (m @ replicate 32 0))\<rparr>"

definition sample_pq :: pq_env where
  "sample_pq =
     \<lparr>kem_keygen = (\<lambda>r. Some (replicate 1184 7, r)), kem_ek_ok = (\<lambda>ek. True),
      kem_encaps = (\<lambda>ek r. Some (replicate 32 9, replicate 1088 5)), kem_ct_ok = (\<lambda>c. True),
      kem_decaps = (\<lambda>dk c. Some (replicate 32 9)), dsa_pk_ok = (\<lambda>pk. True), dsa_sk_ok = (\<lambda>sk. True),
      dsa_sign = (\<lambda>sk m. Some (replicate 3309 3)), dsa_verify = (\<lambda>pk m s. s = replicate 3309 3)\<rparr>"

definition sample_identity :: NodeIdentity where
  "sample_identity = \<lparr>public_key = replicate 1952 1, secret_key = [2]\<rparr>"

lemma sample_tunnel_laws [simp]: "tunnel_laws sample_tunnel"
  by (auto simp: tunnel_laws_def sample_tunnel_def split: if_splits)

lemma sample_kem_laws [simp]: "kem_laws sample_pq"
  by (simp add: kem_laws_def sample_pq_def ML_KEM_768_EK_SIZE_def ML_KEM_768_CT_SIZE_def)

lemma sample_dsa_identity [simp]: "dsa_identity sample_pq sample_identity"
  by (simp add: dsa_identity_def sample_pq_def sample_identity_def ML_DSA_65_PK_SIZE_def ML_DSA_65_SIG_SIZE_def)

lemma handshake_agreement_witness:
  "\<exists>reply cip. perform_server_handshake sample_tunnel sample_pq (Some sample_identity) []
       (frame (encode_client_hello (replicate 1184 7))) (\<lambda>b. Inr ()) = Inr (reply, cip) \<and>
     connect sample_tunnel sample_pq (honest_exchange sample_tunnel sample_pq (Some sample_identity) []) None [] =
       Inr \<lparr>cipher = cip, stream_seq = 1\<rparr>"
proof -
  have "kem_keygen sample_pq [] = Some (replicate 1184 7, [])"
    "kem_encaps sample_pq (replicate 1184 7) [] = Some (replicate 32 9, replicate 1088 5)"
    "dsa_sign sample_pq (secret_key sample_identity) m = Some (replicate 3309 3)" for m
    by (simp_all add: sample_pq_def)
  from handshake_agreement [OF sample_kem_laws sample_dsa_identity this(1-3), of None sample_tunnel]
  show ?thesis by blast
qed

lemma handshake_authenticates_witness:
  "\<exists>pk sig. derive_peer_id sample_tunnel pk = replicate 32 1 \<and>
     dsa_verify sample_pq pk (AUTH_SIGN_CONTEXT @ replicate 1184 7 @ replicate 1088 5) sig"
proof -
  have gen: "kem_keygen sample_pq [] = Some (replicate 1184 7, [])"
    "kem_encaps sample_pq (replicate 1184 7) [] = Some (replicate 32 9, replicate 1088 5)"
    "dsa_sign sample_pq (secret_key sample_identity) m = Some (replicate 3309 3)" for m
    by (simp_all add: sample_pq_def)
  have peer: "derive_peer_id sample_tunnel (public_key sample_identity) = replicate 32 1"
    by (simp add: derive_peer_id_def sample_tunnel_def sample_identity_def)
  have "perform_handshake sample_tunnel sample_pq
      (honest_exchange sample_tunnel sample_pq (Some sample_identity) []) (Some (replicate 32 1)) [] =
      Inr (from_shared_secret sample_tunnel (replicate 32 9))"
    using client_handshake_honest [OF sample_kem_laws sample_dsa_identity gen, of "Some (replicate 32 1)" sample_tunnel]
    by (simp add: peer)
  from handshake_authenticates [OF this] show ?thesis
    by (auto simp: sample_pq_def)
qed

section \<open>Requests\<close>

definition stream_exchange ::
  "tunnel_env \<Rightarrow> ('s \<Rightarrow> bytes \<Rightarrow> bytes option \<times> 's) \<Rightarrow> SessionCipher \<Rightarrow> u32 \<Rightarrow> 's \<Rightarrow> bytes \<Rightarrow> string + bytes list" where
  "stream_exchange T respond c seq s sent =
     (case fst (handle_encrypted_stream T respond c seq s sent) of
        None \<Rightarrow> Inr []
      | Some reply \<Rightarrow> Inr [reply])"

lemma send_request_served:
  assumes "tunnel_laws T" "stream_seq t < MAX_STREAM_SEQ"
    and "session_encrypt T (cipher t) (stream_seq t) ClientToServer msg = Inr e1"
    and "length e1 + 5 \<le> MAX_WIRE_MESSAGE_SIZE + 256"
    and "respond s msg = (Some response, s')"
    and "session_encrypt T (cipher t) (stream_seq t) ServerToClient response = Inr e2"
    and "length e2 + 9 \<le> MAX_WIRE_MESSAGE_SIZE + 512"
  shows "send_request T (stream_exchange T respond (cipher t) (stream_seq t) s) t msg =
           (Inr response, t\<lparr>stream_seq := stream_seq t + 1\<rparr>) \<and>
         snd (handle_encrypted_stream T respond (cipher t) (stream_seq t) s
                (frame (encode_encrypted (stream_seq t) e1))) = s'"
proof -
  let ?c = "cipher t" and ?q = "stream_seq t"
  have "read_framed (MAX_WIRE_MESSAGE_SIZE + 256) (frame (encode_encrypted ?q e1)) = Inr (encode_encrypted ?q e1)"
    using assms(4) by (intro read_framed_frame) (simp_all add: encode_encrypted_def MAX_WIRE_MESSAGE_SIZE_def)
  then have h: "handle_encrypted_stream T respond ?c ?q s (frame (encode_encrypted ?q e1)) =
      (Some (frame (encode_encrypted ?q e2)), s')"
    using session_decrypt_encrypt [OF assms(1,3)] assms(5,6) by (simp add: handle_encrypted_stream_def)
  have fits: "length (encode_encrypted ?q e2) \<le> MAX_WIRE_MESSAGE_SIZE + 508"
    using assms(7) by (simp add: encode_encrypted_def)
  show ?thesis
    using assms(2,3) h fits session_decrypt_encrypt [OF assms(1,6)]
    by (simp add: send_request_def stream_exchange_def client_open_response_def not_le Let_def)
qed

text \<open>
  C19: a request returns the response of the node. When browser and node have the same session
  cipher and are at the same sequence number, and the encrypted messages fit the wire limits,
  \<open>send_request\<close> returns what the protocol handler of the node answers to the message, the node
  is in the state the handler left, and the browser moves on to the next sequence number.
\<close>

theorem request_round_trip:
  assumes "tunnel_laws T" "stream_seq t < MAX_STREAM_SEQ"
    and "session_encrypt T (cipher t) (stream_seq t) ClientToServer msg = Inr e1"
    and "length e1 + 5 \<le> MAX_WIRE_MESSAGE_SIZE + 256"
    and "respond s msg = (Some response, s')"
    and "session_encrypt T (cipher t) (stream_seq t) ServerToClient response = Inr e2"
    and "length e2 + 9 \<le> MAX_WIRE_MESSAGE_SIZE + 512"
  shows "send_request T (stream_exchange T respond (cipher t) (stream_seq t) s) t msg =
           (Inr response, t\<lparr>stream_seq := stream_seq t + 1\<rparr>) \<and>
         snd (handle_encrypted_stream T respond (cipher t) (stream_seq t) s
                (frame (encode_encrypted (stream_seq t) e1))) = s'"
  using assms by (rule send_request_served)

lemma request_round_trip_witness:
  "send_request sample_tunnel
     (stream_exchange sample_tunnel (\<lambda>s m. (Some (rev m), s + 1)) \<lparr>key = []\<rparr> 1 (0::nat))
     \<lparr>cipher = \<lparr>key = []\<rparr>, stream_seq = 1\<rparr> [1, 2, 3] =
   (Inr [3, 2, 1], \<lparr>cipher = \<lparr>key = []\<rparr>, stream_seq = 2\<rparr>)"
proof -
  let ?t = "\<lparr>cipher = \<lparr>key = []\<rparr>, stream_seq = 1\<rparr>"
  have "(1::u32) < MAX_STREAM_SEQ" by (simp add: MAX_STREAM_SEQ_def word_less_nat_alt)
  then show ?thesis
    using request_round_trip [of sample_tunnel ?t "[1, 2, 3]" "build_nonce 1 ClientToServer @ [1, 2, 3]"
        "\<lambda>s m. (Some (rev m), s + 1)" "0::nat" "[3, 2, 1]" 1 "build_nonce 1 ServerToClient @ [3, 2, 1]"]
    by (simp add: session_encrypt_def sample_tunnel_def MAX_WIRE_MESSAGE_SIZE_def tunnel_laws_def)
qed

text \<open>
  C32: the protocol handler of the node sees only authentic messages of the right stream. Either
  a stream is dropped without a response and without a change of state, or it carried an
  envelope with exactly the sequence number of the stream whose ciphertext decrypts under the
  session cipher for this number and the direction from client to server, and the new state is
  the one the handler computes from that plaintext.
\<close>

theorem handler_sees_authentic_messages:
  "handle_encrypted_stream T respond c seq s recv = (None, s) \<or>
   (\<exists>msg ciphertext plaintext.
      read_framed (MAX_WIRE_MESSAGE_SIZE + 256) recv = Inr msg \<and>
      decode_encrypted msg = Inr (seq, ciphertext) \<and>
      session_decrypt T c seq ClientToServer ciphertext = Inr plaintext \<and>
      snd (handle_encrypted_stream T respond c seq s recv) = snd (respond s plaintext))"
  by (auto simp: handle_encrypted_stream_def split: sum.splits option.splits prod.splits)

section \<open>Nonces\<close>

lemma seq_unat_succ: "seq < MAX_STREAM_SEQ \<Longrightarrow> unat (seq + 1) = Suc (unat seq)"
  by (simp add: word_less_nat_alt MAX_STREAM_SEQ_def unat_word_ariths)

lemma seq_less_succ: "seq < MAX_STREAM_SEQ \<Longrightarrow> seq < seq + 1 \<and> seq + 1 \<le> MAX_STREAM_SEQ"
  using seq_unat_succ [of seq] by (simp add: word_less_nat_alt word_le_nat_alt)

definition session_inv :: "session \<Rightarrow> bool" where
  "session_inv s \<longleftrightarrow>
     (closed s \<or> next_seq s \<le> MAX_STREAM_SEQ) \<and>
     (\<forall>q \<in> set (dispatched s). q < MAX_STREAM_SEQ \<and> (closed s \<or> q < next_seq s)) \<and>
     distinct (dispatched s) \<and> distinct (running s) \<and> set (running s) \<subseteq> set (dispatched s) \<and>
     session_free s + length (running s) = MAX_STREAMS_PER_SESSION \<and>
     global_free s + length (running s) \<le> MAX_CONCURRENT_STREAMS"

lemma session_inv_accept:
  assumes "session_inv s" "\<not> closed s"
  shows "session_inv (accept_stream s)"
proof (cases "MAX_STREAM_SEQ \<le> next_seq s")
  case True
  with assms show ?thesis by (auto simp: accept_stream_def session_inv_def Let_def)
next
  case False
  then have lt: "next_seq s < next_seq s + 1" "next_seq s + 1 \<le> MAX_STREAM_SEQ" "next_seq s < MAX_STREAM_SEQ"
    using seq_less_succ [of "next_seq s"] by auto
  then have old: "q < next_seq s + 1 \<and> q < MAX_STREAM_SEQ \<and> q \<noteq> next_seq s" if "q \<in> set (dispatched s)" for q
    using assms that by (auto simp: session_inv_def)
  then have "next_seq s \<notin> set (dispatched s)" by blast
  with assms lt old False show ?thesis by (auto simp: accept_stream_def session_inv_def Let_def)
qed

lemma session_inv_finish:
  assumes "session_inv s" "seq \<in> set (running s)"
  shows "session_inv (finish_stream seq s)"
proof -
  obtain n where n: "length (running s) = Suc n" using assms(2) by (cases "running s") auto
  have "length (remove1 seq (running s)) = n" using assms(2) n by (simp add: length_remove1)
  then show ?thesis
    using assms n by (auto simp: session_inv_def finish_stream_def dest: notin_set_remove1)
qed

lemma session_reach_inv: "session_reach s \<Longrightarrow> session_inv s"
proof (induction rule: session_reach.induct)
  case (start free)
  then show ?case by (simp add: session_inv_def session_start_def MAX_STREAM_SEQ_def word_le_nat_alt)
next
  case (others s free)
  then show ?case by (simp add: session_inv_def)
qed (simp_all add: session_inv_accept session_inv_finish)

text \<open>
  C15: no nonce of a session is used twice on the node, and the stream limits hold. In every
  reachable state of a session, however streams arrive, finish and are refused, the nonces of
  all streams handed to a handler so far are pairwise different in both directions, at most
  eight streams of the session are running, and free and used permits of the session add up.
\<close>

theorem session_nonces_unique:
  assumes "session_reach s"
  shows "distinct (map (\<lambda>q. build_nonce q ClientToServer) (dispatched s) @
                   map (\<lambda>q. build_nonce q ServerToClient) (dispatched s)) \<and>
         set (running s) \<subseteq> set (dispatched s) \<and>
         length (running s) \<le> MAX_STREAMS_PER_SESSION \<and>
         session_free s + length (running s) = MAX_STREAMS_PER_SESSION"
  using session_reach_inv [OF assms]
  by (auto simp: session_inv_def distinct_map inj_on_def)

lemma session_nonces_unique_witness:
  "length (running (finish_stream 1 (accept_stream (accept_stream (session_start 64))))) \<le> 8"
proof -
  have "session_reach (accept_stream (accept_stream (session_start 64)))"
    by (intro session_reach.intros)
      (simp_all add: session_start_def accept_stream_def MAX_CONCURRENT_STREAMS_def MAX_STREAM_SEQ_def Let_def
        MAX_STREAMS_PER_SESSION_def word_le_nat_alt)
  then have "session_reach (finish_stream 1 (accept_stream (accept_stream (session_start 64))))"
    by (rule session_reach.finish)
      (simp add: session_start_def accept_stream_def MAX_STREAM_SEQ_def Let_def MAX_STREAMS_PER_SESSION_def
        word_le_nat_alt)
  from session_nonces_unique [OF this] show ?thesis by (simp add: MAX_STREAMS_PER_SESSION_def)
qed

text \<open>
  The sequence numbers a browser spends on a series of requests, each with the stream it gets.
\<close>

fun client_seqs :: "tunnel_env \<Rightarrow> ((bytes \<Rightarrow> string + bytes list) \<times> bytes) list \<Rightarrow> WtTransport \<Rightarrow> u32 list" where
  "client_seqs T [] t = []"
| "client_seqs T ((exchange, msg) # rest) t =
     (let (r, t') = send_request T exchange t msg
      in (if r = Inl StreamLimit then [] else [stream_seq t]) @ client_seqs T rest t')"

lemma client_seqs_above:
  "q \<in> set (client_seqs T reqs t) \<Longrightarrow> stream_seq t \<le> q \<and> q < MAX_STREAM_SEQ"
proof (induction reqs arbitrary: t)
  case (Cons x reqs)
  obtain exchange msg where x: "x = (exchange, msg)" by (cases x)
  show ?case
  proof (cases "MAX_STREAM_SEQ \<le> stream_seq t")
    case True
    then show ?thesis using Cons x by (auto simp: send_request_def Let_def)
  next
    case False
    then have lt: "stream_seq t < MAX_STREAM_SEQ" "stream_seq t < stream_seq t + 1"
      using seq_less_succ [of "stream_seq t"] by auto
    then show ?thesis
      using Cons.prems Cons.IH [of "t\<lparr>stream_seq := stream_seq t + 1\<rparr>"] x
      by (auto simp: send_request_def Let_def split: if_splits)
  qed
qed simp

text \<open>
  The browser never reuses a nonce either: over any series of requests of a session, with
  any behaviour of the network and the node, the nonces of the requests that are sent are
  pairwise different, because the sequence number is spent before anything can fail and the
  transport refuses to send once the numbers run out.
\<close>

theorem client_nonces_unique:
  "distinct (map (\<lambda>q. build_nonce q ClientToServer) (client_seqs T reqs t))"
proof -
  have "distinct (client_seqs T reqs t)"
  proof (induction reqs arbitrary: t)
    case (Cons x reqs)
    obtain exchange msg where x: "x = (exchange, msg)" by (cases x)
    show ?case
    proof (cases "MAX_STREAM_SEQ \<le> stream_seq t")
      case True
      then show ?thesis using Cons x by (simp add: send_request_def)
    next
      case False
      then have "stream_seq t < stream_seq t + 1" using seq_less_succ [of "stream_seq t"] by auto
      then have "stream_seq t \<notin> set (client_seqs T reqs (t\<lparr>stream_seq := stream_seq t + 1\<rparr>))"
        using client_seqs_above [of "stream_seq t" T reqs "t\<lparr>stream_seq := stream_seq t + 1\<rparr>"] by auto
      then show ?thesis using Cons x False by (simp add: send_request_def Let_def)
    qed
  qed simp
  then show ?thesis by (simp add: distinct_map inj_on_def)
qed

end
