(* ===== verification/Lru.thy ===== *)
theory Lru
  imports Prelude "HOL-Library.AList"
begin

text \<open>
  The interface of the crate \<open>lru\<close> as the caches of the node and of the clients use it. The
  operations on a cache of type \<open>'c\<close> are the fields of \<open>lru_ops\<close>; \<open>lru_view\<close> says which map a
  cache stands for and \<open>lru_cap\<close> is its capacity. \<open>lru_laws\<close> is what its documentation promises:
  a lookup returns the stored value and keeps the contents, an insertion adds the entry and may
  evict others, and a cache never holds more entries than its capacity.

  \<open>list_lru\<close> is an implementation on lists, most recently used entry first.
\<close>

record ('c, 'k, 'v) lru_ops =
  lru_new :: "nat \<Rightarrow> 'c"
  lru_get :: "'c \<Rightarrow> 'k \<Rightarrow> 'v option \<times> 'c"
  lru_put :: "'c \<Rightarrow> 'k \<Rightarrow> 'v \<Rightarrow> 'c"
  lru_len :: "'c \<Rightarrow> nat"
  lru_clear :: "'c \<Rightarrow> 'c"
  lru_pop :: "'c \<Rightarrow> 'k \<Rightarrow> 'c"
  lru_contains :: "'c \<Rightarrow> 'k \<Rightarrow> bool"
  lru_view :: "'c \<Rightarrow> 'k \<rightharpoonup> 'v"
  lru_cap :: "'c \<Rightarrow> nat"

definition lru_laws :: "('c, 'k, 'v) lru_ops \<Rightarrow> bool" where
  "lru_laws L \<longleftrightarrow>
     (\<forall>n. 0 < n \<longrightarrow> lru_view L (lru_new L n) = Map.empty \<and> lru_cap L (lru_new L n) = n) \<and>
     (\<forall>c k. fst (lru_get L c k) = lru_view L c k \<and> lru_view L (snd (lru_get L c k)) = lru_view L c \<and>
        lru_cap L (snd (lru_get L c k)) = lru_cap L c) \<and>
     (\<forall>c k v. lru_view L (lru_put L c k v) \<subseteq>\<^sub>m (lru_view L c)(k \<mapsto> v) \<and>
        (0 < lru_cap L c \<longrightarrow> lru_view L (lru_put L c k v) k = Some v) \<and>
        lru_cap L (lru_put L c k v) = lru_cap L c) \<and>
     (\<forall>c. lru_view L (lru_clear L c) = Map.empty \<and> lru_cap L (lru_clear L c) = lru_cap L c) \<and>
     (\<forall>c k. lru_view L (lru_pop L c k) = (lru_view L c)(k := None) \<and> lru_cap L (lru_pop L c k) = lru_cap L c \<and>
        lru_contains L c k = (lru_view L c k \<noteq> None)) \<and>
     (\<forall>c. finite (dom (lru_view L c)) \<and> lru_len L c = card (dom (lru_view L c)) \<and>
        lru_len L c \<le> lru_cap L c)"

lemma lru_lawsD:
  assumes "lru_laws L"
  shows "0 < n \<Longrightarrow> lru_view L (lru_new L n) = Map.empty" "0 < n \<Longrightarrow> lru_cap L (lru_new L n) = n"
    and "fst (lru_get L c k) = lru_view L c k" "lru_view L (snd (lru_get L c k)) = lru_view L c"
    and "lru_cap L (snd (lru_get L c k)) = lru_cap L c"
    and "lru_view L (lru_put L c k v) \<subseteq>\<^sub>m (lru_view L c)(k \<mapsto> v)"
    and "0 < lru_cap L c \<Longrightarrow> lru_view L (lru_put L c k v) k = Some v"
    and "lru_cap L (lru_put L c k v) = lru_cap L c"
    and "lru_view L (lru_clear L c) = Map.empty" "lru_cap L (lru_clear L c) = lru_cap L c"
    and "lru_len L c = card (dom (lru_view L c))" "lru_len L c \<le> lru_cap L c"
    and "lru_view L (lru_pop L c k) = (lru_view L c)(k := None)" "lru_contains L c k = (lru_view L c k \<noteq> None)"
  using assms unfolding lru_laws_def by blast+

lemma lru_put_lookup:
  assumes "lru_laws L" "lru_view L (lru_put L c k v) k' = Some v'"
  shows "k' = k \<and> v' = v \<or> lru_view L c k' = Some v'"
  using lru_lawsD(6) [OF assms(1), of c k v] assms(2) unfolding map_le_def
  by (metis domI fun_upd_apply option.inject)

section \<open>An implementation on lists\<close>

type_synonym ('k, 'v) lru_list = "nat \<times> ('k \<times> 'v) list"

definition entries :: "('k, 'v) lru_list \<Rightarrow> ('k \<times> 'v) list" where
  "entries c = take (fst c) (snd c)"

definition list_put :: "('k, 'v) lru_list \<Rightarrow> 'k \<Rightarrow> 'v \<Rightarrow> ('k, 'v) lru_list" where
  "list_put c k v = (fst c, (k, v) # AList.delete k (entries c))"

definition list_get :: "('k, 'v) lru_list \<Rightarrow> 'k \<Rightarrow> 'v option \<times> ('k, 'v) lru_list" where
  "list_get c k =
     (case map_of (entries c) k of None \<Rightarrow> (None, c) | Some v \<Rightarrow> (Some v, list_put c k v))"

definition list_lru :: "(('k, 'v) lru_list, 'k, 'v) lru_ops" where
  "list_lru =
     \<lparr>lru_new = \<lambda>n. (n, []), lru_get = list_get, lru_put = list_put,
      lru_len = \<lambda>c. length (remdups (map fst (entries c))), lru_clear = \<lambda>c. (fst c, []),
      lru_pop = \<lambda>c k. (fst c, AList.delete k (entries c)), lru_contains = \<lambda>c k. map_of (entries c) k \<noteq> None,
      lru_view = \<lambda>c. map_of (entries c), lru_cap = fst\<rparr>"

lemma map_of_take_le: "map_of (take n xs) \<subseteq>\<^sub>m map_of xs"
  by (induction xs arbitrary: n) (auto simp: map_le_def take_Cons split: nat.splits)

lemma length_delete_present: "k \<in> fst ` set xs \<Longrightarrow> length (AList.delete k xs) < length xs"
proof (induction xs)
  case (Cons x xs)
  then show ?case using length_delete_le [of k xs] by (cases "k = fst x") auto
qed simp

lemma list_put_view:
  "map_of (entries (list_put c k v)) \<subseteq>\<^sub>m (map_of (entries c))(k \<mapsto> v)"
  "0 < fst c \<Longrightarrow> map_of (entries (list_put c k v)) k = Some v"
  "k \<in> fst ` set (entries c) \<Longrightarrow> map_of (entries (list_put c k v)) = (map_of (entries c))(k \<mapsto> v)"
proof -
  have all: "map_of ((k, v) # AList.delete k (entries c)) = (map_of (entries c))(k \<mapsto> v)"
    by (simp add: delete_conv')
  show "map_of (entries (list_put c k v)) \<subseteq>\<^sub>m (map_of (entries c))(k \<mapsto> v)"
    using map_of_take_le [of "fst c" "(k, v) # AList.delete k (entries c)"]
    unfolding all by (simp add: list_put_def entries_def)
  show "map_of (entries (list_put c k v)) k = Some v" if "0 < fst c"
    using that by (cases "fst c") (simp_all add: list_put_def entries_def)
  assume "k \<in> fst ` set (entries c)"
  from length_delete_present [OF this] have "length ((k, v) # AList.delete k (entries c)) \<le> fst c"
    by (simp add: entries_def)
  then show "map_of (entries (list_put c k v)) = (map_of (entries c))(k \<mapsto> v)"
    unfolding all [symmetric] by (simp add: list_put_def entries_def)
qed

lemma list_get_view:
  "fst (list_get c k) = map_of (entries c) k"
  "map_of (entries (snd (list_get c k))) = map_of (entries c)"
  "fst (snd (list_get c k)) = fst c"
proof -
  show "fst (list_get c k) = map_of (entries c) k" "fst (snd (list_get c k)) = fst c"
    by (simp_all add: list_get_def list_put_def split: option.splits)
  have "map_of (entries (list_put c k v)) = map_of (entries c)" if "map_of (entries c) k = Some v" for v
    using list_put_view(3) [of k c v] that
    by (metis domIff dom_map_of_conv_image_fst fun_upd_triv option.distinct(1))
  then show "map_of (entries (snd (list_get c k))) = map_of (entries c)"
    by (simp add: list_get_def split: option.splits)
qed

lemma list_len: "length (remdups (map fst xs)) = card (dom (map_of xs))"
  by (simp add: dom_map_of_conv_image_fst length_remdups_card_conv)

lemma list_lru_laws [simp]: "lru_laws (list_lru :: (('k, 'v) lru_list, 'k, 'v) lru_ops)"
proof -
  have "length (remdups (map fst (entries c))) \<le> fst c" for c :: "('k, 'v) lru_list"
    by (rule order_trans [OF length_remdups_leq]) (simp add: entries_def)
  moreover have "entries (fst c, AList.delete k (entries c)) = AList.delete k (entries c)"
    for c :: "('k, 'v) lru_list" and k
    using length_delete_le [of k "entries c"] by (simp add: entries_def)
  ultimately show ?thesis
    by (simp add: lru_laws_def list_lru_def list_put_view list_get_view list_len finite_dom_map_of delete_conv')
      (simp add: entries_def list_put_def)
qed

end
