(* ===== verification/Own_Chunks.thy ===== *)
theory Own_Chunks
  imports Self_Encryption_Properties
begin

text \<open>
  What decryption makes of the chunks that a data map itself lists, for the clients that fetch
  exactly these: for a map that was not shrunk they give the data; for a shrunk map the chunks of
  the root map are missing.
\<close>

definition own_chunks :: "se_env \<Rightarrow> DataMap \<Rightarrow> bytes list \<Rightarrow> bool" where
  "own_chunks C dm cs \<longleftrightarrow> list_all2 (\<lambda>info c. content_hash C c = dst_hash info) (infos dm) cs"

definition no_second_preimage :: "se_env \<Rightarrow> bytes set \<Rightarrow> bool" where
  "no_second_preimage C S \<longleftrightarrow> (\<forall>y \<in> S. \<forall>x. content_hash C x = content_hash C y \<longrightarrow> x = y)"

lemma no_second_preimage_inj: "no_second_preimage C S \<Longrightarrow> inj_on (content_hash C) S"
  by (auto simp: no_second_preimage_def intro: inj_onI)

lemma own_chunks_unique:
  assumes "own_chunks C (map_of_chunks C mcs data ecs) cs" "inj_on (content_hash C) S" "set ecs \<subseteq> S" "set cs \<subseteq> S"
  shows "cs = ecs"
proof (rule nth_equalityI)
  note hashes = assms(1) [unfolded own_chunks_def]
  show len: "length cs = length ecs" using list_all2_lengthD [OF hashes] by simp
  fix i assume "i < length cs"
  then have i: "i < length ecs" using len by simp
  have "dst_hash (infos (map_of_chunks C mcs data ecs) ! i) = content_hash C (ecs ! i)"
    using i by (simp add: nth_enumerate_eq info_nth_def)
  then have "content_hash C (cs ! i) = content_hash C (ecs ! i)"
    using list_all2_nthD2 [OF hashes, of i] i len by simp
  then show "cs ! i = ecs ! i" using assms(2-4) i len by (metis inj_onD nth_mem subsetD)
qed

lemma dst_hashes_map_of_chunks:
  "dst_hash ` set (infos (map_of_chunks C mcs data ecs)) = content_hash C ` set ecs"
proof -
  have "map dst_hash (infos (map_of_chunks C mcs data ecs)) = map (content_hash C) ecs"
    by (rule nth_equalityI) (simp_all add: nth_enumerate_eq info_nth_def)
  from arg_cong [OF this, of set] show ?thesis by (simp only: set_map)
qed

text \<open>The hashes of a map are those of chunks that encryption returned.\<close>

lemma encrypt_dst_hashes:
  assumes "encrypt C mcs fuel data = Some (Inr (dm, chunks))" "0 < mcs" "bincode_size C"
    and "18 + 80 * get_num_chunks mcs (length data) < 3 * mcs"
  shows "dst_hash ` set (infos dm) \<subseteq> content_hash C ` set chunks"
  using assms
proof (cases rule: encrypt_single_levelE)
  case (root ecs)
  then have "dm = map_of_chunks C mcs data ecs" using assms(2) by (auto elim!: one_level_okE)
  then show ?thesis using root(2) by (simp only: dst_hashes_map_of_chunks)
next
  case (shrunk root ecs bs dm1 ecs1)
  then have "dm1 = map_of_chunks C mcs bs ecs1" using assms(2) by (auto elim!: one_level_okE)
  then have "dst_hash ` set (infos dm) = content_hash C ` set ecs1"
    using shrunk(4) infos_with_child_sorted [of dm1 C mcs bs ecs1 1] by (simp only: dst_hashes_map_of_chunks)
  then show ?thesis using shrunk(5) by auto
qed

lemma own_chunks_mem:
  assumes "own_chunks C dm cs" "dst_hash ` set (infos dm) \<subseteq> content_hash C ` S" "no_second_preimage C S"
  shows "set cs \<subseteq> S"
proof
  fix c assume "c \<in> set cs"
  then obtain j where j: "j < length cs" "cs ! j = c" by (auto simp: in_set_conv_nth)
  note len = list_all2_lengthD [OF assms(1) [unfolded own_chunks_def]]
  have "infos dm ! j \<in> set (infos dm)" using j len by simp
  moreover have "content_hash C c = dst_hash (infos dm ! j)"
    using list_all2_nthD2 [OF assms(1) [unfolded own_chunks_def]] j by auto
  ultimately obtain info where "info \<in> set (infos dm)" "content_hash C c = dst_hash info" by blast
  then obtain y where "y \<in> S" "content_hash C c = content_hash C y" using assms(2) by blast
  then show "c \<in> S" using assms(3) unfolding no_second_preimage_def by blast
qed

lemma own_chunks_decrypt:
  assumes "se_laws C" "bincode_size C" "0 < mcs" "18 + 80 * get_num_chunks mcs (length data) < 3 * mcs"
    and "encrypt C mcs fuel data = Some (Inr (dm, chunks))" "\<not> is_child dm"
    and "inj_on (content_hash C) (set chunks)" "own_chunks C dm cs" "set cs \<subseteq> set chunks"
  shows "decrypt C dm cs = Inr data"
proof -
  obtain ecs where lvl: "encrypt_one_level C mcs data 0 = Inr (dm, ecs)" "chunks = ecs"
    using assms(5,3,2,4)
  proof (cases rule: encrypt_single_levelE)
    case (shrunk root ecs bs' dm1 ecs1)
    then show ?thesis using assms(6) by (simp add: is_child_def with_child_def)
  qed (use that in blast)
  have "dm = map_of_chunks C mcs data ecs" using lvl(1) assms(3) by (auto elim: one_level_okE)
  then have "cs = chunks" using own_chunks_unique [of C mcs data ecs cs "set chunks"] assms(7-9) lvl(2) by simp
  then show ?thesis using encrypt_decrypt [OF assms(1-5,7)] by simp
qed

lemma shrunk_own_chunks_missing:
  assumes "se_laws C" "bincode_size C" "0 < mcs" "18 + 80 * get_num_chunks mcs (length data) < 3 * mcs"
    and "encrypt C mcs fuel data = Some (Inr (dm, chunks))" "is_child dm"
    and "inj_on (content_hash C) (set chunks)" "content_hash C (hd chunks) \<notin> dst_hash ` set (infos dm)"
    and "own_chunks C dm cs" "set cs \<subseteq> set chunks"
  shows "\<exists>h. decrypt C dm cs = Inl (Generic (MissingChunk h))"
  using assms(5,3,2,4)
proof (cases rule: encrypt_single_levelE)
  case (shrunk root ecs rs dm1 ecs1)
    have root: "root = map_of_chunks C mcs data ecs" "3 \<le> length data" "length ecs = get_num_chunks mcs (length data)"
      and dm1: "dm1 = map_of_chunks C mcs rs ecs1"
      using shrunk(1,3) assms(3) by (auto elim!: one_level_okE)
    have "ecs \<noteq> []" using root(3) num_chunks_ge_3 [OF assms(3) root(2)] by auto
    then have hd: "ecs \<noteq> []" "hd chunks = ecs ! 0" using shrunk(5) by (simp_all add: hd_append hd_conv_nth)
    have infos: "infos dm = infos dm1" using shrunk(4) infos_with_child_sorted [of dm1] dm1 by simp
    have "own_chunks C dm1 cs" using assms(9) by (simp add: own_chunks_def infos)
    then have cs: "cs = ecs1" using own_chunks_unique [of C mcs rs ecs1 cs "set chunks"] assms(7,10) dm1 shrunk(5) by simp
    have own: "dst_hash ` set (infos dm) = content_hash C ` set ecs1" by (simp only: infos dm1 dst_hashes_map_of_chunks)
    have "from_bytes (bincode_deserialize C) rs = Inr root"
      using shrunk(2) assms(1) by (auto intro: from_bytes_to_bytes simp: se_laws_def)
    then have "get_root_data_map C (lookup_chunk C ecs1) () dm = Inr root"
      using get_root_step [OF assms(1,3) shrunk(3) inj_on_subset [OF assms(7)], of ecs1 root] shrunk(4-6)
      by (auto simp: is_child_def)
    moreover have "infos root ! 0 \<in> set (infos root)" "dst_hash (infos root ! 0) = content_hash C (hd chunks)"
    proof -
      have "0 < length (infos root)" using hd(1) by (simp add: root(1))
      then show "infos root ! 0 \<in> set (infos root)" by (rule nth_mem)
      show "dst_hash (infos root ! 0) = content_hash C (hd chunks)"
        using hd by (simp add: root(1) nth_enumerate_eq info_nth_def)
    qed
    then obtain h where "traverse (\<lambda>x. ok_or (Generic (MissingChunk (dst_hash x))) (chunk_map C ecs1 (dst_hash x))) (infos root) =
        Inl (Generic (MissingChunk h))"
      using root_lookup_missing [of "infos root ! 0" root C ecs1] assms(8) own by auto
    ultimately show ?thesis using assms(6) shrunk(5) cs by (simp add: decrypt_def)
qed (use assms(6) in \<open>simp add: is_child_def\<close>)

end
