(* ===== verification/Wasm_Client.thy ===== *)
theory Wasm_Client
  imports Wt_Session_Correct Lru Own_Chunks
begin

text \<open>
  The browser client: \<open>src/ant-wasm/src/client.rs\<close> (\<open>DownloadClient\<close>) and the parsing of
  addresses in \<open>src/ant-wasm/src/lib.rs\<close>.

  The network is an argument: \<open>net q\<close> is the exchange on the stream with sequence number \<open>q\<close>, so
  that a server may behave differently on every stream. \<open>wasm_env\<close> collects the arguments of the
  layers below. Messages to the console are left out.
\<close>

section \<open>The client\<close>

definition CACHE_CAPACITY :: nat where "CACHE_CAPACITY = 1024"

datatype download_error =
    EncodeFailed ProtocolError
  | TransportFailed client_error
  | DecodeFailed ProtocolError
  | ResponseAddressMismatch xorname xorname
  | ContentHashMismatch xorname xorname
  | RemoteError ProtocolError
  | UnexpectedResponse
  | DataMapNotFound xorname
  | DataMapInvalid string
  | ChunkMissing nat nat xorname
  | DownloadDecryptFailed se_error
  | CacheBorrowPanic

record wasm_env =
  codec :: postcard
  tunnel :: tunnel_env
  crypt :: se_env

record 'c DownloadClient =
  transport :: WtTransport
  next_request_id :: u64
  chunk_lru :: "('c, xorname, bytes) lru_ops"
  cache :: 'c

definition DownloadClient_new :: "('c, xorname, bytes) lru_ops \<Rightarrow> WtTransport \<Rightarrow> 'c DownloadClient" where
  "DownloadClient_new L t =
     \<lparr>transport = t, next_request_id = 1, chunk_lru = L, cache = lru_new L CACHE_CAPACITY\<rparr>"

definition fetch_request_id :: "'c DownloadClient \<Rightarrow> u64 \<times> 'c DownloadClient" where
  "fetch_request_id dc = (next_request_id dc, dc\<lparr>next_request_id := next_request_id dc + 1\<rparr>)"

definition check_get_response :: "postcard \<Rightarrow> xorname \<Rightarrow> ChunkMessageBody \<Rightarrow> download_error + DataChunk option" where
  "check_get_response P addr b =
     (case b of
        GetResponse (GetSuccess a data) \<Rightarrow>
          if a \<noteq> addr then Inl (ResponseAddressMismatch addr a)
          else if compute_address P data \<noteq> a then Inl (ContentHashMismatch a (compute_address P data))
          else Inr (Some (DataChunk_new a data))
      | GetResponse (GetNotFound a) \<Rightarrow> Inr None
      | GetResponse (GetError e) \<Rightarrow> Inl (RemoteError e)
      | _ \<Rightarrow> Inl UnexpectedResponse)"

definition chunk_get_remote ::
  "wasm_env \<Rightarrow> (u32 \<Rightarrow> bytes \<Rightarrow> string + bytes list) \<Rightarrow> 'c DownloadClient \<Rightarrow> xorname \<Rightarrow>
   (download_error + DataChunk option) \<times> 'c DownloadClient" where
  "chunk_get_remote E net dc addr =
     (let (rid, dc1) = fetch_request_id dc
      in case msg_encode (codec E) \<lparr>request_id = rid, body = GetRequest (ChunkGetRequest_new addr)\<rparr> of
           Inl e \<Rightarrow> (Inl (EncodeFailed e), dc1)
         | Inr message_bytes \<Rightarrow>
             (case send_request (tunnel E) (net (stream_seq (transport dc1))) (transport dc1) message_bytes of
                (Inl e, t) \<Rightarrow> (Inl (TransportFailed e), dc1\<lparr>transport := t\<rparr>)
              | (Inr response_bytes, t) \<Rightarrow>
                  (case msg_decode (codec E) response_bytes of
                     Inl e \<Rightarrow> (Inl (DecodeFailed e), dc1\<lparr>transport := t\<rparr>)
                   | Inr response \<Rightarrow>
                       (case check_get_response (codec E) addr (body response) of
                          Inr (Some chunk) \<Rightarrow>
                            (Inr (Some chunk),
                             dc1\<lparr>transport := t, cache := lru_put (chunk_lru dc1) (cache dc1) addr (content chunk)\<rparr>)
                        | r \<Rightarrow> (r, dc1\<lparr>transport := t\<rparr>)))))"

text \<open>
  The cache is a \<open>RefCell\<close>. In \<open>if let Some(cached) = self.cache.borrow_mut().get(...)\<close> the borrow lasts
  until the end of the \<open>if let\<close> (edition 2021), so the second \<open>borrow_mut\<close>, which is to drop a cached
  chunk whose hash is wrong, panics: the outcome \<open>CacheBorrowPanic\<close>. The lemma \<open>chunk_get_sound\<close>
  below shows that a client never gets there.
\<close>

definition chunk_get ::
  "wasm_env \<Rightarrow> (u32 \<Rightarrow> bytes \<Rightarrow> string + bytes list) \<Rightarrow> 'c DownloadClient \<Rightarrow> xorname \<Rightarrow>
   (download_error + DataChunk option) \<times> 'c DownloadClient" where
  "chunk_get E net dc addr =
     (let (hit, c1) = lru_get (chunk_lru dc) (cache dc) addr; dc1 = dc\<lparr>cache := c1\<rparr>
      in case hit of
           Some cached \<Rightarrow>
             if compute_address (codec E) cached = addr
             then (Inr (Some (DataChunk_new addr cached)), dc1)
             else (Inl CacheBorrowPanic, dc1)
         | None \<Rightarrow> chunk_get_remote E net dc1 addr)"

fun fetch_encrypted ::
  "wasm_env \<Rightarrow> (u32 \<Rightarrow> bytes \<Rightarrow> string + bytes list) \<Rightarrow> nat \<Rightarrow> nat \<Rightarrow> ChunkInfo list \<Rightarrow> 'c DownloadClient \<Rightarrow>
   (download_error + bytes list) \<times> 'c DownloadClient" where
  "fetch_encrypted E net n i [] dc = (Inr [], dc)"
| "fetch_encrypted E net n i (info # rest) dc =
     (case chunk_get E net dc (dst_hash info) of
        (Inl e, dc1) \<Rightarrow> (Inl e, dc1)
      | (Inr None, dc1) \<Rightarrow> (Inl (ChunkMissing (i + 1) n (dst_hash info)), dc1)
      | (Inr (Some chunk), dc1) \<Rightarrow>
          (case fetch_encrypted E net n (i + 1) rest dc1 of
             (Inl e, dc2) \<Rightarrow> (Inl e, dc2)
           | (Inr cs, dc2) \<Rightarrow> (Inr (content chunk # cs), dc2)))"

definition download_from_address ::
  "wasm_env \<Rightarrow> (u32 \<Rightarrow> bytes \<Rightarrow> string + bytes list) \<Rightarrow> 'c DownloadClient \<Rightarrow> xorname \<Rightarrow>
   (download_error + bytes) \<times> 'c DownloadClient" where
  "download_from_address E net dc addr =
     (case chunk_get E net dc addr of
        (Inl e, dc1) \<Rightarrow> (Inl e, dc1)
      | (Inr None, dc1) \<Rightarrow> (Inl (DataMapNotFound addr), dc1)
      | (Inr (Some datamap_chunk), dc1) \<Rightarrow>
          (case from_bytes (bincode_deserialize (crypt E)) (content datamap_chunk) of
             Inl e \<Rightarrow> (Inl (DataMapInvalid e), dc1)
           | Inr data_map \<Rightarrow>
               (case fetch_encrypted E net (length (infos data_map)) 0 (infos data_map) dc1 of
                  (Inl e, dc2) \<Rightarrow> (Inl e, dc2)
                | (Inr encrypted_chunks, dc2) \<Rightarrow>
                    (map_err DownloadDecryptFailed (decrypt (crypt E) data_map encrypted_chunks), dc2))))"

section \<open>Arguments from JavaScript\<close>

definition parse_hex_address :: "(string \<Rightarrow> string + bytes) \<Rightarrow> string \<Rightarrow> string + xorname" where
  "parse_hex_address hex_decode hex_str =
     try_bind (map_err (\<lambda>e. ''invalid hex: '' @ e) (hex_decode hex_str)) (\<lambda>b.
     if length b \<noteq> 32 then Inl ''expected 32 bytes'' else Inr b)"

definition parse_peer_id :: "bytes \<Rightarrow> string + bytes" where
  "parse_peer_id b = (if length b \<noteq> 32 then Inl ''expected 32 bytes'' else Inr b)"

datatype js_error = InvalidAddress string | DownloadFailed download_error | FetchFailed download_error | ChunkNotFoundJs
  | InvalidPeerId string | ConnectionFailed client_error

definition connect_with_identity ::
  "tunnel_env \<Rightarrow> pq_env \<Rightarrow> (bytes \<Rightarrow> string + bytes list) \<Rightarrow> ('c, xorname, bytes) lru_ops \<Rightarrow> bytes \<Rightarrow> bytes \<Rightarrow>
   js_error + 'c DownloadClient" where
  "connect_with_identity T H exchange L peer_id rnd =
     try_bind (map_err InvalidPeerId (parse_peer_id peer_id)) (\<lambda>p.
     try_bind (map_err ConnectionFailed (connect T H exchange (Some p) rnd)) (\<lambda>t.
     Inr (DownloadClient_new L t)))"

definition download ::
  "wasm_env \<Rightarrow> (u32 \<Rightarrow> bytes \<Rightarrow> string + bytes list) \<Rightarrow> (string \<Rightarrow> string + bytes) \<Rightarrow> 'c DownloadClient \<Rightarrow> string \<Rightarrow>
   (js_error + bytes) \<times> 'c DownloadClient" where
  "download E net hex_decode dc address_hex =
     (case parse_hex_address hex_decode address_hex of
        Inl e \<Rightarrow> (Inl (InvalidAddress e), dc)
      | Inr addr \<Rightarrow>
          (let (r, dc') = download_from_address E net dc addr in (map_err DownloadFailed r, dc')))"

definition fetch_chunk ::
  "wasm_env \<Rightarrow> (u32 \<Rightarrow> bytes \<Rightarrow> string + bytes list) \<Rightarrow> (string \<Rightarrow> string + bytes) \<Rightarrow> 'c DownloadClient \<Rightarrow> string \<Rightarrow>
   (js_error + bytes) \<times> 'c DownloadClient" where
  "fetch_chunk E net hex_decode dc address_hex =
     (case parse_hex_address hex_decode address_hex of
        Inl e \<Rightarrow> (Inl (InvalidAddress e), dc)
      | Inr addr \<Rightarrow>
          (let (r, dc') = chunk_get E net dc addr
           in (try_bind (map_err FetchFailed r) (\<lambda>c. try_bind (ok_or ChunkNotFoundJs c) (\<lambda>chunk. Inr (content chunk))), dc')))"

section \<open>What the client returns is authentic\<close>

lemma check_get_response_hash:
  "check_get_response P addr b = Inr (Some c) \<Longrightarrow> address c = addr \<and> compute_address P (content c) = addr"
  by (auto simp: check_get_response_def DataChunk_new_def split: ChunkMessageBody.splits ChunkGetResponse.splits if_splits)

lemma chunk_get_remote_hash:
  "fst (chunk_get_remote E net dc addr) = Inr (Some c) \<Longrightarrow> address c = addr \<and> compute_address (codec E) (content c) = addr"
  using check_get_response_hash
  by (auto simp: chunk_get_remote_def fetch_request_id_def split: sum.splits prod.splits option.splits)

lemma chunk_get_hash:
  "fst (chunk_get E net dc addr) = Inr (Some c) \<Longrightarrow> address c = addr \<and> compute_address (codec E) (content c) = addr"
  using chunk_get_remote_hash
  by (fastforce simp: chunk_get_def DataChunk_new_def Let_def split: option.splits prod.splits if_splits)

text \<open>
  The cache holds chunks under their own addresses only: this holds of a new client and after every
  \<open>chunk_get\<close>, and excludes the panic.
\<close>

definition cache_sound :: "wasm_env \<Rightarrow> 'c DownloadClient \<Rightarrow> bool" where
  "cache_sound E dc \<longleftrightarrow> lru_laws (chunk_lru dc) \<and>
     (\<forall>a v. lru_view (chunk_lru dc) (cache dc) a = Some v \<longrightarrow> compute_address (codec E) v = a)"

lemma cache_sound_new: "lru_laws L \<Longrightarrow> cache_sound E (DownloadClient_new L t)"
  using lru_lawsD(1) [of L CACHE_CAPACITY] by (simp add: cache_sound_def DownloadClient_new_def CACHE_CAPACITY_def)

lemma chunk_get_remote_sound:
  assumes "cache_sound E dc"
  shows "cache_sound E (snd (chunk_get_remote E net dc addr)) \<and> fst (chunk_get_remote E net dc addr) \<noteq> Inl CacheBorrowPanic"
proof -
  have put: "cache_sound E (dc\<lparr>next_request_id := r, transport := t, cache := lru_put (chunk_lru dc) (cache dc) addr (content c)\<rparr>)"
    if "check_get_response (codec E) addr b = Inr (Some c)" for r t b c
    using assms check_get_response_hash [OF that] lru_put_lookup [of "chunk_lru dc" "cache dc" addr "content c"]
    by (auto simp: cache_sound_def)
  have keep: "cache_sound E (dc\<lparr>next_request_id := r, transport := t\<rparr>)" "cache_sound E (dc\<lparr>next_request_id := r\<rparr>)" for r t
    using assms by (simp_all add: cache_sound_def)
  have "check_get_response (codec E) addr b \<noteq> Inl CacheBorrowPanic" for b
    by (simp add: check_get_response_def split: ChunkMessageBody.splits ChunkGetResponse.splits)
  with put keep show ?thesis
    by (auto simp: chunk_get_remote_def fetch_request_id_def Let_def split: sum.splits prod.splits option.splits)
qed

lemma chunk_get_sound:
  assumes "cache_sound E dc"
  shows "cache_sound E (snd (chunk_get E net dc addr)) \<and> fst (chunk_get E net dc addr) \<noteq> Inl CacheBorrowPanic"
proof -
  let ?L = "chunk_lru dc"
  obtain hit c1 where g: "lru_get ?L (cache dc) addr = (hit, c1)" by fastforce
  have L: "lru_laws ?L" using assms by (simp add: cache_sound_def)
  have hit: "hit = lru_view ?L (cache dc) addr" and c1: "lru_view ?L c1 = lru_view ?L (cache dc)"
    using lru_lawsD(3,4) [OF L, of "cache dc" addr] g by simp_all
  then have "cache_sound E (dc\<lparr>cache := c1\<rparr>)" using assms by (simp add: cache_sound_def)
  moreover have "compute_address (codec E) v = addr" if "hit = Some v" for v
    using assms that hit by (simp add: cache_sound_def)
  ultimately show ?thesis
    using chunk_get_remote_sound [of E "dc\<lparr>cache := c1\<rparr>" net addr]
    by (auto simp: chunk_get_def g Let_def split: option.splits)
qed

lemma fetch_encrypted_hashes:
  "fst (fetch_encrypted E net n i is dc) = Inr cs \<Longrightarrow>
   list_all2 (\<lambda>info c. compute_address (codec E) c = dst_hash info) is cs"
proof (induction "is" arbitrary: i dc cs)
  case (Cons info rest)
  obtain r dc1 where g: "chunk_get E net dc (dst_hash info) = (r, dc1)" by fastforce
  obtain r2 dc2 where f: "fetch_encrypted E net n (Suc i) rest dc1 = (r2, dc2)" by fastforce
  from Cons.prems obtain c cs' where r: "r = Inr (Some c)" "r2 = Inr cs'" "cs = content c # cs'"
    by (auto simp: g f split: sum.splits option.splits)
  then show ?case
    using Cons.IH [of "Suc i" dc1 cs'] chunk_get_hash [of E net dc "dst_hash info" c] by (simp add: g f)
qed simp

section \<open>Sources that serve every chunk\<close>

text \<open>
  The contract between the download and the chunks it reads: in a state that is \<open>ready\<close> for
  another \<open>n + 1\<close> chunks, \<open>chunk_get\<close> on the address of a chunk that is held returns it and
  leaves the client ready for \<open>n\<close> more.
\<close>

locale chunk_source =
  fixes E :: wasm_env and net :: "u32 \<Rightarrow> bytes \<Rightarrow> string + bytes list"
    and held :: "xorname \<rightharpoonup> bytes" and ready :: "nat \<Rightarrow> 'c DownloadClient \<Rightarrow> bool"
  assumes serves: "ready (Suc n) dc \<Longrightarrow> held a = Some v \<Longrightarrow>
    \<exists>dc'. chunk_get E net dc a = (Inr (Some (DataChunk_new a v)), dc') \<and> ready n dc'"
begin

lemma fetch_encrypted_complete:
  "ready (length is + k) dc \<Longrightarrow> list_all2 (\<lambda>info c. held (dst_hash info) = Some c) is cs \<Longrightarrow>
   \<exists>dc'. fetch_encrypted E net n i is dc = (Inr cs, dc') \<and> ready k dc'"
proof (induction "is" arbitrary: i dc cs)
  case (Cons info rest)
  then obtain c cs' where cs: "cs = c # cs'" "held (dst_hash info) = Some c"
      "list_all2 (\<lambda>info c. held (dst_hash info) = Some c) rest cs'"
    by (auto simp: list_all2_Cons1)
  obtain dc1 where dc1: "chunk_get E net dc (dst_hash info) = (Inr (Some (DataChunk_new (dst_hash info) c)), dc1)"
      "ready (length rest + k) dc1"
    using serves [of "length rest + k" dc] Cons.prems(1) cs(2) by auto
  from Cons.IH [OF dc1(2) cs(3), of "i + 1"] show ?case using dc1(1) cs(1) by (auto simp: DataChunk_new_def)
qed auto

lemma download_complete:
  assumes "ready (Suc (length (infos dm) + k)) dc" "held addr = Some bs"
    and "from_bytes (bincode_deserialize (crypt E)) bs = Inr dm"
    and "list_all2 (\<lambda>info c. held (dst_hash info) = Some c) (infos dm) cs"
  shows "\<exists>dc'. download_from_address E net dc addr = (map_err DownloadDecryptFailed (decrypt (crypt E) dm cs), dc') \<and> ready k dc'"
proof -
  obtain dc1 where dc1: "chunk_get E net dc addr = (Inr (Some (DataChunk_new addr bs)), dc1)" "ready (length (infos dm) + k) dc1"
    using serves [OF assms(1,2)] by blast
  from fetch_encrypted_complete [OF dc1(2) assms(4), of "length (infos dm)" 0] show ?thesis
    using dc1(1) assms(3) by (auto simp: download_from_address_def DataChunk_new_def)
qed

end

text \<open>A client whose cache holds the chunks serves them whatever the network does.\<close>

definition cached_client :: "wasm_env \<Rightarrow> (xorname \<rightharpoonup> bytes) \<Rightarrow> nat \<Rightarrow> 'c DownloadClient \<Rightarrow> bool" where
  "cached_client E held n dc \<longleftrightarrow> lru_laws (chunk_lru dc) \<and> held \<subseteq>\<^sub>m lru_view (chunk_lru dc) (cache dc) \<and>
     (\<forall>a v. held a = Some v \<longrightarrow> compute_address (codec E) v = a)"

interpretation cached: chunk_source E net held "cached_client E held" for E net held
proof
  fix n a v and dc :: "'a DownloadClient"
  assume c: "cached_client E held (Suc n) dc" "held a = Some v"
  then have l: "lru_laws (chunk_lru dc)" "lru_view (chunk_lru dc) (cache dc) a = Some v" "compute_address (codec E) v = a"
    by (auto simp: cached_client_def map_le_def) (metis domI)
  show "\<exists>dc'. chunk_get E net dc a = (Inr (Some (DataChunk_new a v)), dc') \<and> cached_client E held n dc'"
    using lru_lawsD(3,4) [OF l(1), of "cache dc" a] l c
    by (auto simp: chunk_get_def cached_client_def Let_def split: prod.splits)
qed

text \<open>
  C4: Whatever the server sends, a download that returns at all returns the uploaded data. For
  data whose data map was not shrunk, and a hash without collisions with the map and the chunks,
  \<open>download_from_address\<close> on the address of the data map either fails or yields exactly the data that
  was encrypted; and the result of every \<open>chunk_get\<close> hashes to the requested address.
\<close>

theorem download_is_authentic:
  assumes "se_laws (crypt E)" "bincode_size (crypt E)" "0 < mcs"
    and "18 + 80 * get_num_chunks mcs (length data) < 3 * mcs"
    and "encrypt (crypt E) mcs fuel data = Some (Inr (dm, chunks))" "\<not> is_child dm"
    and "to_bytes (bincode_serialize (crypt E)) dm = Inr bs"
    and "\<And>c. content_hash (crypt E) c = compute_address (codec E) c"
    and "\<And>x y. y \<in> insert bs (set chunks) \<Longrightarrow> compute_address (codec E) x = compute_address (codec E) y \<Longrightarrow> x = y"
  shows "(\<forall>out. fst (download_from_address E net dc (compute_address (codec E) bs)) = Inr out \<longrightarrow> out = data) \<and>
         (\<forall>a c. fst (chunk_get E net dc a) = Inr (Some c) \<longrightarrow> compute_address (codec E) (content c) = a)"
proof (intro conjI allI impI)
  fix out
  assume out: "fst (download_from_address E net dc (compute_address (codec E) bs)) = Inr out"
  obtain r dc1 where g: "chunk_get E net dc (compute_address (codec E) bs) = (r, dc1)" by fastforce
  with out obtain c where r: "r = Inr (Some c)"
    by (auto simp: download_from_address_def split: sum.splits option.splits)
  then have "content c = bs" using chunk_get_hash [of E net dc _ c] g assms(9) [of bs "content c"] by simp
  moreover have "from_bytes (bincode_deserialize (crypt E)) bs = Inr dm"
    using assms(1,7) by (auto intro: from_bytes_to_bytes simp: se_laws_def)
  moreover obtain r2 dc2 where f: "fetch_encrypted E net (length (infos dm)) 0 (infos dm) dc1 = (r2, dc2)" by fastforce
  ultimately obtain cs where cs: "r2 = Inr cs" "decrypt (crypt E) dm cs = Inr out"
    using out g r by (auto simp: download_from_address_def map_err_Inr split: sum.splits)
  have "own_chunks (crypt E) dm cs"
    using fetch_encrypted_hashes [of E net "length (infos dm)" 0 "infos dm" dc1 cs] f cs(1) assms(8) by (simp add: own_chunks_def)
  moreover have "no_second_preimage (crypt E) (set chunks)"
    using assms(8,9) unfolding no_second_preimage_def by (metis insertCI)
  ultimately have "decrypt (crypt E) dm cs = Inr data"
    using own_chunks_decrypt [OF assms(1-6)] own_chunks_mem [OF _ encrypt_dst_hashes [OF assms(5,3,2,4)]]
      no_second_preimage_inj by blast
  then show "out = data" using cs(2) by simp
next
  fix a c
  assume "fst (chunk_get E net dc a) = Inr (Some c)"
  then show "compute_address (codec E) (content c) = a" using chunk_get_hash by blast
qed

definition pinned_hash :: "bytes \<Rightarrow> bytes \<Rightarrow> bytes" where
  "pinned_hash m x =
     (if length x = 1 then 0 # x @ replicate 30 0 else if x = m then 1 # replicate 31 0 else 2 # replicate 31 0)"

definition pinned_map :: DataMap where
  "pinned_map =
     \<lparr>chunk_identifiers = map (\<lambda>i. \<lparr>index = i, dst_hash = [0, word_of_nat (i + 1)] @ replicate 30 0,
        src_hash = [0, word_of_nat (i + 1)] @ replicate 30 0, src_size = 1\<rparr>) [0, 1, 2], child = None\<rparr>"

definition pinned_bytes :: bytes where
  "pinned_bytes = enc_versioned (serialize_versioned pinned_map)"

definition pinned_env :: wasm_env where
  "pinned_env =
     \<lparr>codec = \<lparr>to_stdvec = \<lambda>m. Inl ''down'', from_postcard = \<lambda>b. Inl ''down'', blake3 = pinned_hash pinned_bytes\<rparr>,
      tunnel = sample_tunnel, crypt = sample_env\<lparr>blake3_hash := pinned_hash pinned_bytes\<rparr>\<rparr>"

definition pinned_client :: "(nat \<times> (xorname \<times> bytes) list) DownloadClient" where
  "pinned_client =
     \<lparr>transport = \<lparr>cipher = \<lparr>key = []\<rparr>, stream_seq = 0\<rparr>, next_request_id = 1, chunk_lru = list_lru,
      cache = (4, (1 # replicate 31 0, pinned_bytes) # map (\<lambda>x. (0 # x # replicate 30 0, [x])) [1, 2, 3])\<rparr>"

lemma pinned_encrypt: "encrypt (crypt pinned_env) 160 8 [1, 2, 3] = Some (Inr (pinned_map, [[1], [2], [3]]))"
  by code_simp

lemma pinned_to_bytes: "to_bytes (bincode_serialize (crypt pinned_env)) pinned_map = Inr pinned_bytes"
proof -
  have "wf_versioned (serialize_versioned pinned_map)"
    by (simp add: wf_versioned_def wf_info_def serialize_versioned_def pinned_map_def USIZE_LIMIT_def)
  then show ?thesis by (simp add: to_bytes_def pinned_env_def sample_env_def pinned_bytes_def)
qed

lemma pinned_length: "length pinned_bytes \<noteq> 1"
  by (simp add: pinned_bytes_def enc_versioned_def enc_child_def)

lemma pinned_laws: "se_laws (crypt pinned_env)" "bincode_size (crypt pinned_env)"
  using sample_env_laws sample_env_size
  by (simp_all add: pinned_env_def se_laws_def bincode_size_def pinned_hash_def)

lemma pinned_collisions:
  "y \<in> {pinned_bytes, [1], [2], [3]} \<Longrightarrow> pinned_hash pinned_bytes x = pinned_hash pinned_bytes y \<Longrightarrow> x = y"
proof -
  show "y \<in> {pinned_bytes, [1], [2], [3]} \<Longrightarrow> pinned_hash pinned_bytes x = pinned_hash pinned_bytes y \<Longrightarrow> x = y"
    using pinned_length by (auto simp: pinned_hash_def length_Suc_conv split: if_splits)
qed

lemma pinned_hashes:
  "compute_address (codec pinned_env) x = pinned_hash pinned_bytes x"
  "content_hash (crypt pinned_env) x = pinned_hash pinned_bytes x"
  "pinned_hash pinned_bytes pinned_bytes = 1 # replicate 31 0"
proof -
  show "pinned_hash pinned_bytes pinned_bytes = 1 # replicate 31 0" by code_simp
qed (simp_all add: compute_address_def content_hash_def pinned_env_def)

definition pinned_store :: "xorname \<rightharpoonup> bytes" where
  "pinned_store = map_of ((1 # replicate 31 0, pinned_bytes) # map (\<lambda>x. (0 # x # replicate 30 0, [x])) [1, 2, 3])"

lemma pinned_cached: "cached_client pinned_env pinned_store n pinned_client"
proof -
  have "pinned_store a = Some v \<Longrightarrow> pinned_hash pinned_bytes v = a" for a v
    using pinned_length by (auto simp: pinned_store_def pinned_hash_def dest: arg_cong [where f = length] split: if_splits)
  then show ?thesis
    by (simp add: cached_client_def pinned_client_def pinned_hashes) (simp add: pinned_store_def list_lru_def entries_def)
qed

lemma download_is_authentic_witness:
  "fst (download_from_address pinned_env (\<lambda>q b. Inl ''down'') pinned_client (1 # replicate 31 0)) = Inr [1, 2, 3]"
proof -
  have "18 + 80 * get_num_chunks 160 (length [1, 2, 3 :: byte]) < 3 * 160" "\<not> is_child pinned_map" by code_simp+
  note small = this
  have "out = [1, 2, 3]"
    if "fst (download_from_address pinned_env (\<lambda>q b. Inl ''down'') pinned_client (1 # replicate 31 0)) = Inr out" for out
  proof -
    have "y \<in> insert pinned_bytes (set [[1], [2], [3]]) \<Longrightarrow>
        compute_address (codec pinned_env) x = compute_address (codec pinned_env) y \<Longrightarrow> x = y" for x y
      using pinned_collisions [of y x] by (simp add: pinned_hashes)
    moreover have "content_hash (crypt pinned_env) c = compute_address (codec pinned_env) c" for c
      by (simp only: pinned_hashes)
    ultimately show ?thesis
      using download_is_authentic [OF pinned_laws _ small(1) pinned_encrypt small(2) pinned_to_bytes,
          of "\<lambda>q b. Inl ''down''" pinned_client] that
      by (simp only: pinned_hashes)
  qed
  moreover have "from_bytes (bincode_deserialize (crypt pinned_env)) pinned_bytes = Inr pinned_map"
    using pinned_laws(1) pinned_to_bytes by (auto intro: from_bytes_to_bytes simp: se_laws_def)
  moreover have "list_all2 (\<lambda>info c. pinned_store (dst_hash info) = Some c) (infos pinned_map) [[1], [2], [3]]"
    "pinned_store (1 # replicate 31 0) = Some pinned_bytes" "is_ok (decrypt (crypt pinned_env) pinned_map [[1], [2], [3]])"
    by code_simp+
  ultimately show ?thesis
    using cached.download_complete [OF pinned_cached, where dm = pinned_map and bs = pinned_bytes and cs = "[[1], [2], [3]]"
        and addr = "1 # replicate 31 0" and net = "\<lambda>q b. Inl ''down''"]
    by (fastforce simp: is_ok_iff)
qed

section \<open>Data maps that were shrunk\<close>

text \<open>
  C36: The browser cannot download data of more than three chunks. When \<open>encrypt\<close> shrank the data
  map, \<open>download_from_address\<close> fetches the chunks of the shrunk map only, resolves it to the root map
  and then misses the chunks of the data: it fails with \<open>MissingChunk\<close> even when the data map and
  every encrypted chunk are at hand.
\<close>

theorem shrunk_download_fails:
  assumes "se_laws (crypt E)" "bincode_size (crypt E)" "0 < mcs"
    and "18 + 80 * get_num_chunks mcs (length data) < 3 * mcs"
    and "encrypt (crypt E) mcs fuel data = Some (Inr (dm, chunks))" "is_child dm"
    and "to_bytes (bincode_serialize (crypt E)) dm = Inr bs"
    and "\<And>c. content_hash (crypt E) c = compute_address (codec E) c"
    and "content_hash (crypt E) (hd chunks) \<notin> dst_hash ` set (infos dm)"
    and "cached_client E held n dc" "\<And>v. v \<in> insert bs (set chunks) \<Longrightarrow> held (compute_address (codec E) v) = Some v"
  shows "\<exists>h. fst (download_from_address E net dc (compute_address (codec E) bs)) =
           Inl (DownloadDecryptFailed (Generic (MissingChunk h)))"
proof -
  let ?C = "crypt E" and ?cs = "map (\<lambda>info. the (held (dst_hash info))) (infos dm)"
  have inj: "inj_on (content_hash ?C) (set chunks)"
    using assms(8,11) by (intro inj_onI) (metis insertCI option.inject)
  have "\<exists>c \<in> set chunks. dst_hash info = content_hash ?C c" if "info \<in> set (infos dm)" for info
    using encrypt_dst_hashes [OF assms(5,3,2,4)] that by auto
  then have found: "\<exists>c \<in> set chunks. held (dst_hash info) = Some c \<and> content_hash ?C c = dst_hash info"
    if "info \<in> set (infos dm)" for info
    using that assms(8,11) by (metis insertCI)
  then have held: "list_all2 (\<lambda>info c. held (dst_hash info) = Some c) (infos dm) ?cs"
    by (auto simp: list_all2_map2 intro!: list.rel_refl_strong) (metis option.sel)
  have "own_chunks ?C dm ?cs" "set ?cs \<subseteq> set chunks"
    using found by (auto simp: own_chunks_def list_all2_map2 intro!: list.rel_refl_strong) (metis option.sel)+
  then obtain h where "decrypt ?C dm ?cs = Inl (Generic (MissingChunk h))"
    using shrunk_own_chunks_missing [OF assms(1-6) inj assms(9)] by blast
  moreover have "from_bytes (bincode_deserialize ?C) bs = Inr dm"
    using assms(1,7) by (auto intro: from_bytes_to_bytes simp: se_laws_def)
  moreover have "cached_client E held (Suc (length (infos dm) + 0)) dc" using assms(10) by (simp add: cached_client_def)
  ultimately show ?thesis
    using cached.download_complete [OF _ _ _ held, where dc = dc and bs = bs and net = net and addr = "compute_address (codec E) bs" and k = 0]
      assms(11) [of bs] by fastforce
qed

definition zeros_root_map :: DataMap where
  "zeros_root_map =
     \<lparr>chunk_identifiers = map (\<lambda>i. \<lparr>index = i, dst_hash = replicate 32 0, src_hash = replicate 32 0, src_size = 200\<rparr>) [0..<6],
      child = None\<rparr>"

definition zeros_root :: bytes where
  "zeros_root = sample_bytes zeros_root_map"

definition zeros_map :: DataMap where
  "zeros_map = with_child (infos (sample_map 200 zeros_root)) 1"

definition zeros_blobs :: "bytes list" where
  "zeros_blobs = sample_bytes zeros_map # replicate 200 0 # file_chunks 200 zeros_root"

definition zeros_client :: "(xorname, bytes) lru_list DownloadClient" where
  "zeros_client =
     \<lparr>transport = \<lparr>cipher = \<lparr>key = []\<rparr>, stream_seq = 0\<rparr>, next_request_id = 1, chunk_lru = list_lru,
      cache = (8, map (\<lambda>v. (content_hash sample_env v, v)) zeros_blobs)\<rparr>"

definition zeros_env :: wasm_env where
  "zeros_env =
     \<lparr>codec = \<lparr>to_stdvec = \<lambda>m. Inl ''down'', from_postcard = \<lambda>b. Inl ''down'', blake3 = blake3_hash sample_env\<rparr>,
      tunnel = sample_tunnel, crypt = sample_env\<rparr>"

lemma zeros_chunks: "file_chunks 200 (replicate 1200 (0 :: byte)) = replicate 6 (replicate 200 0)"
  by code_simp

lemma zeros_root_map: "sample_map 200 (replicate 1200 0) = zeros_root_map"
proof -
  have n: "get_num_chunks 200 1200 = 6" by (simp add: chunking_defs)
  have "info_nth sample_env 200 (replicate 1200 0) i (replicate 200 0) =
      \<lparr>index = i, dst_hash = replicate 32 0, src_hash = replicate 32 0, src_size = 200\<rparr>" if i: "i < 6" for i
  proof -
    have "file_chunks 200 (replicate 1200 (0 :: byte)) ! i = replicate 200 0" using i unfolding zeros_chunks by simp
    then have "file_chunk 200 (replicate 1200 0) i = replicate 200 (0 :: byte)" using i n by (simp add: file_chunks_def)
    moreover have "get_chunk_size 200 1200 i = 200" using i n by (simp add: large_file_size last_size_def)
    then have "chunk_end 200 1200 i - chunk_start 200 1200 i = 200" using i n by (simp add: chunk_start_eq(2))
    ultimately show ?thesis by (simp add: info_nth_def content_hash_def sample_env_def)
  qed
  then show ?thesis
    unfolding sample_map_def zeros_root_map_def map_of_chunks_def zeros_chunks
    by (auto intro!: nth_equalityI simp: nth_enumerate_eq)
qed

lemma zeros_root_length: "length zeros_root = 490"
  by code_simp

lemma zeros_pieces:
  "map (content_hash sample_env) (file_chunks 200 zeros_root) =
     [1 # 6 # replicate 30 0, replicate 6 0 @ 2 # replicate 25 0, replicate 3 0 @ 4 # replicate 28 0]"
  by code_simp

lemma zeros_map_len: "length (infos zeros_map) = 3" "length (chunk_identifiers zeros_map) = 3" "child zeros_map = Some 1"
proof -
  have "get_num_chunks 200 490 = 3" by (simp add: chunking_defs)
  then show "length (infos zeros_map) = 3" "length (chunk_identifiers zeros_map) = 3" "child zeros_map = Some 1"
    using sample_map_len(1) [of 200 zeros_root] zeros_root_length
    by (simp_all add: zeros_map_def with_child_def infos_def DataMap_len_def)
qed

lemma zeros_map_hash: "content_hash sample_env (sample_bytes zeros_map) ! 1 = 3"
proof -
  have "le_bytes (Suc 7) 3 = 3 # le_bytes 7 0" by (simp only: le_bytes.simps) simp
  then have "le_bytes 8 (length (v_chunk_identifiers (serialize_versioned zeros_map))) = 3 # le_bytes 7 0"
    by (simp add: serialize_versioned_def zeros_map_len(2) del: le_bytes.simps)
  then have "\<exists>r. sample_bytes zeros_map = 1 # 3 # r"
    unfolding sample_bytes_def enc_versioned_def by (simp add: serialize_versioned_def)
  then show ?thesis by (auto simp: content_hash_def sample_env_def)
qed

lemma zeros_distinct: "distinct (map (content_hash sample_env) zeros_blobs)"
proof -
  let ?hs = "[replicate 32 0, 1 # 6 # replicate 30 0, replicate 6 0 @ 2 # replicate 25 0, replicate 3 0 @ 4 # replicate 28 0] :: bytes list"
  have "distinct ?hs" "list_all (\<lambda>h. h ! 1 \<noteq> 3) ?hs" by code_simp+
  moreover have "map (content_hash sample_env) zeros_blobs = content_hash sample_env (sample_bytes zeros_map) # ?hs"
    unfolding zeros_blobs_def list.map zeros_pieces by (simp add: content_hash_def sample_env_def)
  moreover have "content_hash sample_env (sample_bytes zeros_map) \<notin> set ?hs"
    using zeros_map_hash \<open>list_all _ ?hs\<close> unfolding list_all_iff by metis
  ultimately show ?thesis by (simp only: distinct.simps) simp
qed

lemma zeros_encrypt:
  "encrypt sample_env 200 8 (replicate 1200 0) =
     Some (Inr (zeros_map, replicate 6 (replicate 200 0) @ file_chunks 200 zeros_root))"
proof -
  have n: "get_num_chunks 200 1200 = 6" "get_num_chunks 200 490 = 3" by (simp_all add: chunking_defs)
  have lv: "encrypt_one_level sample_env 200 (replicate 1200 0) 0 = Inr (zeros_root_map, replicate 6 (replicate 200 0))"
    "encrypt_one_level sample_env 200 zeros_root l = Inr (sample_map 200 zeros_root, file_chunks 200 zeros_root)" for l
    using sample_one_level [of 200 "replicate 1200 0" 0] sample_one_level [of 200 zeros_root l]
    by (simp_all add: zeros_root_length zeros_root_map zeros_chunks)
  have tb: "to_bytes (bincode_serialize sample_env) zeros_root_map = Inr zeros_root"
    using sample_to_bytes [of 200 "replicate 1200 0"]
    by (simp add: zeros_root_map USIZE_LIMIT_def zeros_root_def [symmetric])
  have zm: "DataMap_len zeros_root_map = 6" "child zeros_root_map = None"
    using sample_map_len [of 200 "replicate 1200 0"] by (simp_all add: zeros_root_map n)
  have "encrypt_with_child_level sample_env 200 (Suc (Suc (Suc (Suc (Suc (Suc f)))))) (replicate 1200 0) 0 =
     Some (Inr (zeros_map, replicate 6 (replicate 200 0) @ file_chunks 200 zeros_root))" for f
    by (simp add: lv tb zm zeros_root_length n next_child_level_def zeros_map_def del: replicate.simps)
  from this [of 2] show ?thesis by (simp add: encrypt_def)
qed

lemma zeros_cached:
  "cached_client zeros_env (map_of (map (\<lambda>v. (content_hash sample_env v, v)) zeros_blobs)) n zeros_client"
proof -
  have "length zeros_blobs = 5"
    using arg_cong [OF zeros_pieces, of length] by (simp add: zeros_blobs_def)
  then show ?thesis
    by (auto simp: cached_client_def zeros_client_def zeros_env_def compute_address_def content_hash_def
        dest!: map_of_SomeD) (simp add: list_lru_def entries_def)
qed

lemma shrunk_download_fails_witness:
  "\<exists>h. fst (download_from_address zeros_env (\<lambda>q b. Inl ''down'') zeros_client (content_hash sample_env (sample_bytes zeros_map))) =
     Inl (DownloadDecryptFailed (Generic (MissingChunk h)))"
proof -
  let ?chunks = "replicate 6 (replicate 200 (0 :: byte)) @ file_chunks 200 zeros_root"
  have E: "crypt zeros_env = sample_env" "compute_address (codec zeros_env) v = content_hash sample_env v" for v
    by (simp_all add: zeros_env_def compute_address_def content_hash_def)
  have "18 + 80 * get_num_chunks 200 (length (replicate 1200 (0 :: byte))) < 3 * 200" by (simp add: chunking_defs)
  moreover have "is_child zeros_map" using zeros_map_len(3) by (simp add: is_child_def)
  moreover have "wf_versioned (serialize_versioned zeros_map)"
    using wf_map_of_chunks [OF sample_env_laws, of 200 zeros_root "file_chunks 200 zeros_root"] zeros_root_length zeros_map_len(1)
    by (simp add: sample_map_def [symmetric])
      (simp add: wf_versioned_def serialize_versioned_def zeros_map_def with_child_def list_all_iff infos_def USIZE_LIMIT_def)
  then have "to_bytes (bincode_serialize sample_env) zeros_map = Inr (sample_bytes zeros_map)"
    by (simp add: to_bytes_def sample_bytes_def sample_env_def)
  moreover have "content_hash sample_env (hd ?chunks) \<notin> dst_hash ` set (infos zeros_map)"
  proof -
    have "infos zeros_map = infos (sample_map 200 zeros_root)"
      using infos_with_child_sorted [of "sample_map 200 zeros_root"] by (simp add: zeros_map_def sample_map_def)
    then have "dst_hash ` set (infos zeros_map) = content_hash sample_env ` set (file_chunks 200 zeros_root)"
      by (simp only: sample_map_def dst_hashes_map_of_chunks)
    then show ?thesis using zeros_distinct by (simp add: zeros_blobs_def)
  qed
  moreover have "v \<in> insert (sample_bytes zeros_map) (set ?chunks) \<Longrightarrow>
      map_of (map (\<lambda>v. (content_hash sample_env v, v)) zeros_blobs) (content_hash sample_env v) = Some v" for v
    using zeros_distinct by (intro map_of_is_SomeI) (auto simp: zeros_blobs_def comp_def)
  ultimately show ?thesis
    using shrunk_download_fails [of zeros_env 200 "replicate 1200 0" 8 zeros_map ?chunks "sample_bytes zeros_map",
        OF _ _ _ _ _ _ _ _ _ zeros_cached, of "\<lambda>q b. Inl ''down''"] zeros_encrypt
    by (simp add: E)
qed

end
