(* ===== verification/Node_Client.thy ===== *)
theory Node_Client
  imports Chunk_Protocol
begin

text \<open>
  Requests between nodes: \<open>src/ant-node/src/client/chunk_protocol.rs\<close> and
  \<open>src/ant-node/src/client/data_types.rs\<close>, and the fetch from the network that a WebTransport
  server tries when it does not hold a chunk, \<open>try_network_fetch\<close> in
  \<open>src/ant-node/src/webtransport/server.rs\<close>.

  The peer-to-peer node of \<open>saorsa_core\<close> is an argument: \<open>send_message\<close> sends to a peer and
  returns what the event subscription then delivers until the deadline, in order. \<open>hex::decode\<close> is
  an argument too.
\<close>

unbundle bit_operations_syntax

section \<open>Addresses\<close>

definition xor_distance :: "xorname \<Rightarrow> xorname \<Rightarrow> xorname" where
  "xor_distance a b = map2 (XOR) a b"

definition peer_id_to_xor_name :: "(string \<Rightarrow> string + bytes) \<Rightarrow> string \<Rightarrow> xorname option" where
  "peer_id_to_xor_name hex_decode peer_id =
     (case hex_decode peer_id of
        Inl e \<Rightarrow> None
      | Inr b \<Rightarrow> if length b \<noteq> 32 then None else Some b)"

section \<open>Request and response\<close>

datatype recv_result =
    Message string "bytes option" bytes
  | OtherEvent
  | Lagged nat
  | Closed

fun await_response ::
  "postcard \<Rightarrow> bytes \<Rightarrow> u64 \<Rightarrow> (ChunkMessageBody \<Rightarrow> ('e + 't) option) \<Rightarrow> 'e \<Rightarrow> recv_result list \<Rightarrow> 'e + 't" where
  "await_response P target rid handler timeout_error [] = Inl timeout_error"
| "await_response P target rid handler timeout_error (Message topic source data # events) =
     (if topic = CHUNK_PROTOCOL_ID \<and> source = Some target
      then
        (case msg_decode P data of
           Inl e \<Rightarrow> await_response P target rid handler timeout_error events
         | Inr response \<Rightarrow>
             if request_id response \<noteq> rid then await_response P target rid handler timeout_error events
             else
               (case handler (body response) of
                  Some result \<Rightarrow> result
                | None \<Rightarrow> await_response P target rid handler timeout_error events))
      else await_response P target rid handler timeout_error events)"
| "await_response P target rid handler timeout_error (OtherEvent # events) =
     await_response P target rid handler timeout_error events"
| "await_response P target rid handler timeout_error (Lagged n # events) =
     await_response P target rid handler timeout_error events"
| "await_response P target rid handler timeout_error (Closed # events) = Inl timeout_error"

type_synonym p2p_send = "bytes \<Rightarrow> string \<Rightarrow> bytes \<Rightarrow> string + recv_result list"

definition send_and_await_chunk_response ::
  "postcard \<Rightarrow> p2p_send \<Rightarrow> bytes \<Rightarrow> bytes \<Rightarrow> u64 \<Rightarrow> (ChunkMessageBody \<Rightarrow> ('e + 't) option) \<Rightarrow>
   (string \<Rightarrow> 'e) \<Rightarrow> 'e \<Rightarrow> 'e + 't" where
  "send_and_await_chunk_response P send_message target message_bytes rid handler send_error timeout_error =
     try_bind (map_err send_error (send_message target CHUNK_PROTOCOL_ID message_bytes)) (\<lambda>events.
     await_response P target rid handler timeout_error events)"

text \<open>A result of the loop is the handler's answer to a message of the peer with this identifier.\<close>

lemma await_response_source:
  "await_response P target rid handler te events = Inr x \<Longrightarrow>
     \<exists>data m. Message CHUNK_PROTOCOL_ID (Some target) data \<in> set events \<and> msg_decode P data = Inr m \<and>
       request_id m = rid \<and> handler (body m) = Some (Inr x)"
proof (induction P target rid handler te events rule: await_response.induct)
  case (2 P target rid handler te topic source data events)
  then show ?case by (fastforce split: if_splits sum.splits option.splits)
qed auto

lemma send_and_await_source:
  assumes "send_and_await_chunk_response P send target bs rid handler se te = Inr x"
  shows "\<exists>m :: ChunkMessage. request_id m = rid \<and> handler (body m) = Some (Inr x)"
proof -
  obtain events where "await_response P target rid handler te events = Inr x"
    using assms by (auto simp: send_and_await_chunk_response_def result_simps)
  from await_response_source [OF this] show ?thesis by blast
qed

section \<open>Fetching from the network\<close>

record dht_node =
  dht_peer_id :: bytes
  dht_addresses :: "string list"

record p2p_node =
  p2p_send_message :: p2p_send
  find_closest_nodes :: "xorname \<Rightarrow> nat \<Rightarrow> string + dht_node list"

definition fetch_handler :: "postcard \<Rightarrow> ChunkMessageBody \<Rightarrow> (string + bytes) option" where
  "fetch_handler P b =
     (case b of
        GetResponse (GetSuccess addr data) \<Rightarrow>
          if compute_address P data = addr then Some (Inr data) else None
      | GetResponse (GetNotFound addr) \<Rightarrow> Some (Inl ''not found on peer'')
      | _ \<Rightarrow> None)"

definition fetch_send_error :: "string \<Rightarrow> string" where
  "fetch_send_error e = ''send error: '' @ e"

fun fetch_from_peers ::
  "postcard \<Rightarrow> p2p_send \<Rightarrow> bytes \<Rightarrow> u64 \<Rightarrow> dht_node list \<Rightarrow> bytes option" where
  "fetch_from_peers P send get_bytes rid [] = None"
| "fetch_from_peers P send get_bytes rid (n # ns) =
     (case send_and_await_chunk_response P send (dht_peer_id n) get_bytes rid (fetch_handler P)
             fetch_send_error ''timeout'' of
        Inr data \<Rightarrow> Some data
      | Inl e \<Rightarrow> fetch_from_peers P send get_bytes rid ns)"

definition fetch_and_reply ::
  "postcard \<Rightarrow> p2p_node \<Rightarrow> u64 \<Rightarrow> u64 \<Rightarrow> xorname \<Rightarrow> bytes option" where
  "fetch_and_reply P p2p rnd rid addr =
     (case find_closest_nodes p2p addr CLOSE_GROUP_SIZE of
        Inl e \<Rightarrow> None
      | Inr closest \<Rightarrow>
          if closest = [] then None
          else
            (case msg_encode P \<lparr>request_id = rnd, body = GetRequest (ChunkGetRequest_new addr)\<rparr> of
               Inl e \<Rightarrow> None
             | Inr get_bytes \<Rightarrow>
                 (case fetch_from_peers P (p2p_send_message p2p) get_bytes rnd closest of
                    None \<Rightarrow> None
                  | Some data \<Rightarrow>
                      (case msg_encode P \<lparr>request_id = rid, body = GetResponse (GetSuccess addr data)\<rparr> of
                         Inr b \<Rightarrow> Some b
                       | Inl e \<Rightarrow> None))))"

definition try_network_fetch ::
  "postcard \<Rightarrow> p2p_node option \<Rightarrow> u64 \<Rightarrow> bytes \<Rightarrow> bytes option" where
  "try_network_fetch P node rnd local_response =
     (case node of
        None \<Rightarrow> None
      | Some p2p \<Rightarrow>
          (case msg_decode P local_response of
             Inl e \<Rightarrow> None
           | Inr resp_msg \<Rightarrow>
               (case body resp_msg of
                  GetResponse (GetNotFound addr) \<Rightarrow> fetch_and_reply P p2p rnd (request_id resp_msg) addr
                | _ \<Rightarrow> None)))"

lemma fetch_from_peers_consistent:
  "fetch_from_peers P send gb rid ns = Some data \<Longrightarrow>
   \<exists>m :: ChunkMessage. request_id m = rid \<and> body m = GetResponse (GetSuccess (compute_address P data) data)"
proof (induction ns)
  case (Cons n ns)
  show ?case
  proof (cases "send_and_await_chunk_response P send (dht_peer_id n) gb rid (fetch_handler P) fetch_send_error ''timeout''")
    case (Inl e)
    then show ?thesis using Cons by simp
  next
    case (Inr d)
    then obtain m :: ChunkMessage where "request_id m = rid" "fetch_handler P (body m) = Some (Inr d)"
      using send_and_await_source [of P send "dht_peer_id n" gb rid "fetch_handler P"] by metis
    then show ?thesis
      using Inr Cons.prems
      by (auto simp: fetch_handler_def split: ChunkMessageBody.splits ChunkGetResponse.splits if_splits)
  qed
qed simp

text \<open>
  When the first peer asked answers the request for a missing chunk with any content and the
  hash of that content as its address, the server sends that content to the browser as the chunk
  at the requested address: the address the peer reports is compared with the content, not with the
  request.
\<close>

theorem network_fetch_ignores_requested_address:
  assumes "msg_decode P local_response = Inr \<lparr>request_id = rid, body = GetResponse (GetNotFound addr)\<rparr>"
    and "find_closest_nodes p2p addr CLOSE_GROUP_SIZE = Inr (n # ns)"
    and "msg_encode P \<lparr>request_id = rnd, body = GetRequest (ChunkGetRequest_new addr)\<rparr> = Inr get_bytes"
    and "p2p_send_message p2p (dht_peer_id n) CHUNK_PROTOCOL_ID get_bytes =
           Inr [Message CHUNK_PROTOCOL_ID (Some (dht_peer_id n)) answer]"
    and "msg_decode P answer = Inr \<lparr>request_id = rnd, body = GetResponse (GetSuccess (compute_address P data) data)\<rparr>"
    and "msg_encode P \<lparr>request_id = rid, body = GetResponse (GetSuccess addr data)\<rparr> = Inr reply"
  shows "try_network_fetch P (Some p2p) rnd local_response = Some reply"
  using assms
  by (simp add: try_network_fetch_def fetch_and_reply_def send_and_await_chunk_response_def fetch_handler_def)

definition fetch_postcard :: postcard where
  "fetch_postcard =
     \<lparr>to_stdvec = \<lambda>m. (case body m of GetResponse (GetSuccess a d) \<Rightarrow> Inr (1 # hd a # d) | _ \<Rightarrow> Inr [0]),
      from_postcard = \<lambda>b. (case b of
          [] \<Rightarrow> Inr \<lparr>request_id = 5, body = GetResponse (GetNotFound (replicate 32 7))\<rparr>
        | x # d \<Rightarrow> Inr \<lparr>request_id = 6, body = GetResponse (GetSuccess (replicate 32 x) [x])\<rparr>),
      blake3 = \<lambda>b. replicate 32 (hd b)\<rparr>"

definition fetch_node :: p2p_node where
  "fetch_node =
     \<lparr>p2p_send_message = \<lambda>p t b. Inr [Message CHUNK_PROTOCOL_ID (Some [2]) [9]],
      find_closest_nodes = \<lambda>a n. Inr [\<lparr>dht_peer_id = [2], dht_addresses = []\<rparr>]\<rparr>"

lemma network_fetch_ignores_requested_address_witness:
  "try_network_fetch fetch_postcard (Some fetch_node) 6 [] = Some [1, 7, 9] \<and>
   compute_address fetch_postcard [9] \<noteq> replicate 32 7"
  using network_fetch_ignores_requested_address
    [of fetch_postcard "[]" 5 "replicate 32 7" fetch_node "\<lparr>dht_peer_id = [2], dht_addresses = []\<rparr>" "[]" 6 "[0]" "[9]" "[9]" "[1, 7, 9]"]
  by (simp add: fetch_postcard_def fetch_node_def msg_decode_def msg_encode_def compute_address_def ChunkGetRequest_new_def
      MAX_WIRE_MESSAGE_SIZE_def)

end
