(* ===== verification/Node_Error.thy ===== *)
theory Node_Error
  imports Chunk_Protocol
begin

text \<open>
  The error type of the node, \<open>src/ant-node/src/error.rs\<close>. The variants whose text the modelled
  code formats carry a datatype with one constructor per message and the values it interpolates;
  the others keep their text.
\<close>

datatype storage_msg =
    ContentAddressMismatch xorname xorname
  | ChunkVerificationFailed xorname
  | CapacityReached nat nat
  | Backend string string

datatype payment_msg =
    ProofTooSmall nat
  | ProofTooLarge nat
  | ProofMalformed string
  | UnknownProofTag byte
  | PaymentRequiredFor xorname
  | UnexpectedStatus
  | NoQuotes
  | WrongQuoteCount nat
  | DuplicatePeer bytes
  | QuoteContentMismatch bytes xorname xorname
  | QuoteExpired bytes nat
  | QuoteInFuture bytes nat
  | QuoteTimestampInvalid bytes
  | InvalidQuotePublicKey string
  | PeerBindingMismatch bytes bytes
  | NotARecipient
  | QuoteSignatureInvalid bytes
  | EvmError xorname string
  | NoPaidQuotes xorname
  | PaidQuoteInvalid xorname
  | MerkleProofMalformed string
  | MerkleAddressMismatch xorname xorname
  | PoolQueryFailed bytes string
  | CandidateSignatureInvalid bytes
  | CandidateTimestampMismatch u64 u64 bytes
  | MerkleProofFailed xorname string
  | WrongPaidNodeCount nat nat
  | PaidNodeIndexOutOfBounds nat nat
  | PaidNodeAddressMismatch nat bytes bytes
  | SigningNotConfigured
  | EmptySignature
  | EmptyCandidateSignature
  | SignerNotSet
  | ProbeFailed
  | WrongPaymentCount nat
  | MissingMedian
  | PriceOverflow
  | ArrayConversion
  | PayForQuotesFailed string
  | MissingTransaction bytes
  | VaultVerificationFailed string
  | OwnedQuoteMissing
  | AmountMismatch u256 u256

datatype node_error =
    Config string
  | Startup string
  | Network string
  | Storage storage_msg
  | Payment payment_msg
  | Upgrade string
  | Crypto string
  | NodeIo string
  | Serialization string
  | ProtocolDecode ProtocolError
  | ProtocolEncode ProtocolError
  | InvalidChunk string
  | ShuttingDown

end
