(* ===== verification/Lmdb_Storage.thy ===== *)
theory Lmdb_Storage
  imports Node_Error
begin

text \<open>
  The chunk store of the node: \<open>src/ant-node/src/storage/lmdb.rs\<close>.

  LMDB is used through the crate \<open>heed\<close>. Its operations on the contents \<open>'d\<close> of the database are
  the fields of the record \<open>kv_ops\<close>, the handle \<open>env\<close> of the store; a transaction works on a copy
  of the contents that becomes current when it is committed, and is dropped otherwise. The field
  \<open>kv_view\<close> is not an operation: it says which map the contents stand for, and \<open>kv_laws\<close> states
  the operations in terms of it.

  Statistics are 64 bit words, whose addition wraps around. \<open>spawn_blocking\<close> runs the
  transaction on another thread; the transaction is the atomic step \<open>put_txn\<close> here, and the
  check before it is a step of its own, so that other tasks can run between the two. The closures
  that run there do not panic, so joining them does not fail. \<open>new\<close> counts the chunks as an argument
  of \<open>debug!\<close>, and returns from there when that fails; the argument is evaluated only when the level
  is enabled, \<open>debug_enabled\<close> here.
\<close>

section \<open>The database\<close>

record 'd kv_ops =
  kv_create_dir :: "string \<Rightarrow> string + unit"
  kv_open :: "string \<Rightarrow> nat \<Rightarrow> string + 'd"
  kv_create_database :: "'d \<Rightarrow> string + 'd"
  kv_read_txn :: "'d \<Rightarrow> string + unit"
  kv_write_txn :: "'d \<Rightarrow> string + unit"
  kv_get :: "'d \<Rightarrow> xorname \<Rightarrow> string + bytes option"
  kv_entries :: "'d \<Rightarrow> string + nat"
  kv_put :: "'d \<Rightarrow> xorname \<Rightarrow> bytes \<Rightarrow> string + 'd"
  kv_delete :: "'d \<Rightarrow> xorname \<Rightarrow> string + (bool \<times> 'd)"
  kv_commit :: "'d \<Rightarrow> string + 'd"
  kv_view :: "'d \<Rightarrow> xorname \<rightharpoonup> bytes"

definition kv_laws :: "'d kv_ops \<Rightarrow> bool" where
  "kv_laws K \<longleftrightarrow>
     (\<forall>d k r. kv_get K d k = Inr r \<longrightarrow> r = kv_view K d k) \<and>
     (\<forall>d n. kv_entries K d = Inr n \<longrightarrow> n = card (dom (kv_view K d))) \<and>
     (\<forall>d k v d'. kv_put K d k v = Inr d' \<longrightarrow> kv_view K d' = (kv_view K d)(k \<mapsto> v)) \<and>
     (\<forall>d k b d'. kv_delete K d k = Inr (b, d') \<longrightarrow>
        kv_view K d' = (kv_view K d)(k := None) \<and> b = (kv_view K d k \<noteq> None)) \<and>
     (\<forall>d d'. kv_commit K d = Inr d' \<longrightarrow> kv_view K d' = kv_view K d) \<and>
     (\<forall>d. finite (dom (kv_view K d)))"

section \<open>State\<close>

definition DEFAULT_MAX_MAP_SIZE :: nat where
  "DEFAULT_MAX_MAP_SIZE = 32 * 1024 * 1024 * 1024"

record LmdbStorageConfig =
  root_dir :: string
  verify_on_read :: bool
  max_chunks :: nat
  max_map_size :: nat

definition LmdbStorageConfig_default :: LmdbStorageConfig where
  "LmdbStorageConfig_default =
     \<lparr>root_dir = ''.ant/chunks'', verify_on_read = True, max_chunks = 0, max_map_size = 0\<rparr>"

record StorageStats =
  chunks_stored :: u64
  chunks_retrieved :: u64
  bytes_stored :: u64
  bytes_retrieved :: u64
  duplicates :: u64
  verification_failures :: u64
  current_chunks_stat :: u64

definition StorageStats_default :: StorageStats where
  "StorageStats_default =
     \<lparr>chunks_stored = 0, chunks_retrieved = 0, bytes_stored = 0, bytes_retrieved = 0,
      duplicates = 0, verification_failures = 0, current_chunks_stat = 0\<rparr>"

record 'd LmdbStorage =
  env :: "'d kv_ops"
  db :: 'd
  config :: LmdbStorageConfig
  stats :: StorageStats

section \<open>Operations\<close>

definition backend :: "string \<Rightarrow> string + 'a \<Rightarrow> node_error + 'a" where
  "backend what r = map_err (\<lambda>e. Storage (Backend what e)) r"

definition current_chunks :: "'d LmdbStorage \<Rightarrow> node_error + u64" where
  "current_chunks st =
     try_bind (backend ''read txn'' (kv_read_txn (env st) (db st))) (\<lambda>u.
     try_bind (backend ''stats'' (kv_entries (env st) (db st))) (\<lambda>n. Inr (word_of_nat n)))"

definition LmdbStorage_new :: "'d kv_ops \<Rightarrow> bool \<Rightarrow> LmdbStorageConfig \<Rightarrow> node_error + 'd LmdbStorage" where
  "LmdbStorage_new K debug_enabled cfg =
     (let env_dir = root_dir cfg @ ''/chunks.mdb'';
          map_size = (if 0 < max_map_size cfg then max_map_size cfg else DEFAULT_MAX_MAP_SIZE)
      in try_bind (backend ''create directory'' (kv_create_dir K env_dir)) (\<lambda>u.
         try_bind (backend ''open'' (kv_open K env_dir map_size)) (\<lambda>d.
         try_bind (backend ''write txn'' (kv_write_txn K d)) (\<lambda>u.
         try_bind (backend ''create database'' (kv_create_database K d)) (\<lambda>d1.
         try_bind (backend ''commit'' (kv_commit K d1)) (\<lambda>d2.
         (let storage = \<lparr>env = K, db = d2, config = cfg, stats = StorageStats_default\<rparr>
          in if debug_enabled then try_bind (current_chunks storage) (\<lambda>n. Inr storage) else Inr storage)))))))"

definition exists_chunk :: "'d LmdbStorage \<Rightarrow> xorname \<Rightarrow> node_error + bool" where
  "exists_chunk st addr =
     try_bind (backend ''read txn'' (kv_read_txn (env st) (db st))) (\<lambda>u.
     try_bind (backend ''exists'' (kv_get (env st) (db st) addr)) (\<lambda>v. Inr (v \<noteq> None)))"

text \<open>The write transaction: existence, capacity and write are one atomic step.\<close>

definition put_txn :: "'d kv_ops \<Rightarrow> nat \<Rightarrow> 'd \<Rightarrow> xorname \<Rightarrow> bytes \<Rightarrow> node_error + (bool \<times> 'd)" where
  "put_txn K limit d key val =
     try_bind (backend ''write txn'' (kv_write_txn K d)) (\<lambda>u.
     try_bind (backend ''exists'' (kv_get K d key)) (\<lambda>found.
     if found \<noteq> None then Inr (False, d)
     else
     try_bind
       (if 0 < limit
        then try_bind (backend ''stats'' (kv_entries K d)) (\<lambda>current.
               if limit \<le> current then Inl (Storage (CapacityReached current limit)) else Inr ())
        else Inr ())
       (\<lambda>u.
     try_bind (backend ''put'' (kv_put K d key val)) (\<lambda>d1.
     try_bind (backend ''commit'' (kv_commit K d1)) (\<lambda>d2. Inr (True, d2))))))"

definition count_duplicate :: "'d LmdbStorage \<Rightarrow> 'd LmdbStorage" where
  "count_duplicate st = st\<lparr>stats := (stats st)\<lparr>duplicates := duplicates (stats st) + 1\<rparr>\<rparr>"

definition put_commit ::
  "'d LmdbStorage \<Rightarrow> xorname \<Rightarrow> bytes \<Rightarrow> (node_error + bool) \<times> 'd LmdbStorage" where
  "put_commit st addr data =
     (case put_txn (env st) (max_chunks (config st)) (db st) addr data of
        Inl e \<Rightarrow> (Inl e, st)
      | Inr (was_new, d) \<Rightarrow>
          if was_new
          then (Inr True, st\<lparr>db := d, stats := (stats st)\<lparr>chunks_stored := chunks_stored (stats st) + 1,
                   bytes_stored := bytes_stored (stats st) + word_of_nat (length data)\<rparr>\<rparr>)
          else (Inr False, count_duplicate (st\<lparr>db := d\<rparr>)))"

definition put ::
  "postcard \<Rightarrow> 'd LmdbStorage \<Rightarrow> xorname \<Rightarrow> bytes \<Rightarrow> (node_error + bool) \<times> 'd LmdbStorage" where
  "put P st addr data =
     (if compute_address P data \<noteq> addr
      then (Inl (Storage (ContentAddressMismatch addr (compute_address P data))), st)
      else
        (case exists_chunk st addr of
           Inl e \<Rightarrow> (Inl e, st)
         | Inr True \<Rightarrow> (Inr False, count_duplicate st)
         | Inr False \<Rightarrow> put_commit st addr data))"

definition get ::
  "postcard \<Rightarrow> 'd LmdbStorage \<Rightarrow> xorname \<Rightarrow> (node_error + bytes option) \<times> 'd LmdbStorage" where
  "get P st addr =
     (case try_bind (backend ''read txn'' (kv_read_txn (env st) (db st))) (\<lambda>u.
             backend ''get'' (kv_get (env st) (db st) addr)) of
        Inl e \<Rightarrow> (Inl e, st)
      | Inr None \<Rightarrow> (Inr None, st)
      | Inr (Some data) \<Rightarrow>
          if verify_on_read (config st) \<and> compute_address P data \<noteq> addr
          then (Inl (Storage (ChunkVerificationFailed addr)),
                st\<lparr>stats := (stats st)\<lparr>verification_failures := verification_failures (stats st) + 1\<rparr>\<rparr>)
          else (Inr (Some data),
                st\<lparr>stats := (stats st)\<lparr>chunks_retrieved := chunks_retrieved (stats st) + 1,
                   bytes_retrieved := bytes_retrieved (stats st) + word_of_nat (length data)\<rparr>\<rparr>))"

definition delete_txn :: "'d kv_ops \<Rightarrow> 'd \<Rightarrow> xorname \<Rightarrow> node_error + (bool \<times> 'd)" where
  "delete_txn K d key =
     try_bind (backend ''write txn'' (kv_write_txn K d)) (\<lambda>u.
     try_bind (backend ''delete'' (kv_delete K d key)) (\<lambda>(existed, d1).
     try_bind (backend ''commit'' (kv_commit K d1)) (\<lambda>d2. Inr (existed, d2))))"

definition delete :: "'d LmdbStorage \<Rightarrow> xorname \<Rightarrow> (node_error + bool) \<times> 'd LmdbStorage" where
  "delete st addr =
     (case delete_txn (env st) (db st) addr of
        Inl e \<Rightarrow> (Inl e, st)
      | Inr (existed, d) \<Rightarrow> (Inr existed, st\<lparr>db := d\<rparr>))"

definition storage_stats :: "'d LmdbStorage \<Rightarrow> StorageStats" where
  "storage_stats st =
     (stats st)\<lparr>current_chunks_stat := (case current_chunks st of Inr n \<Rightarrow> n | Inl e \<Rightarrow> 0)\<rparr>"

end
