(* ===== verification/Payment_Proof.thy ===== *)
theory Payment_Proof
  imports Node_Error
begin

text \<open>
  Payment data and its binary form: \<open>src/ant-node/src/payment/proof.rs\<close>.

  The structures of the crate \<open>evmlib\<close> are records of the fields the node reads and writes; a
  merkle branch is an opaque value of type \<open>'br\<close>. A \<open>SystemTime\<close> is a number of nanoseconds
  since the epoch, an \<open>EncodedPeerId\<close>, a \<open>RewardsAddress\<close> and a \<open>TxHash\<close> are byte lists. The
  crate \<open>rmp_serde\<close> is the record \<open>rmp\<close>, with the laws \<open>rmp_laws\<close>.
\<close>

section \<open>Data\<close>

type_synonym rewards_address = bytes
type_synonym peer_id = bytes
type_synonym system_time = int

record QuotingMetrics =
  qm_data_type :: u32
  qm_data_size :: nat
  qm_close_records_stored :: u64
  qm_records_per_type :: "(u32 \<times> u32) list"
  qm_max_records :: nat
  qm_received_payment_count :: u64
  qm_live_time :: u64
  qm_network_density :: "bytes option"
  qm_network_size :: "u64 option"

record PaymentQuote =
  q_content :: xorname
  q_timestamp :: system_time
  q_quoting_metrics :: QuotingMetrics
  q_pub_key :: bytes
  q_rewards_address :: rewards_address
  q_signature :: bytes

record ProofOfPayment =
  peer_quotes :: "(peer_id \<times> PaymentQuote) list"

record MerklePaymentCandidateNode =
  cn_pub_key :: bytes
  cn_quoting_metrics :: QuotingMetrics
  cn_reward_address :: rewards_address
  cn_merkle_payment_timestamp :: u64
  cn_signature :: bytes

record 'br MerklePaymentCandidatePool =
  midpoint_proof :: 'br
  candidate_nodes :: "MerklePaymentCandidateNode list"

record 'br MerklePaymentProof =
  mp_address :: xorname
  data_proof :: 'br
  winner_pool :: "'br MerklePaymentCandidatePool"

record PaymentProof =
  proof_of_payment :: ProofOfPayment
  tx_hashes :: "bytes list"

record 'br rmp =
  proof_to_vec :: "PaymentProof \<Rightarrow> string + bytes"
  proof_from_slice :: "bytes \<Rightarrow> string + PaymentProof"
  merkle_to_vec :: "'br MerklePaymentProof \<Rightarrow> string + bytes"
  merkle_from_slice :: "bytes \<Rightarrow> string + 'br MerklePaymentProof"
  quote_to_vec :: "PaymentQuote \<Rightarrow> string + bytes"
  candidate_to_vec :: "MerklePaymentCandidateNode \<Rightarrow> string + bytes"

definition rmp_laws :: "'br rmp \<Rightarrow> bool" where
  "rmp_laws R \<longleftrightarrow>
     (\<forall>p b. proof_to_vec R p = Inr b \<longrightarrow> proof_from_slice R b = Inr p) \<and>
     (\<forall>p b. merkle_to_vec R p = Inr b \<longrightarrow> merkle_from_slice R b = Inr p)"

section \<open>Tagged proofs\<close>

datatype ProofType = SingleNode | Merkle

fun first :: "'a list \<Rightarrow> 'a option" where
  "first [] = None"
| "first (x # xs) = Some x"

definition detect_proof_type :: "bytes \<Rightarrow> ProofType option" where
  "detect_proof_type b =
     (if first b = Some PROOF_TAG_SINGLE_NODE then Some SingleNode
      else if first b = Some PROOF_TAG_MERKLE then Some Merkle
      else None)"

definition serialize_single_node_proof :: "'br rmp \<Rightarrow> PaymentProof \<Rightarrow> string + bytes" where
  "serialize_single_node_proof R p =
     try_bind (proof_to_vec R p) (\<lambda>body. Inr (PROOF_TAG_SINGLE_NODE # body))"

definition serialize_merkle_proof :: "'br rmp \<Rightarrow> 'br MerklePaymentProof \<Rightarrow> string + bytes" where
  "serialize_merkle_proof R p =
     try_bind (merkle_to_vec R p) (\<lambda>body. Inr (PROOF_TAG_MERKLE # body))"

text \<open>
  \<open>bytes.get(1..)\<close> is \<open>None\<close> only for the empty slice, which the test of the tag has excluded.
\<close>

definition payload_after_tag :: "bytes \<Rightarrow> bytes option" where
  "payload_after_tag b = (if length b < 1 then None else Some (drop 1 b))"

definition deserialize_proof :: "'br rmp \<Rightarrow> bytes \<Rightarrow> string + (ProofOfPayment \<times> bytes list)" where
  "deserialize_proof R b =
     (if first b \<noteq> Some PROOF_TAG_SINGLE_NODE then Inl ''Missing single-node proof tag byte''
      else
      try_bind (ok_or ''Single-node proof tag present but no payload'' (payload_after_tag b)) (\<lambda>payload.
      try_bind (map_err (\<lambda>e. ''Failed to deserialize single-node proof: '' @ e) (proof_from_slice R payload)) (\<lambda>p.
      Inr (proof_of_payment p, tx_hashes p))))"

definition deserialize_merkle_proof :: "'br rmp \<Rightarrow> bytes \<Rightarrow> string + 'br MerklePaymentProof" where
  "deserialize_merkle_proof R b =
     (if first b \<noteq> Some PROOF_TAG_MERKLE then Inl ''Missing merkle proof tag byte''
      else
      try_bind (ok_or ''Merkle proof tag present but no payload'' (payload_after_tag b)) (\<lambda>payload.
      map_err (\<lambda>e. ''Failed to deserialize merkle proof: '' @ e) (merkle_from_slice R payload)))"

lemma first_Some [simp]: "first xs = Some x \<longleftrightarrow> (\<exists>ys. xs = x # ys)"
  by (cases xs) auto

lemma payload_after_tag_Cons [simp]: "payload_after_tag (x # xs) = Some xs"
  by (simp add: payload_after_tag_def)

lemma proof_tags [simp]:
  "PROOF_TAG_SINGLE_NODE \<noteq> PROOF_TAG_MERKLE" "PROOF_TAG_MERKLE \<noteq> PROOF_TAG_SINGLE_NODE"
  by (simp_all add: PROOF_TAG_SINGLE_NODE_def PROOF_TAG_MERKLE_def)

lemma detect_proof_type_iff:
  "detect_proof_type b = Some SingleNode \<longleftrightarrow> first b = Some PROOF_TAG_SINGLE_NODE"
  "detect_proof_type b = Some Merkle \<longleftrightarrow> first b = Some PROOF_TAG_MERKLE"
  by (auto simp: detect_proof_type_def)

text \<open>
  A serialised proof of either kind is detected as that kind and deserialises to the proof,
  and neither deserialiser accepts a proof of the other kind.
\<close>

theorem payment_proof_round_trip:
  assumes "rmp_laws R"
  shows "(\<forall>p b. serialize_single_node_proof R p = Inr b \<longrightarrow>
            detect_proof_type b = Some SingleNode \<and>
            deserialize_proof R b = Inr (proof_of_payment p, tx_hashes p) \<and>
            (\<exists>e. deserialize_merkle_proof R b = Inl e)) \<and>
         (\<forall>m c. serialize_merkle_proof R m = Inr c \<longrightarrow>
            detect_proof_type c = Some Merkle \<and> deserialize_merkle_proof R c = Inr m \<and>
            (\<exists>e. deserialize_proof R c = Inl e))"
proof (intro conjI allI impI)
  fix p b
  assume "serialize_single_node_proof R p = Inr b"
  then obtain body where b: "b = PROOF_TAG_SINGLE_NODE # body" "proof_from_slice R body = Inr p"
    using assms by (auto simp: serialize_single_node_proof_def rmp_laws_def result_simps)
  show "detect_proof_type b = Some SingleNode" "deserialize_proof R b = Inr (proof_of_payment p, tx_hashes p)"
    and "\<exists>e. deserialize_merkle_proof R b = Inl e"
    by (simp_all add: b detect_proof_type_def deserialize_proof_def deserialize_merkle_proof_def)
next
  fix m c
  assume "serialize_merkle_proof R m = Inr c"
  then obtain body where c: "c = PROOF_TAG_MERKLE # body" "merkle_from_slice R body = Inr m"
    using assms by (auto simp: serialize_merkle_proof_def rmp_laws_def result_simps)
  show "detect_proof_type c = Some Merkle" "deserialize_merkle_proof R c = Inr m"
    and "\<exists>e. deserialize_proof R c = Inl e"
    by (simp_all add: c detect_proof_type_def deserialize_proof_def deserialize_merkle_proof_def)
qed

section \<open>A sample serialiser\<close>

text \<open>It knows one proof of each kind.\<close>

definition sample_metrics :: QuotingMetrics where
  "sample_metrics =
     \<lparr>qm_data_type = 0, qm_data_size = 1024, qm_close_records_stored = 3, qm_records_per_type = [(0, 3)],
      qm_max_records = 1000, qm_received_payment_count = 2, qm_live_time = 1, qm_network_density = None,
      qm_network_size = Some 500\<rparr>"

definition sample_quote :: "byte \<Rightarrow> xorname \<Rightarrow> PaymentQuote" where
  "sample_quote i a =
     \<lparr>q_content = a, q_timestamp = 0, q_quoting_metrics = sample_metrics, q_pub_key = [i],
      q_rewards_address = [i], q_signature = [i]\<rparr>"

definition sample_proof :: "xorname \<Rightarrow> PaymentProof" where
  "sample_proof a =
     \<lparr>proof_of_payment = \<lparr>peer_quotes = map (\<lambda>i. ([i], sample_quote i a)) [1, 2, 3, 4, 5]\<rparr>, tx_hashes = []\<rparr>"

definition sample_candidate :: MerklePaymentCandidateNode where
  "sample_candidate =
     \<lparr>cn_pub_key = [1], cn_quoting_metrics = sample_metrics, cn_reward_address = [1],
      cn_merkle_payment_timestamp = 7, cn_signature = [1]\<rparr>"

definition sample_merkle :: "xorname \<Rightarrow> bytes MerklePaymentProof" where
  "sample_merkle a =
     \<lparr>mp_address = a, data_proof = [], winner_pool = \<lparr>midpoint_proof = [], candidate_nodes = [sample_candidate]\<rparr>\<rparr>"

definition sample_rmp :: "bytes rmp" where
  "sample_rmp =
     \<lparr>proof_to_vec = \<lambda>p. let a = q_content (snd (hd (peer_quotes (proof_of_payment p)))) in
        if p = sample_proof a \<and> length a = 32 then Inr a else Inl ''unsupported'',
      proof_from_slice = \<lambda>b. if length b = 32 then Inr (sample_proof b) else Inl ''invalid'',
      merkle_to_vec = \<lambda>m. if m = sample_merkle (mp_address m) then Inr (mp_address m) else Inl ''unsupported'',
      merkle_from_slice = \<lambda>b. Inr (sample_merkle b),
      quote_to_vec = \<lambda>q. Inr (q_content q), candidate_to_vec = \<lambda>c. Inr (cn_pub_key c)\<rparr>"

lemma sample_rmp_laws [simp]: "rmp_laws sample_rmp"
  by (auto simp: rmp_laws_def sample_rmp_def Let_def split: if_splits)

lemma payment_proof_round_trip_witness:
  "deserialize_proof sample_rmp (PROOF_TAG_SINGLE_NODE # replicate 32 9) =
     Inr (proof_of_payment (sample_proof (replicate 32 9)), []) \<and>
   (\<exists>e. deserialize_merkle_proof sample_rmp (PROOF_TAG_SINGLE_NODE # replicate 32 9) = Inl e)"
proof -
  have "q_content (snd (hd (peer_quotes (proof_of_payment (sample_proof a))))) = a" for a
    by (simp add: sample_proof_def sample_quote_def)
  then have "serialize_single_node_proof sample_rmp (sample_proof (replicate 32 9)) =
      Inr (PROOF_TAG_SINGLE_NODE # replicate 32 9)"
    by (simp add: serialize_single_node_proof_def sample_rmp_def Let_def)
  moreover have "tx_hashes (sample_proof (replicate 32 9)) = []" by (simp add: sample_proof_def)
  ultimately show ?thesis using payment_proof_round_trip [OF sample_rmp_laws] by metis
qed

end
