(* ===== verification/Quoting_Metrics.thy ===== *)
theory Quoting_Metrics
  imports Payment_Proof
begin

text \<open>
  The counters behind the quotes of a node: \<open>src/ant-node/src/payment/metrics.rs\<close>.

  The atomic counters are 64 bit words, whose addition wraps around. The files the tracker can see
  are the map \<open>disk\<close>; \<open>fs_ok\<close> says whether a write to a path succeeds, and a failed write leaves
  the file as it is. An \<open>Instant\<close> is a number of seconds.
\<close>

record PersistedMetrics =
  pm_received_payment_count :: u64
  pm_close_records_stored :: u64
  pm_records_per_type :: "(u32 \<times> u32) list"

record metrics_env =
  metrics_to_vec :: "PersistedMetrics \<Rightarrow> bytes option"
  metrics_from_slice :: "bytes \<Rightarrow> PersistedMetrics option"
  fs_ok :: "string \<Rightarrow> bool"

definition metrics_laws :: "metrics_env \<Rightarrow> bool" where
  "metrics_laws M \<longleftrightarrow> (\<forall>p b. metrics_to_vec M p = Some b \<longrightarrow> metrics_from_slice M b = Some p)"

definition PERSIST_INTERVAL :: nat where "PERSIST_INTERVAL = 10"

record QuotingMetricsTracker =
  received_payment_count :: u64
  max_records :: nat
  close_records_stored :: u64
  records_per_type :: "(u32 \<times> u32) list"
  start_time :: nat
  persist_path :: "string option"
  network_size :: u64
  ops_since_persist :: u64
  disk :: "string \<rightharpoonup> bytes"

definition Tracker_new :: "nat \<Rightarrow> nat \<Rightarrow> nat \<Rightarrow> (string \<rightharpoonup> bytes) \<Rightarrow> QuotingMetricsTracker" where
  "Tracker_new now limit initial files =
     \<lparr>received_payment_count = 0, max_records = limit, close_records_stored = word_of_nat initial,
      records_per_type = [], start_time = now, persist_path = None, network_size = 500,
      ops_since_persist = 0, disk = files\<rparr>"

definition load_from_disk :: "metrics_env \<Rightarrow> (string \<rightharpoonup> bytes) \<Rightarrow> string \<Rightarrow> PersistedMetrics option" where
  "load_from_disk M files path =
     (case files path of None \<Rightarrow> None | Some b \<Rightarrow> metrics_from_slice M b)"

definition with_persistence ::
  "metrics_env \<Rightarrow> nat \<Rightarrow> nat \<Rightarrow> string \<Rightarrow> (string \<rightharpoonup> bytes) \<Rightarrow> QuotingMetricsTracker" where
  "with_persistence M now limit path files =
     (let t = (Tracker_new now limit 0 files)\<lparr>persist_path := Some path\<rparr>
      in case load_from_disk M files path of
           None \<Rightarrow> t
         | Some loaded \<Rightarrow>
             t\<lparr>received_payment_count := pm_received_payment_count loaded,
               close_records_stored := pm_close_records_stored loaded,
               records_per_type := pm_records_per_type loaded\<rparr>)"

definition persisted :: "QuotingMetricsTracker \<Rightarrow> PersistedMetrics" where
  "persisted t =
     \<lparr>pm_received_payment_count = received_payment_count t,
      pm_close_records_stored = close_records_stored t, pm_records_per_type = records_per_type t\<rparr>"

definition persist :: "metrics_env \<Rightarrow> QuotingMetricsTracker \<Rightarrow> QuotingMetricsTracker" where
  "persist M t =
     (case persist_path t of
        None \<Rightarrow> t
      | Some path \<Rightarrow>
          (case metrics_to_vec M (persisted t) of
             None \<Rightarrow> t
           | Some b \<Rightarrow> if fs_ok M path then t\<lparr>disk := (disk t)(path \<mapsto> b)\<rparr> else t))"

definition maybe_persist :: "metrics_env \<Rightarrow> QuotingMetricsTracker \<Rightarrow> QuotingMetricsTracker" where
  "maybe_persist M t =
     (let ops = ops_since_persist t; t' = t\<lparr>ops_since_persist := ops + 1\<rparr>
      in if unat ops mod PERSIST_INTERVAL = 0 then persist M t' else t')"

definition record_payment :: "metrics_env \<Rightarrow> QuotingMetricsTracker \<Rightarrow> QuotingMetricsTracker" where
  "record_payment M t = maybe_persist M (t\<lparr>received_payment_count := received_payment_count t + 1\<rparr>)"

definition saturating_add1 :: "u32 \<Rightarrow> u32" where
  "saturating_add1 n = (if n = - 1 then - 1 else n + 1)"

fun bump :: "u32 \<Rightarrow> (u32 \<times> u32) list \<Rightarrow> (u32 \<times> u32) list" where
  "bump t [] = [(t, 1)]"
| "bump t ((t', n) # rs) = (if t' = t then (t', saturating_add1 n) # rs else (t', n) # bump t rs)"

definition record_store :: "metrics_env \<Rightarrow> u32 \<Rightarrow> QuotingMetricsTracker \<Rightarrow> QuotingMetricsTracker" where
  "record_store M data_type t =
     maybe_persist M
       (t\<lparr>close_records_stored := close_records_stored t + 1,
          records_per_type := bump data_type (records_per_type t)\<rparr>)"

definition live_time_hours :: "nat \<Rightarrow> QuotingMetricsTracker \<Rightarrow> u64" where
  "live_time_hours now t = word_of_nat ((now - start_time t) div 3600)"

definition set_network_size :: "u64 \<Rightarrow> QuotingMetricsTracker \<Rightarrow> QuotingMetricsTracker" where
  "set_network_size n t = t\<lparr>network_size := n\<rparr>"

definition get_metrics :: "nat \<Rightarrow> QuotingMetricsTracker \<Rightarrow> nat \<Rightarrow> u32 \<Rightarrow> QuotingMetrics" where
  "get_metrics now t data_size data_type =
     \<lparr>qm_data_type = data_type, qm_data_size = data_size,
      qm_close_records_stored = close_records_stored t, qm_records_per_type = records_per_type t,
      qm_max_records = max_records t, qm_received_payment_count = received_payment_count t,
      qm_live_time = live_time_hours now t, qm_network_density = None,
      qm_network_size = Some (network_size t)\<rparr>"

definition Tracker_drop :: "metrics_env \<Rightarrow> QuotingMetricsTracker \<Rightarrow> QuotingMetricsTracker" where
  "Tracker_drop M t = persist M t"

section \<open>Persistence\<close>

datatype metrics_op = Payment_op | Store_op u32

fun apply_op :: "metrics_env \<Rightarrow> QuotingMetricsTracker \<Rightarrow> metrics_op \<Rightarrow> QuotingMetricsTracker" where
  "apply_op M t Payment_op = record_payment M t"
| "apply_op M t (Store_op ty) = record_store M ty t"

definition run_ops :: "metrics_env \<Rightarrow> metrics_op list \<Rightarrow> QuotingMetricsTracker \<Rightarrow> QuotingMetricsTracker" where
  "run_ops M ops t = foldl (apply_op M) t ops"

definition writable :: "metrics_env \<Rightarrow> string \<Rightarrow> bool" where
  "writable M path \<longleftrightarrow> fs_ok M path \<and> (\<forall>p. metrics_to_vec M p \<noteq> None)"

lemma load_persist:
  assumes "metrics_laws M" "writable M path" "persist_path t = Some path"
  shows "load_from_disk M (disk (persist M t)) path = Some (persisted t)"
proof -
  obtain b where b: "metrics_to_vec M (persisted t) = Some b"
    using assms(2) by (auto simp: writable_def)
  then have "metrics_from_slice M b = Some (persisted t)" using assms(1) by (simp add: metrics_laws_def)
  then show ?thesis using assms b by (simp add: persist_def load_from_disk_def writable_def)
qed

lemma persist_frame [simp]:
  "persisted (persist M t) = persisted t" "persist_path (persist M t) = persist_path t"
  "ops_since_persist (persist M t) = ops_since_persist t"
  by (simp_all add: persist_def persisted_def split: option.splits)

lemma apply_op_frame:
  "persist_path (apply_op M t x) = persist_path t"
  "ops_since_persist (apply_op M t x) = ops_since_persist t + 1"
  by (cases x; simp add: record_payment_def record_store_def maybe_persist_def Let_def)+

lemma run_ops_frame:
  "persist_path (run_ops M ops t) = persist_path t"
  "ops_since_persist (run_ops M ops t) = ops_since_persist t + word_of_nat (length ops)"
  by (induction ops arbitrary: t) (simp_all add: run_ops_def apply_op_frame)

text \<open>The file after one more operation.\<close>

lemma apply_op_disk:
  assumes "metrics_laws M" "writable M path" "persist_path t = Some path"
  shows "load_from_disk M (disk (apply_op M t x)) path =
         (if unat (ops_since_persist t) mod PERSIST_INTERVAL = 0 then Some (persisted (apply_op M t x))
          else load_from_disk M (disk t) path)"
  using load_persist [OF assms(1,2)] assms(3)
  by (cases x) (auto simp: record_payment_def record_store_def maybe_persist_def Let_def)

lemma last_persist_step:
  "0 < (n :: nat) \<Longrightarrow> n div 10 * 10 + 1 = (if n mod 10 = 0 then Suc n else (n - 1) div 10 * 10 + 1)"
proof (cases "n mod 10 = 0")
  case False
  assume "0 < n"
  then obtain m where "n = Suc m" by (cases n) auto
  then show ?thesis using False by (simp add: div_Suc del: mod_Suc)
qed auto

lemma lag_bound: "(n :: nat) < n div 10 * 10 + 10"
  by presburger

lemma run_ops_disk:
  assumes "metrics_laws M" "writable M path" "persist_path t = Some path" "ops_since_persist t = 0"
    and "ops \<noteq> []" "length ops < 2 ^ 64"
  shows "load_from_disk M (disk (run_ops M ops t)) path =
         Some (persisted (run_ops M (take ((length ops - 1) div PERSIST_INTERVAL * PERSIST_INTERVAL + 1) ops) t))"
  using assms(5,6)
proof (induction ops rule: rev_induct)
  case (snoc x ops)
  let ?t = "run_ops M ops t" and ?n = "length ops"
  have run: "run_ops M (ops @ [x]) t = apply_op M ?t x" by (simp add: run_ops_def)
  have path: "persist_path ?t = Some path" using assms(3) by (simp add: run_ops_frame)
  have "unat (ops_since_persist ?t) = ?n"
    using snoc.prems assms(4) by (simp add: run_ops_frame unat_of_nat)
  then have disk: "load_from_disk M (disk (apply_op M ?t x)) path =
      (if ?n mod 10 = 0 then Some (persisted (apply_op M ?t x)) else load_from_disk M (disk ?t) path)"
    using apply_op_disk [OF assms(1,2) path] by (simp add: PERSIST_INTERVAL_def)
  show ?case
  proof (cases "?n mod 10 = 0")
    case True
    then have "take (?n div 10 * 10 + 1) (ops @ [x]) = ops @ [x]" by auto
    then show ?thesis using True disk run by (simp add: PERSIST_INTERVAL_def)
  next
    case False
    then have pos: "0 < ?n" by (cases ?n) auto
    have step: "?n div 10 * 10 + 1 = (?n - 1) div 10 * 10 + 1" using last_persist_step [OF pos] False by simp
    then have "?n div 10 * 10 + 1 \<le> ?n" using pos by linarith
    then have "take (?n div 10 * 10 + 1) (ops @ [x]) = take ((?n - 1) div 10 * 10 + 1) ops"
      using step by simp
    then show ?thesis
      using False disk run snoc.IH snoc.prems pos by (simp add: PERSIST_INTERVAL_def)
  qed
qed simp

text \<open>
  The metrics file lags behind the counters by fewer than \<open>PERSIST_INTERVAL\<close> operations: it
  holds the counters after the last operation whose number is one more than a multiple of the
  interval. A tracker that is dropped and opened again continues with the same counters.
\<close>

theorem metrics_bounded_loss:
  assumes "metrics_laws M" "writable M path" "ops \<noteq> []" "length ops < 2 ^ 64"
    and "t = with_persistence M now limit path files"
  shows "load_from_disk M (disk (run_ops M ops t)) path =
           Some (persisted (run_ops M (take ((length ops - 1) div PERSIST_INTERVAL * PERSIST_INTERVAL + 1) ops) t)) \<and>
         length ops < (length ops - 1) div PERSIST_INTERVAL * PERSIST_INTERVAL + 1 + PERSIST_INTERVAL \<and>
         persisted (with_persistence M now' limit path (disk (Tracker_drop M (run_ops M ops t)))) =
           persisted (run_ops M ops t)"
proof -
  have t: "persist_path t = Some path" "ops_since_persist t = 0"
    using assms(5) by (simp_all add: with_persistence_def Tracker_new_def Let_def split: option.splits)
  then have "persist_path (run_ops M ops t) = Some path" by (simp add: run_ops_frame)
  then have "load_from_disk M (disk (Tracker_drop M (run_ops M ops t))) path = Some (persisted (run_ops M ops t))"
    using load_persist [OF assms(1,2)] by (simp add: Tracker_drop_def)
  then have reload: "persisted (with_persistence M now' limit path (disk (Tracker_drop M (run_ops M ops t)))) =
      persisted (run_ops M ops t)"
    by (simp add: with_persistence_def Let_def persisted_def)
  moreover have "length ops < (length ops - 1) div PERSIST_INTERVAL * PERSIST_INTERVAL + 1 + PERSIST_INTERVAL"
    using lag_bound [of "length ops - 1"] assms(3) by (cases ops) (simp_all add: PERSIST_INTERVAL_def)
  ultimately show ?thesis
    using run_ops_disk [OF assms(1,2) t assms(3,4)] by blast
qed

section \<open>A sample file format\<close>

fun decode_pairs :: "bytes \<Rightarrow> (u32 \<times> u32) list" where
  "decode_pairs (a # b # c # d # e # f # g # h # bs) =
     (u32_of_be [a, b, c, d], u32_of_be [e, f, g, h]) # decode_pairs bs"
| "decode_pairs bs = []"

definition encode_pairs :: "(u32 \<times> u32) list \<Rightarrow> bytes" where
  "encode_pairs ps = concat (map (\<lambda>(t, n). u32_be t @ u32_be n) ps)"

definition sample_metrics_env :: metrics_env where
  "sample_metrics_env =
     \<lparr>metrics_to_vec = \<lambda>p. Some (be_bytes 8 (unat (pm_received_payment_count p)) @
        be_bytes 8 (unat (pm_close_records_stored p)) @ encode_pairs (pm_records_per_type p)),
      metrics_from_slice = \<lambda>b. Some \<lparr>pm_received_payment_count = word_of_nat (be_value (take 8 b)),
        pm_close_records_stored = word_of_nat (be_value (take 8 (drop 8 b))),
        pm_records_per_type = decode_pairs (drop 16 b)\<rparr>,
      fs_ok = \<lambda>path. True\<rparr>"

lemma u32_be_Cons: "\<exists>a b c d. u32_be w = [a, b, c, d]"
  using length_u32_be [of w] by (auto simp: numeral_eq_Suc length_Suc_conv simp del: length_u32_be)

lemma decode_encode_pairs: "decode_pairs (encode_pairs ps) = ps"
proof (induction ps)
  case (Cons p ps)
  obtain t n where p: "p = (t, n)" by fastforce
  obtain a b c d e f g h where w: "u32_be t = [a, b, c, d]" "u32_be n = [e, f, g, h]"
    using u32_be_Cons by metis
  have "u32_of_be [a, b, c, d] = t" "u32_of_be [e, f, g, h] = n" by (simp_all flip: w)
  then show ?case using Cons by (simp add: p w encode_pairs_def)
qed (simp add: encode_pairs_def)

lemma sample_metrics_laws: "metrics_laws sample_metrics_env"
proof -
  have "word_of_nat (be_value (be_bytes 8 (unat w))) = w" for w :: u64
    using unsigned_less [of w, where ?'a = nat] by (simp add: be_value_be_bytes)
  then show ?thesis by (auto simp: metrics_laws_def sample_metrics_env_def decode_encode_pairs)
qed

lemma metrics_bounded_loss_witness:
  "persisted (with_persistence sample_metrics_env 9 100 ''m'' (disk (Tracker_drop sample_metrics_env
     (run_ops sample_metrics_env [Payment_op, Store_op 0, Payment_op]
        (with_persistence sample_metrics_env 0 100 ''m'' Map.empty))))) =
   \<lparr>pm_received_payment_count = 2, pm_close_records_stored = 1, pm_records_per_type = [(0, 1)]\<rparr>"
proof -
  have "writable sample_metrics_env ''m''" by (simp add: writable_def sample_metrics_env_def)
  moreover have "persisted (run_ops sample_metrics_env [Payment_op, Store_op 0, Payment_op]
      (with_persistence sample_metrics_env 0 100 ''m'' Map.empty)) =
      \<lparr>pm_received_payment_count = 2, pm_close_records_stored = 1, pm_records_per_type = [(0, 1)]\<rparr>"
    by (simp add: run_ops_def record_payment_def record_store_def maybe_persist_def with_persistence_def
        Tracker_new_def load_from_disk_def persisted_def persist_def Let_def sample_metrics_env_def
        PERSIST_INTERVAL_def)
  ultimately show ?thesis
    using metrics_bounded_loss [OF sample_metrics_laws, of "''m''" "[Payment_op, Store_op 0, Payment_op]"
        "with_persistence sample_metrics_env 0 100 ''m'' Map.empty" 0 100 Map.empty 9] by simp
qed

end
