(* ===== verification/Quote.thy ===== *)
theory Quote
  imports Quoting_Metrics Wt_Session
begin

text \<open>
  Payment quotes: \<open>src/ant-node/src/payment/quote.rs\<close>. The generator signs quotes and merkle
  candidates with the function it was given; the verifying functions check content address and
  ML-DSA-65 signature.

  The byte strings that are signed come from \<open>evmlib\<close>, the signature scheme from \<open>saorsa_pqc\<close>;
  both are fields of \<open>quote_env\<close>.
\<close>

record quote_env =
  bytes_for_signing :: "xorname \<Rightarrow> system_time \<Rightarrow> QuotingMetrics \<Rightarrow> rewards_address \<Rightarrow> bytes"
  bytes_for_sig :: "PaymentQuote \<Rightarrow> bytes"
  bytes_to_sign :: "QuotingMetrics \<Rightarrow> rewards_address \<Rightarrow> u64 \<Rightarrow> bytes"
  mldsa_pk_ok :: "bytes \<Rightarrow> bool"
  mldsa_sig_ok :: "bytes \<Rightarrow> bool"
  mldsa_verify :: "bytes \<Rightarrow> bytes \<Rightarrow> bytes \<Rightarrow> string + bool"
  mldsa_sk_parse :: "bytes \<Rightarrow> string + bytes"
  mldsa_sign :: "bytes \<Rightarrow> bytes \<Rightarrow> string + bytes"

definition quote_laws :: "quote_env \<Rightarrow> bool" where
  "quote_laws Q \<longleftrightarrow>
     (\<forall>q. bytes_for_sig Q q =
        bytes_for_signing Q (q_content q) (q_timestamp q) (q_quoting_metrics q) (q_rewards_address q))"

definition mldsa_pair :: "quote_env \<Rightarrow> NodeIdentity \<Rightarrow> bool" where
  "mldsa_pair Q i \<longleftrightarrow>
     mldsa_pk_ok Q (public_key i) \<and>
     (\<forall>sk m s. mldsa_sk_parse Q (secret_key i) = Inr sk \<longrightarrow> mldsa_sign Q sk m = Inr s \<longrightarrow>
        mldsa_sig_ok Q s \<and> mldsa_verify Q (public_key i) m s = Inr True)"

record QuoteGenerator =
  gen_rewards_address :: rewards_address
  metrics_tracker :: QuotingMetricsTracker
  sign_fn :: "(bytes \<Rightarrow> bytes) option"
  gen_pub_key :: bytes

definition QuoteGenerator_new :: "rewards_address \<Rightarrow> QuotingMetricsTracker \<Rightarrow> QuoteGenerator" where
  "QuoteGenerator_new addr tracker =
     \<lparr>gen_rewards_address = addr, metrics_tracker = tracker, sign_fn = None, gen_pub_key = []\<rparr>"

definition set_signer :: "bytes \<Rightarrow> (bytes \<Rightarrow> bytes) \<Rightarrow> QuoteGenerator \<Rightarrow> QuoteGenerator" where
  "set_signer pk f g = g\<lparr>gen_pub_key := pk, sign_fn := Some f\<rparr>"

definition can_sign :: "QuoteGenerator \<Rightarrow> bool" where
  "can_sign g \<longleftrightarrow> sign_fn g \<noteq> None"

definition probe_signer :: "QuoteGenerator \<Rightarrow> node_error + unit" where
  "probe_signer g =
     try_bind (ok_or (Payment SignerNotSet) (sign_fn g)) (\<lambda>f.
     if f (map of_char ''ant-signing-probe'') = [] then Inl (Payment ProbeFailed) else Inr ())"

definition create_quote ::
  "quote_env \<Rightarrow> system_time \<Rightarrow> nat \<Rightarrow> QuoteGenerator \<Rightarrow> xorname \<Rightarrow> nat \<Rightarrow> u32 \<Rightarrow> node_error + PaymentQuote" where
  "create_quote Q timestamp now g addr data_size data_type =
     try_bind (ok_or (Payment SigningNotConfigured) (sign_fn g)) (\<lambda>f.
     (let quoting_metrics = get_metrics now (metrics_tracker g) data_size data_type;
          b = bytes_for_signing Q addr timestamp quoting_metrics (gen_rewards_address g);
          sig = f b
      in if sig = [] then Inl (Payment EmptySignature)
         else Inr \<lparr>q_content = addr, q_timestamp = timestamp, q_quoting_metrics = quoting_metrics,
                   q_pub_key = gen_pub_key g, q_rewards_address = gen_rewards_address g, q_signature = sig\<rparr>))"

definition current_metrics :: "nat \<Rightarrow> QuoteGenerator \<Rightarrow> QuotingMetrics" where
  "current_metrics now g = get_metrics now (metrics_tracker g) 0 0"

definition gen_record_payment :: "metrics_env \<Rightarrow> QuoteGenerator \<Rightarrow> QuoteGenerator" where
  "gen_record_payment M g = g\<lparr>metrics_tracker := record_payment M (metrics_tracker g)\<rparr>"

definition gen_record_store :: "metrics_env \<Rightarrow> u32 \<Rightarrow> QuoteGenerator \<Rightarrow> QuoteGenerator" where
  "gen_record_store M ty g = g\<lparr>metrics_tracker := record_store M ty (metrics_tracker g)\<rparr>"

definition create_merkle_candidate_quote ::
  "quote_env \<Rightarrow> nat \<Rightarrow> QuoteGenerator \<Rightarrow> nat \<Rightarrow> u32 \<Rightarrow> u64 \<Rightarrow> node_error + MerklePaymentCandidateNode" where
  "create_merkle_candidate_quote Q now g data_size data_type ts =
     try_bind (ok_or (Payment SigningNotConfigured) (sign_fn g)) (\<lambda>f.
     (let quoting_metrics = get_metrics now (metrics_tracker g) data_size data_type;
          sig = f (bytes_to_sign Q quoting_metrics (gen_rewards_address g) ts)
      in if sig = [] then Inl (Payment EmptyCandidateSignature)
         else Inr \<lparr>cn_pub_key = gen_pub_key g, cn_quoting_metrics = quoting_metrics,
                   cn_reward_address = gen_rewards_address g, cn_merkle_payment_timestamp = ts,
                   cn_signature = sig\<rparr>))"

definition verify_quote_content :: "PaymentQuote \<Rightarrow> xorname \<Rightarrow> bool" where
  "verify_quote_content q expected \<longleftrightarrow> q_content q = expected"

definition verify_quote_signature :: "quote_env \<Rightarrow> PaymentQuote \<Rightarrow> bool" where
  "verify_quote_signature Q q =
     (if \<not> mldsa_pk_ok Q (q_pub_key q) then False
      else if \<not> mldsa_sig_ok Q (q_signature q) then False
      else case mldsa_verify Q (q_pub_key q) (bytes_for_sig Q q) (q_signature q) of
             Inr valid \<Rightarrow> valid
           | Inl e \<Rightarrow> False)"

definition verify_merkle_candidate_signature :: "quote_env \<Rightarrow> MerklePaymentCandidateNode \<Rightarrow> bool" where
  "verify_merkle_candidate_signature Q c =
     (if \<not> mldsa_pk_ok Q (cn_pub_key c) then False
      else if \<not> mldsa_sig_ok Q (cn_signature c) then False
      else case mldsa_verify Q (cn_pub_key c)
                  (bytes_to_sign Q (cn_quoting_metrics c) (cn_reward_address c) (cn_merkle_payment_timestamp c))
                  (cn_signature c) of
             Inr valid \<Rightarrow> valid
           | Inl e \<Rightarrow> False)"

definition wire_ml_dsa_signer :: "quote_env \<Rightarrow> NodeIdentity \<Rightarrow> QuoteGenerator \<Rightarrow> node_error + QuoteGenerator" where
  "wire_ml_dsa_signer Q i g =
     try_bind (map_err Crypto (mldsa_sk_parse Q (secret_key i))) (\<lambda>sk.
     (let g' = set_signer (public_key i)
                 (\<lambda>msg. case mldsa_sign Q sk msg of Inr s \<Rightarrow> s | Inl e \<Rightarrow> []) g
      in try_bind (probe_signer g') (\<lambda>u. Inr g')))"

section \<open>Signed quotes verify\<close>

lemma wired_signer:
  assumes "wire_ml_dsa_signer Q i g = Inr g'"
  shows "\<exists>sk. mldsa_sk_parse Q (secret_key i) = Inr sk \<and> gen_pub_key g' = public_key i \<and>
           sign_fn g' = Some (\<lambda>msg. case mldsa_sign Q sk msg of Inr s \<Rightarrow> s | Inl e \<Rightarrow> []) \<and>
           gen_rewards_address g' = gen_rewards_address g"
  using assms by (auto simp: wire_ml_dsa_signer_def set_signer_def Let_def result_simps)

lemma wired_signature:
  assumes "mldsa_pair Q i" "mldsa_sk_parse Q (secret_key i) = Inr sk"
    and "s = (case mldsa_sign Q sk m of Inr s \<Rightarrow> s | Inl e \<Rightarrow> [])" "s \<noteq> []"
  shows "mldsa_pk_ok Q (public_key i) \<and> mldsa_sig_ok Q s \<and> mldsa_verify Q (public_key i) m s = Inr True"
  using assms by (auto simp: mldsa_pair_def split: sum.splits)

text \<open>
  With a signer wired from a node identity, every quote the generator creates is for the
  requested address, carries the node's rewards address and public key, and passes the signature
  check; the same holds for merkle candidates, whose timestamp is the requested one.
\<close>

theorem created_quotes_verify:
  assumes "quote_laws Q" "mldsa_pair Q i" "wire_ml_dsa_signer Q i g = Inr g'"
  shows "(\<forall>ts now a n ty q. create_quote Q ts now g' a n ty = Inr q \<longrightarrow>
            verify_quote_content q a \<and> verify_quote_signature Q q \<and> q_timestamp q = ts \<and>
            q_pub_key q = public_key i \<and> q_rewards_address q = gen_rewards_address g) \<and>
         (\<forall>now n ty ts c. create_merkle_candidate_quote Q now g' n ty ts = Inr c \<longrightarrow>
            verify_merkle_candidate_signature Q c \<and> cn_merkle_payment_timestamp c = ts \<and>
            cn_pub_key c = public_key i \<and> cn_reward_address c = gen_rewards_address g)"
proof -
  obtain sk where sk: "mldsa_sk_parse Q (secret_key i) = Inr sk" "gen_pub_key g' = public_key i"
    "sign_fn g' = Some (\<lambda>msg. case mldsa_sign Q sk msg of Inr s \<Rightarrow> s | Inl e \<Rightarrow> [])"
    "gen_rewards_address g' = gen_rewards_address g"
    using wired_signer [OF assms(3)] by blast
  note signed = wired_signature [OF assms(2) sk(1) refl]
  show ?thesis
    using signed assms(1)
    by (auto simp: create_quote_def create_merkle_candidate_quote_def sk(2-4) verify_quote_content_def
        verify_quote_signature_def verify_merkle_candidate_signature_def quote_laws_def Let_def result_simps
        split: if_splits)
qed

section \<open>A sample signature scheme\<close>

definition sample_quote_env :: quote_env where
  "sample_quote_env =
     \<lparr>bytes_for_signing = \<lambda>a t m r. a @ r, bytes_for_sig = \<lambda>q. q_content q @ q_rewards_address q,
      bytes_to_sign = \<lambda>m r t. r, mldsa_pk_ok = \<lambda>k. k \<noteq> [], mldsa_sig_ok = \<lambda>s. s \<noteq> [],
      mldsa_verify = \<lambda>k m s. Inr (s = k), mldsa_sk_parse = Inr, mldsa_sign = \<lambda>k m. Inr k\<rparr>"

lemma created_quotes_verify_witness:
  "\<exists>g q. wire_ml_dsa_signer sample_quote_env \<lparr>public_key = [3], secret_key = [3]\<rparr>
           (QuoteGenerator_new [8] (Tracker_new 0 10 0 Map.empty)) = Inr g \<and>
         create_quote sample_quote_env 5 0 g [1, 2] 100 0 = Inr q \<and>
         verify_quote_content q [1, 2] \<and> verify_quote_signature sample_quote_env q"
proof -
  let ?i = "\<lparr>public_key = [3], secret_key = [3]\<rparr>"
  obtain g where g: "wire_ml_dsa_signer sample_quote_env ?i
      (QuoteGenerator_new [8] (Tracker_new 0 10 0 Map.empty)) = Inr g" and s: "sign_fn g = Some (\<lambda>m. [3])"
    by (simp add: wire_ml_dsa_signer_def sample_quote_env_def set_signer_def probe_signer_def)
  obtain q where q: "create_quote sample_quote_env 5 0 g [1, 2] 100 0 = Inr q"
    by (simp add: create_quote_def s Let_def)
  have "quote_laws sample_quote_env" "mldsa_pair sample_quote_env ?i"
    by (auto simp: quote_laws_def mldsa_pair_def sample_quote_env_def)
  from created_quotes_verify [OF this g] q show ?thesis using g by blast
qed

end
