(* ===== verification/Verified_Cache.thy ===== *)
theory Verified_Cache
  imports Lru
begin

text \<open>
  The cache of addresses whose payment was verified: \<open>src/ant-node/src/payment/cache.rs\<close>. The
  atomic counters are 64 bit words. The hit rate, a floating point number, is left out.
\<close>

definition DEFAULT_CACHE_CAPACITY :: nat where "DEFAULT_CACHE_CAPACITY = 100000"

record 'c VerifiedCache =
  lru :: "('c, xorname, unit) lru_ops"
  inner :: 'c
  hits :: u64
  misses :: u64
  additions :: u64

record CacheStats =
  stat_hits :: u64
  stat_misses :: u64
  stat_additions :: u64

definition with_capacity :: "('c, xorname, unit) lru_ops \<Rightarrow> nat \<Rightarrow> 'c VerifiedCache" where
  "with_capacity L capacity =
     \<lparr>lru = L, inner = lru_new L (max capacity 1), hits = 0, misses = 0, additions = 0\<rparr>"

definition VerifiedCache_new :: "('c, xorname, unit) lru_ops \<Rightarrow> 'c VerifiedCache" where
  "VerifiedCache_new L = with_capacity L DEFAULT_CACHE_CAPACITY"

definition cache_contains :: "'c VerifiedCache \<Rightarrow> xorname \<Rightarrow> bool \<times> 'c VerifiedCache" where
  "cache_contains vc x =
     (let (r, inner') = lru_get (lru vc) (inner vc) x; found = (r \<noteq> None); vc' = vc\<lparr>inner := inner'\<rparr>
      in if found then (found, vc'\<lparr>hits := hits vc + 1\<rparr>) else (found, vc'\<lparr>misses := misses vc + 1\<rparr>))"

definition cache_insert :: "'c VerifiedCache \<Rightarrow> xorname \<Rightarrow> 'c VerifiedCache" where
  "cache_insert vc x =
     vc\<lparr>inner := lru_put (lru vc) (inner vc) x (), additions := additions vc + 1\<rparr>"

definition cache_stats :: "'c VerifiedCache \<Rightarrow> CacheStats" where
  "cache_stats vc = \<lparr>stat_hits = hits vc, stat_misses = misses vc, stat_additions = additions vc\<rparr>"

definition cache_len :: "'c VerifiedCache \<Rightarrow> nat" where
  "cache_len vc = lru_len (lru vc) (inner vc)"

definition cache_is_empty :: "'c VerifiedCache \<Rightarrow> bool" where
  "cache_is_empty vc \<longleftrightarrow> lru_len (lru vc) (inner vc) = 0"

definition cache_clear :: "'c VerifiedCache \<Rightarrow> 'c VerifiedCache" where
  "cache_clear vc = vc\<lparr>inner := lru_clear (lru vc) (inner vc)\<rparr>"

section \<open>The cache as a set\<close>

definition cached :: "'c VerifiedCache \<Rightarrow> xorname set" where
  "cached vc = dom (lru_view (lru vc) (inner vc))"

lemma with_capacity_cached [simp]: "lru_laws L \<Longrightarrow> cached (with_capacity L n) = {}"
  by (simp add: cached_def with_capacity_def lru_lawsD(1))

lemma cache_contains_result:
  assumes "lru_laws (lru vc)"
  shows "fst (cache_contains vc x) = (x \<in> cached vc)" "cached (snd (cache_contains vc x)) = cached vc"
    and "lru (snd (cache_contains vc x)) = lru vc"
  using lru_lawsD(3,4) [OF assms, of "inner vc" x]
  by (auto simp: cache_contains_def cached_def split_def Let_def)

lemma cache_insert_cached:
  assumes "lru_laws (lru vc)"
  shows "cached (cache_insert vc x) \<subseteq> insert x (cached vc)" "lru (cache_insert vc x) = lru vc"
  using map_le_implies_dom_le [OF lru_lawsD(6) [OF assms, of "inner vc" x "()"]]
  by (simp_all add: cache_insert_def cached_def)

section \<open>Sequences of operations\<close>

datatype cache_op = Contains xorname | Insert xorname | Clear

fun cache_step :: "cache_op \<Rightarrow> 'c VerifiedCache \<Rightarrow> 'c VerifiedCache" where
  "cache_step (Contains x) vc = snd (cache_contains vc x)"
| "cache_step (Insert x) vc = cache_insert vc x"
| "cache_step Clear vc = cache_clear vc"

fun inserted :: "cache_op list \<Rightarrow> xorname set" where
  "inserted [] = {}"
| "inserted (Insert x # ops) = insert x (inserted ops)"
| "inserted (Clear # ops) = {}"
| "inserted (Contains x # ops) = inserted ops"

text \<open>The newest operation comes first in \<open>ops\<close>.\<close>

lemma cache_run_inv:
  assumes "lru_laws L"
  shows "lru (foldr cache_step ops (with_capacity L n)) = L \<and>
         lru_cap L (inner (foldr cache_step ops (with_capacity L n))) = max n 1 \<and>
         cached (foldr cache_step ops (with_capacity L n)) \<subseteq> inserted ops"
proof (induction ops)
  case Nil
  have "lru_cap L (lru_new L (max n 1)) = max n 1" by (rule lru_lawsD(2) [OF assms]) simp
  then show ?case using assms by (simp add: with_capacity_def cached_def lru_lawsD(1))
next
  case (Cons x ops)
  let ?vc = "foldr cache_step ops (with_capacity L n)"
  have laws: "lru_laws (lru ?vc)" using Cons assms by simp
  show ?case
  proof (cases x)
    case (Contains a)
    then show ?thesis
      using Cons cache_contains_result [OF laws, of a] lru_lawsD(5) [OF assms]
      by (simp add: cache_contains_def split_def Let_def)
  next
    case (Insert a)
    then show ?thesis
      using Cons cache_insert_cached(1) [OF laws, of a] lru_lawsD(8) [OF assms]
      by (auto simp: cache_insert_def)
  next
    case Clear
    then show ?thesis using Cons lru_lawsD(9,10) [OF assms] by (simp add: cache_clear_def cached_def)
  qed
qed

text \<open>
  After any sequence of operations the cache reports an address as verified only if it was
  inserted since the last clearing, an address is reported right after its insertion, and the
  number of entries does not exceed the capacity (at least one).
\<close>

theorem verified_cache_sound:
  assumes "lru_laws L"
  shows "let vc = foldr cache_step ops (with_capacity L n) in
           (\<forall>x. fst (cache_contains vc x) \<longrightarrow> x \<in> inserted ops) \<and>
           (\<forall>x. fst (cache_contains (cache_insert vc x) x)) \<and>
           cache_len vc \<le> max n 1"
proof -
  define vc where "vc = foldr cache_step ops (with_capacity L n)"
  have inv: "lru vc = L" "lru_cap L (inner vc) = max n 1" "cached vc \<subseteq> inserted ops"
    using cache_run_inv [OF assms, of ops n] by (simp_all add: vc_def)
  then have laws: "lru_laws (lru vc)" using assms by simp
  have "x \<in> cached (cache_insert vc x)" for x
    using lru_lawsD(7) [OF assms, of "inner vc" x "()"] inv by (auto simp: cached_def cache_insert_def)
  then have "fst (cache_contains (cache_insert vc x) x)" for x
    using cache_contains_result(1) [of "cache_insert vc x" x] laws by (simp add: cache_insert_cached(2))
  moreover have "cache_len vc \<le> max n 1"
    using lru_lawsD(12) [OF assms, of "inner vc"] inv by (simp add: cache_len_def)
  ultimately show ?thesis
    using cache_contains_result(1) [OF laws] inv(3) unfolding vc_def [symmetric] Let_def by auto
qed

lemma verified_cache_sound_witness:
  "fst (cache_contains (cache_insert (with_capacity list_lru 0) [1]) [1]) \<and>
   \<not> fst (cache_contains (cache_insert (cache_insert (with_capacity list_lru 0) [1]) [2]) [1])"
proof
  show "fst (cache_contains (cache_insert (with_capacity list_lru 0) [1]) [1])"
    using verified_cache_sound [of list_lru "[]" 0] by (simp add: Let_def)
  show "\<not> fst (cache_contains (cache_insert (cache_insert (with_capacity list_lru 0) [1]) [2]) [1])"
    by (simp add: cache_contains_def cache_insert_def with_capacity_def list_lru_def list_get_def list_put_def
        entries_def Let_def)
qed

end
