(* ===== verification/Payment_Verifier.thy ===== *)
theory Payment_Verifier
  imports Quote Verified_Cache
begin

text \<open>
  Payment verification: \<open>src/ant-node/src/payment/verifier.rs\<close>.

  What \<open>evmlib\<close> and \<open>saorsa_core\<close> compute without network access are the fields of \<open>pay_env\<close>.
  What a call learns from outside, the wall clock and the answers of the EVM chain, is the record
  \<open>chain\<close>; two calls may be given different ones. A call is one step here: its awaits are the
  queries of the chain, whose answers \<open>chain\<close> holds.
\<close>

section \<open>Configuration and environment\<close>

definition MIN_PAYMENT_PROOF_SIZE_BYTES :: nat where "MIN_PAYMENT_PROOF_SIZE_BYTES = 32"
definition MAX_PAYMENT_PROOF_SIZE_BYTES :: nat where "MAX_PAYMENT_PROOF_SIZE_BYTES = 262144"
definition QUOTE_MAX_AGE_SECS :: nat where "QUOTE_MAX_AGE_SECS = 86400"
definition QUOTE_CLOCK_SKEW_TOLERANCE_SECS :: nat where "QUOTE_CLOCK_SKEW_TOLERANCE_SECS = 60"
definition DEFAULT_POOL_CACHE_CAPACITY :: nat where "DEFAULT_POOL_CACHE_CAPACITY = 1000"

record EvmVerifierConfig =
  network :: string

definition EvmVerifierConfig_default :: EvmVerifierConfig where
  "EvmVerifierConfig_default = \<lparr>network = ''ArbitrumOne''\<rparr>"

record PaymentVerifierConfig =
  evm :: EvmVerifierConfig
  cache_capacity :: nat
  local_rewards_address :: rewards_address

datatype PaymentStatus = CachedAsVerified | PaymentRequired | PaymentVerified

definition can_store :: "PaymentStatus \<Rightarrow> bool" where
  "can_store s = (case s of CachedAsVerified \<Rightarrow> True | PaymentVerified \<Rightarrow> True | PaymentRequired \<Rightarrow> False)"

definition is_cached :: "PaymentStatus \<Rightarrow> bool" where
  "is_cached s = (case s of CachedAsVerified \<Rightarrow> True | PaymentVerified \<Rightarrow> False | PaymentRequired \<Rightarrow> False)"

record OnChainPaymentInfo =
  depth :: byte
  oc_merkle_payment_timestamp :: u64
  paid_node_addresses :: "(rewards_address \<times> nat) list"

record raw_payment_info =
  raw_depth :: byte
  raw_timestamp :: u64
  raw_paid :: "(rewards_address \<times> byte) list"

record ('br, 'g) pay_env =
  rmp_serde :: "'br rmp"
  quote_ops :: quote_env
  peer_id_from_public_key_bytes :: "bytes \<Rightarrow> string + peer_id"
  payment_digest :: "ProofOfPayment \<Rightarrow> 'g list"
  winner_pool_hash :: "'br MerklePaymentProof \<Rightarrow> bytes"
  midpoint_root :: "'br \<Rightarrow> bytes"
  verify_merkle_proof :: "xorname \<Rightarrow> 'br \<Rightarrow> 'br \<Rightarrow> byte \<Rightarrow> bytes \<Rightarrow> u64 \<Rightarrow> string + unit"

record 'g chain =
  wall_clock :: system_time
  uptime :: nat
  vault_verify :: "string \<Rightarrow> 'g list \<Rightarrow> string + (nat \<times> bool) list"
  merkle_payment_info :: "string \<Rightarrow> bytes \<Rightarrow> string + raw_payment_info"

record ('c, 'p) PaymentVerifier =
  pv_cache :: "'c VerifiedCache"
  pool_lru :: "('p, bytes, OnChainPaymentInfo) lru_ops"
  pool_cache :: 'p
  pv_config :: PaymentVerifierConfig

definition PaymentVerifier_new ::
  "('c, xorname, unit) lru_ops \<Rightarrow> ('p, bytes, OnChainPaymentInfo) lru_ops \<Rightarrow> PaymentVerifierConfig \<Rightarrow>
   ('c, 'p) PaymentVerifier" where
  "PaymentVerifier_new L L' cfg =
     \<lparr>pv_cache = with_capacity L (cache_capacity cfg), pool_lru = L',
      pool_cache = lru_new L' DEFAULT_POOL_CACHE_CAPACITY, pv_config = cfg\<rparr>"

definition check_payment_required ::
  "('c, 'p) PaymentVerifier \<Rightarrow> xorname \<Rightarrow> PaymentStatus \<times> ('c, 'p) PaymentVerifier" where
  "check_payment_required v x =
     (let (found, cache') = cache_contains (pv_cache v) x; v' = v\<lparr>pv_cache := cache'\<rparr>
      in if found then (CachedAsVerified, v') else (PaymentRequired, v'))"

section \<open>Single-node payments\<close>

fun check_distinct :: "peer_id list \<Rightarrow> (peer_id \<times> PaymentQuote) list \<Rightarrow> node_error + unit" where
  "check_distinct seen [] = Inr ()"
| "check_distinct seen ((p, q) # qs) =
     (if p \<in> set seen then Inl (Payment (DuplicatePeer p)) else check_distinct (seen @ [p]) qs)"

definition validate_quote_structure :: "ProofOfPayment \<Rightarrow> node_error + unit" where
  "validate_quote_structure p =
     (if peer_quotes p = [] then Inl (Payment NoQuotes)
      else if length (peer_quotes p) \<noteq> CLOSE_GROUP_SIZE
      then Inl (Payment (WrongQuoteCount (length (peer_quotes p))))
      else check_distinct [] (peer_quotes p))"

definition validate_quote_content :: "ProofOfPayment \<Rightarrow> xorname \<Rightarrow> node_error + unit" where
  "validate_quote_content p x =
     for_each (\<lambda>(i, q). if \<not> verify_quote_content q x
                         then Inl (Payment (QuoteContentMismatch i x (q_content q))) else Inr ())
       (peer_quotes p)"

text \<open>\<open>duration_since\<close> fails when the other time is later; \<open>as_secs\<close> drops the fraction.\<close>

definition duration_since :: "system_time \<Rightarrow> system_time \<Rightarrow> unit + nat" where
  "duration_since t earlier = (if earlier \<le> t then Inr (nat (t - earlier)) else Inl ())"

definition as_secs :: "nat \<Rightarrow> nat" where "as_secs ns = ns div 1000000000"

definition check_timestamp :: "system_time \<Rightarrow> peer_id \<times> PaymentQuote \<Rightarrow> node_error + unit" where
  "check_timestamp now = (\<lambda>(i, q).
     case duration_since now (q_timestamp q) of
       Inr age \<Rightarrow>
         if QUOTE_MAX_AGE_SECS < as_secs age then Inl (Payment (QuoteExpired i (as_secs age))) else Inr ()
     | Inl u \<Rightarrow>
         (case duration_since (q_timestamp q) now of
            Inr skew \<Rightarrow>
              if QUOTE_CLOCK_SKEW_TOLERANCE_SECS < as_secs skew
              then Inl (Payment (QuoteInFuture i (as_secs skew))) else Inr ()
          | Inl u \<Rightarrow> Inl (Payment (QuoteTimestampInvalid i))))"

definition validate_quote_timestamps :: "system_time \<Rightarrow> ProofOfPayment \<Rightarrow> node_error + unit" where
  "validate_quote_timestamps now p = for_each (check_timestamp now) (peer_quotes p)"

definition validate_peer_bindings :: "('br, 'g) pay_env \<Rightarrow> ProofOfPayment \<Rightarrow> node_error + unit" where
  "validate_peer_bindings E p =
     for_each (\<lambda>(i, q).
       try_bind (map_err (\<lambda>e. Payment (InvalidQuotePublicKey e))
                   (peer_id_from_public_key_bytes E (q_pub_key q))) (\<lambda>expected.
       if expected \<noteq> i then Inl (Payment (PeerBindingMismatch expected i)) else Inr ()))
       (peer_quotes p)"

definition validate_local_recipient :: "PaymentVerifierConfig \<Rightarrow> ProofOfPayment \<Rightarrow> node_error + unit" where
  "validate_local_recipient cfg p =
     (if \<exists>(i, q) \<in> set (peer_quotes p). q_rewards_address q = local_rewards_address cfg
      then Inr () else Inl (Payment NotARecipient))"

definition verify_evm_payment ::
  "('br, 'g) pay_env \<Rightarrow> 'g chain \<Rightarrow> PaymentVerifierConfig \<Rightarrow> xorname \<Rightarrow> ProofOfPayment \<Rightarrow> node_error + unit" where
  "verify_evm_payment E ch cfg x p =
     try_bind (validate_quote_structure p) (\<lambda>u.
     try_bind (validate_quote_content p x) (\<lambda>u.
     try_bind (validate_quote_timestamps (wall_clock ch) p) (\<lambda>u.
     try_bind (validate_peer_bindings E p) (\<lambda>u.
     try_bind (validate_local_recipient cfg p) (\<lambda>u.
     try_bind (for_each (\<lambda>(i, q). if \<not> verify_quote_signature (quote_ops E) q
                 then Inl (Payment (QuoteSignatureInvalid i)) else Inr ()) (peer_quotes p)) (\<lambda>u.
     if payment_digest E p = [] then Inl (Payment NoQuotes)
     else
     try_bind (map_err (\<lambda>e. Payment (EvmError x e))
                 (vault_verify ch (network (evm cfg)) (payment_digest E p))) (\<lambda>results.
     (let paid_results = filter (\<lambda>(amount, valid). 0 < amount) results
      in if paid_results = [] then Inl (Payment (NoPaidQuotes x))
         else for_each (\<lambda>(amount, valid). if \<not> valid then Inl (Payment (PaidQuoteInvalid x)) else Inr ())
                paid_results))))))))"

section \<open>Merkle payments\<close>

definition on_chain_info :: "raw_payment_info \<Rightarrow> OnChainPaymentInfo" where
  "on_chain_info info =
     \<lparr>depth = raw_depth info, oc_merkle_payment_timestamp = raw_timestamp info,
      paid_node_addresses = map (\<lambda>(a, i). (a, unat i)) (raw_paid info)\<rparr>"

definition pool_payment_info ::
  "'g chain \<Rightarrow> bytes \<Rightarrow> ('c, 'p) PaymentVerifier \<Rightarrow>
   (node_error + OnChainPaymentInfo) \<times> ('c, 'p) PaymentVerifier" where
  "pool_payment_info ch pool_hash v =
     (let (cached_info, pc) = lru_get (pool_lru v) (pool_cache v) pool_hash; v1 = v\<lparr>pool_cache := pc\<rparr>
      in case cached_info of
           Some info \<Rightarrow> (Inr info, v1)
         | None \<Rightarrow>
             (case merkle_payment_info ch (network (evm (pv_config v))) pool_hash of
                Inl e \<Rightarrow> (Inl (Payment (PoolQueryFailed pool_hash e)), v1)
              | Inr info \<Rightarrow>
                  (Inr (on_chain_info info),
                   v1\<lparr>pool_cache := lru_put (pool_lru v) pc pool_hash (on_chain_info info)\<rparr>)))"

definition check_candidate :: "quote_env \<Rightarrow> OnChainPaymentInfo \<Rightarrow> MerklePaymentCandidateNode \<Rightarrow> node_error + unit" where
  "check_candidate Q info c =
     (if \<not> verify_merkle_candidate_signature Q c
      then Inl (Payment (CandidateSignatureInvalid (cn_reward_address c)))
      else if cn_merkle_payment_timestamp c \<noteq> oc_merkle_payment_timestamp info
      then Inl (Payment (CandidateTimestampMismatch (oc_merkle_payment_timestamp info)
                  (cn_merkle_payment_timestamp c) (cn_reward_address c)))
      else Inr ())"

definition check_paid_node ::
  "MerklePaymentCandidateNode list \<Rightarrow> rewards_address \<times> nat \<Rightarrow> node_error + unit" where
  "check_paid_node nodes = (\<lambda>(addr, idx).
     if length nodes \<le> idx then Inl (Payment (PaidNodeIndexOutOfBounds idx (length nodes)))
     else if cn_reward_address (nodes ! idx) \<noteq> addr
     then Inl (Payment (PaidNodeAddressMismatch idx addr (cn_reward_address (nodes ! idx))))
     else Inr ())"

definition validate_merkle_proof ::
  "('br, 'g) pay_env \<Rightarrow> xorname \<Rightarrow> 'br MerklePaymentProof \<Rightarrow> OnChainPaymentInfo \<Rightarrow> node_error + unit" where
  "validate_merkle_proof E x m info =
     try_bind (for_each (check_candidate (quote_ops E) info) (candidate_nodes (winner_pool m))) (\<lambda>u.
     try_bind (map_err (\<lambda>e. Payment (MerkleProofFailed x e))
                 (verify_merkle_proof E (mp_address m) (data_proof m) (midpoint_proof (winner_pool m))
                    (depth info) (midpoint_root E (midpoint_proof (winner_pool m)))
                    (oc_merkle_payment_timestamp info))) (\<lambda>u.
     if length (paid_node_addresses info) \<noteq> unat (depth info)
     then Inl (Payment (WrongPaidNodeCount (unat (depth info)) (length (paid_node_addresses info))))
     else for_each (check_paid_node (candidate_nodes (winner_pool m))) (paid_node_addresses info)))"

definition verify_merkle_payment ::
  "('br, 'g) pay_env \<Rightarrow> 'g chain \<Rightarrow> ('c, 'p) PaymentVerifier \<Rightarrow> xorname \<Rightarrow> bytes \<Rightarrow>
   (node_error + unit) \<times> ('c, 'p) PaymentVerifier" where
  "verify_merkle_payment E ch v x proof_bytes =
     (case deserialize_merkle_proof (rmp_serde E) proof_bytes of
        Inl e \<Rightarrow> (Inl (Payment (MerkleProofMalformed e)), v)
      | Inr m \<Rightarrow>
          if mp_address m \<noteq> x then (Inl (Payment (MerkleAddressMismatch (mp_address m) x)), v)
          else
            (case pool_payment_info ch (winner_pool_hash E m) v of
               (Inl e, v') \<Rightarrow> (Inl e, v')
             | (Inr info, v') \<Rightarrow> (validate_merkle_proof E x m info, v')))"

section \<open>The entry point\<close>

definition verify_proof ::
  "('br, 'g) pay_env \<Rightarrow> 'g chain \<Rightarrow> ('c, 'p) PaymentVerifier \<Rightarrow> xorname \<Rightarrow> bytes \<Rightarrow>
   (node_error + unit) \<times> ('c, 'p) PaymentVerifier" where
  "verify_proof E ch v x proof =
     (if length proof < MIN_PAYMENT_PROOF_SIZE_BYTES then (Inl (Payment (ProofTooSmall (length proof))), v)
      else if MAX_PAYMENT_PROOF_SIZE_BYTES < length proof then (Inl (Payment (ProofTooLarge (length proof))), v)
      else case detect_proof_type proof of
        Some Merkle \<Rightarrow> verify_merkle_payment E ch v x proof
      | Some SingleNode \<Rightarrow>
          (try_bind (map_err (\<lambda>e. Payment (ProofMalformed e)) (deserialize_proof (rmp_serde E) proof))
             (\<lambda>(payment, txs). verify_evm_payment E ch (pv_config v) x payment), v)
      | None \<Rightarrow> (Inl (Payment (UnknownProofTag (case first proof of Some t \<Rightarrow> t | None \<Rightarrow> 0))), v))"

definition verify_payment ::
  "('br, 'g) pay_env \<Rightarrow> 'g chain \<Rightarrow> ('c, 'p) PaymentVerifier \<Rightarrow> xorname \<Rightarrow> bytes option \<Rightarrow>
   (node_error + PaymentStatus) \<times> ('c, 'p) PaymentVerifier" where
  "verify_payment E ch v x proof_opt =
     (case check_payment_required v x of
        (CachedAsVerified, v1) \<Rightarrow> (Inr CachedAsVerified, v1)
      | (PaymentRequired, v1) \<Rightarrow>
          (case proof_opt of
             None \<Rightarrow> (Inl (Payment (PaymentRequiredFor x)), v1)
           | Some proof \<Rightarrow>
               (case verify_proof E ch v1 x proof of
                  (Inl e, v2) \<Rightarrow> (Inl e, v2)
                | (Inr u, v2) \<Rightarrow> (Inr PaymentVerified, v2\<lparr>pv_cache := cache_insert (pv_cache v2) x\<rparr>)))
      | (PaymentVerified, v1) \<Rightarrow> (Inl (Payment UnexpectedStatus), v1))"

end
