(* ===== verification/Ant_Handler.thy ===== *)
theory Ant_Handler
  imports Lmdb_Storage Payment_Verifier
begin

text \<open>
  The request handler of a node: \<open>src/ant-node/src/storage/handler.rs\<close>. It composes the chunk
  store, the payment verifier and the quote generator.

  A request is one step, given the chain it sees. \<open>show_error\<close> is the text of an error
  (\<open>to_string\<close>), which the responses carry.
\<close>

record ('br, 'g) node_env =
  postcard_ops :: postcard
  pay :: "('br, 'g) pay_env"
  metrics_ops :: metrics_env
  show_error :: "node_error \<Rightarrow> string"

record ('d, 'c, 'p) AntProtocol =
  storage :: "'d LmdbStorage"
  payment_verifier :: "('c, 'p) PaymentVerifier"
  quote_generator :: QuoteGenerator

definition AntProtocol_new ::
  "'d LmdbStorage \<Rightarrow> ('c, 'p) PaymentVerifier \<Rightarrow> QuoteGenerator \<Rightarrow> ('d, 'c, 'p) AntProtocol" where
  "AntProtocol_new st v g = \<lparr>storage = st, payment_verifier = v, quote_generator = g\<rparr>"

definition protocol_id :: "('d, 'c, 'p) AntProtocol \<Rightarrow> string" where
  "protocol_id a = CHUNK_PROTOCOL_ID"

section \<open>PUT\<close>

definition store_and_record ::
  "('br, 'g) node_env \<Rightarrow> ('d, 'c, 'p) AntProtocol \<Rightarrow> xorname \<Rightarrow> bytes \<Rightarrow> ChunkPutResponse \<times> ('d, 'c, 'p) AntProtocol" where
  "store_and_record N a addr data =
     (case put (postcard_ops N) (storage a) addr data of
        (Inr is_new, st) \<Rightarrow>
          (PutSuccess addr,
           a\<lparr>storage := st,
             quote_generator := gen_record_payment (metrics_ops N)
               (gen_record_store (metrics_ops N) DATA_TYPE_CHUNK (quote_generator a))\<rparr>)
      | (Inl e, st) \<Rightarrow> (PutError (StorageFailed (show_error N e)), a\<lparr>storage := st\<rparr>))"

definition handle_put ::
  "('br, 'g) node_env \<Rightarrow> 'g chain \<Rightarrow> ('d, 'c, 'p) AntProtocol \<Rightarrow> ChunkPutRequest \<Rightarrow>
   ChunkPutResponse \<times> ('d, 'c, 'p) AntProtocol" where
  "handle_put N ch a req =
     (let addr = put_address req; data = put_content req; computed = compute_address (postcard_ops N) data
      in if MAX_CHUNK_SIZE < length data then (PutError (ChunkTooLarge (length data) MAX_CHUNK_SIZE), a)
         else if computed \<noteq> addr then (PutError (AddressMismatch addr computed), a)
         else
           (case exists_chunk (storage a) addr of
              Inr True \<Rightarrow> (PutAlreadyExists addr, a)
            | Inl e \<Rightarrow> (PutError (Internal (''Storage read failed: '' @ show_error N e)), a)
            | Inr False \<Rightarrow>
                (case verify_payment (pay N) ch (payment_verifier a) addr (payment_proof req) of
                   (Inr status, v) \<Rightarrow>
                     if can_store status then store_and_record N (a\<lparr>payment_verifier := v\<rparr>) addr data
                     else (PutPaymentRequired ''Payment required for new chunk'', a\<lparr>payment_verifier := v\<rparr>)
                 | (Inl e, v) \<Rightarrow>
                     (PutError (PaymentFailed (show_error N e)), a\<lparr>payment_verifier := v\<rparr>))))"

section \<open>GET\<close>

definition handle_get ::
  "('br, 'g) node_env \<Rightarrow> ('d, 'c, 'p) AntProtocol \<Rightarrow> ChunkGetRequest \<Rightarrow>
   ChunkGetResponse \<times> ('d, 'c, 'p) AntProtocol" where
  "handle_get N a req =
     (let addr = get_address req
      in case get (postcard_ops N) (storage a) addr of
           (Inr (Some data), st) \<Rightarrow> (GetSuccess addr data, a\<lparr>storage := st\<rparr>)
         | (Inr None, st) \<Rightarrow> (GetNotFound addr, a\<lparr>storage := st\<rparr>)
         | (Inl e, st) \<Rightarrow> (GetError (StorageFailed (show_error N e)), a\<lparr>storage := st\<rparr>))"

section \<open>Quotes\<close>

definition usize_try_from :: "u64 \<Rightarrow> nat option" where
  "usize_try_from n = (if unat n < USIZE_LIMIT then Some (unat n) else None)"

definition handle_quote ::
  "('br, 'g) node_env \<Rightarrow> 'g chain \<Rightarrow> ('d, 'c, 'p) AntProtocol \<Rightarrow> ChunkQuoteRequest \<Rightarrow> ChunkQuoteResponse" where
  "handle_quote N ch a req =
     (let already_stored = (case exists_chunk (storage a) (quote_address req) of Inr b \<Rightarrow> b | Inl e \<Rightarrow> False)
      in case usize_try_from (quote_data_size req) of
           None \<Rightarrow> QuoteError (ChunkTooLarge (MAX_CHUNK_SIZE + 1) MAX_CHUNK_SIZE)
         | Some n \<Rightarrow>
             if MAX_CHUNK_SIZE < n then QuoteError (ChunkTooLarge n MAX_CHUNK_SIZE)
             else
               (case create_quote (quote_ops (pay N)) (wall_clock ch) (uptime ch) (quote_generator a)
                       (quote_address req) n (quote_data_type req) of
                  Inr quote \<Rightarrow>
                    (case quote_to_vec (rmp_serde (pay N)) quote of
                       Inr b \<Rightarrow> QuoteSuccess b already_stored
                     | Inl e \<Rightarrow> QuoteError (QuoteFailed (''Failed to serialize quote: '' @ e)))
                | Inl e \<Rightarrow> QuoteError (QuoteFailed (show_error N e))))"

definition handle_merkle_candidate_quote ::
  "('br, 'g) node_env \<Rightarrow> 'g chain \<Rightarrow> ('d, 'c, 'p) AntProtocol \<Rightarrow> MerkleCandidateQuoteRequest \<Rightarrow>
   MerkleCandidateQuoteResponse" where
  "handle_merkle_candidate_quote N ch a req =
     (case usize_try_from (mq_data_size req) of
        None \<Rightarrow> CandidateError (QuoteFailed ''data_size overflows usize'')
      | Some n \<Rightarrow>
          if MAX_CHUNK_SIZE < n then CandidateError (ChunkTooLarge n MAX_CHUNK_SIZE)
          else
            (case create_merkle_candidate_quote (quote_ops (pay N)) (uptime ch) (quote_generator a) n
                    (mq_data_type req) (merkle_payment_timestamp req) of
               Inr candidate \<Rightarrow>
                 (case candidate_to_vec (rmp_serde (pay N)) candidate of
                    Inr b \<Rightarrow> CandidateSuccess b
                  | Inl e \<Rightarrow> CandidateError (QuoteFailed (''Failed to serialize merkle candidate node: '' @ e)))
             | Inl e \<Rightarrow> CandidateError (QuoteFailed (show_error N e))))"

section \<open>Dispatch\<close>

definition handle_body ::
  "('br, 'g) node_env \<Rightarrow> 'g chain \<Rightarrow> ('d, 'c, 'p) AntProtocol \<Rightarrow> ChunkMessageBody \<Rightarrow>
   ChunkMessageBody option \<times> ('d, 'c, 'p) AntProtocol" where
  "handle_body N ch a b =
     (case b of
        PutRequest req \<Rightarrow> (let (r, a') = handle_put N ch a req in (Some (PutResponse r), a'))
      | GetRequest req \<Rightarrow> (let (r, a') = handle_get N a req in (Some (GetResponse r), a'))
      | QuoteRequest req \<Rightarrow> (Some (QuoteResponse (handle_quote N ch a req)), a)
      | MerkleQuoteRequest req \<Rightarrow> (Some (MerkleQuoteResponse (handle_merkle_candidate_quote N ch a req)), a)
      | PutResponse r \<Rightarrow> (None, a)
      | GetResponse r \<Rightarrow> (None, a)
      | QuoteResponse r \<Rightarrow> (None, a)
      | MerkleQuoteResponse r \<Rightarrow> (None, a))"

definition try_handle_request ::
  "('br, 'g) node_env \<Rightarrow> 'g chain \<Rightarrow> ('d, 'c, 'p) AntProtocol \<Rightarrow> bytes \<Rightarrow>
   (node_error + bytes option) \<times> ('d, 'c, 'p) AntProtocol" where
  "try_handle_request N ch a data =
     (case msg_decode (postcard_ops N) data of
        Inl e \<Rightarrow> (Inl (ProtocolDecode e), a)
      | Inr message \<Rightarrow>
          (case handle_body N ch a (body message) of
             (None, a') \<Rightarrow> (Inr None, a')
           | (Some response_body, a') \<Rightarrow>
               (case msg_encode (postcard_ops N) \<lparr>request_id = request_id message, body = response_body\<rparr> of
                  Inl e \<Rightarrow> (Inl (ProtocolEncode e), a')
                | Inr b \<Rightarrow> (Inr (Some b), a'))))"

definition exists_local :: "('d, 'c, 'p) AntProtocol \<Rightarrow> xorname \<Rightarrow> node_error + bool" where
  "exists_local a addr = exists_chunk (storage a) addr"

definition get_local ::
  "('br, 'g) node_env \<Rightarrow> ('d, 'c, 'p) AntProtocol \<Rightarrow> xorname \<Rightarrow>
   (node_error + bytes option) \<times> ('d, 'c, 'p) AntProtocol" where
  "get_local N a addr =
     (let (r, st) = get (postcard_ops N) (storage a) addr in (r, a\<lparr>storage := st\<rparr>))"

definition handler_storage_stats :: "('d, 'c, 'p) AntProtocol \<Rightarrow> StorageStats" where
  "handler_storage_stats a = storage_stats (storage a)"

definition payment_cache_stats :: "('d, 'c, 'p) AntProtocol \<Rightarrow> CacheStats" where
  "payment_cache_stats a = cache_stats (pv_cache (payment_verifier a))"

end
