(* ===== verification/Lmdb_Storage_Correct.thy ===== *)
theory Lmdb_Storage_Correct
  imports Lmdb_Storage "HOL-Library.AList"
begin

text \<open>
  Correctness of the chunk store of \<open>Lmdb_Storage\<close>. The interface \<open>content_store\<close> is what the
  request handler relies on: a map from addresses to contents in which every content hashes to
  its address. It is interpreted on the LMDB store. The store refines a specification over maps
  for every sequence of operations, and no interleaving of write transactions exceeds its
  capacity.
\<close>

section \<open>The interface of a content-addressed store\<close>

locale content_store =
  fixes inv :: "'s \<Rightarrow> bool" and view :: "'s \<Rightarrow> xorname \<rightharpoonup> bytes" and hash :: "bytes \<Rightarrow> xorname"
    and exists_op :: "'s \<Rightarrow> xorname \<Rightarrow> 'e + bool"
    and put_op :: "'s \<Rightarrow> xorname \<Rightarrow> bytes \<Rightarrow> ('e + bool) \<times> 's"
    and get_op :: "'s \<Rightarrow> xorname \<Rightarrow> ('e + bytes option) \<times> 's"
  assumes inv_hash: "inv s \<Longrightarrow> view s a = Some v \<Longrightarrow> hash v = a"
    and exists_view: "inv s \<Longrightarrow> exists_op s a = Inr b \<Longrightarrow> b \<longleftrightarrow> view s a \<noteq> None"
    and put_inv: "inv s \<Longrightarrow> inv (snd (put_op s a v))"
    and put_view: "inv s \<Longrightarrow>
      view (snd (put_op s a v)) = (if fst (put_op s a v) = Inr True then (view s)(a \<mapsto> v) else view s)"
    and put_new: "inv s \<Longrightarrow> fst (put_op s a v) = Inr b \<Longrightarrow> hash v = a \<and> b = (view s a = None)"
    and get_inv: "inv s \<Longrightarrow> inv (snd (get_op s a))"
    and get_view: "inv s \<Longrightarrow> view (snd (get_op s a)) = view s"
    and get_result: "inv s \<Longrightarrow> fst (get_op s a) = Inr r \<Longrightarrow> r = view s a"
begin

lemma get_integrity: "inv s \<Longrightarrow> fst (get_op s a) = Inr (Some v) \<Longrightarrow> hash v = a"
  using get_result [of s a "Some v"] inv_hash by simp

lemma put_mono: "inv s \<Longrightarrow> view s a = Some v \<Longrightarrow> view (snd (put_op s b w)) a = Some v"
  using put_view [of s b w] put_new [of s b w True] by (auto split: if_splits)

lemma put_stored:
  "inv s \<Longrightarrow> fst (put_op s a v) = Inr b \<Longrightarrow> \<exists>w. view (snd (put_op s a v)) a = Some w \<and> hash w = hash v"
  using put_view [of s a v] put_new [of s a v b] inv_hash [of s a] by (cases b) auto

lemma put_get:
  assumes "inv s" "fst (put_op s a v) = Inr b" "fst (get_op (snd (put_op s a v)) a) = Inr r"
  shows "\<exists>w. r = Some w \<and> hash w = hash v \<and> (b \<longrightarrow> w = v)"
proof -
  have r: "r = view (snd (put_op s a v)) a" by (rule get_result [OF put_inv [OF assms(1)] assms(3)])
  show ?thesis
    using put_stored [OF assms(1,2)] put_view [OF assms(1), of a v] assms(2) r by (cases b) auto
qed

end

section \<open>The store as a map\<close>

definition view :: "'d LmdbStorage \<Rightarrow> xorname \<rightharpoonup> bytes" where
  "view st = kv_view (env st) (db st)"

definition storage_inv :: "postcard \<Rightarrow> 'd LmdbStorage \<Rightarrow> bool" where
  "storage_inv P st \<longleftrightarrow>
     kv_laws (env st) \<and> (\<forall>a v. view st a = Some v \<longrightarrow> compute_address P v = a)"

lemma kv_law_simps:
  assumes "kv_laws K"
  shows "kv_get K d k = Inr r \<Longrightarrow> kv_view K d k = r"
    and "kv_entries K d = Inr n \<Longrightarrow> n = card (dom (kv_view K d))"
    and "kv_put K d k v = Inr d' \<Longrightarrow> kv_view K d' = (kv_view K d)(k \<mapsto> v)"
    and "kv_delete K d k = Inr (b, d') \<Longrightarrow> kv_view K d' = (kv_view K d)(k := None) \<and> b = (kv_view K d k \<noteq> None)"
    and "kv_commit K d = Inr d' \<Longrightarrow> kv_view K d' = kv_view K d"
    and "finite (dom (kv_view K d))"
  using assms unfolding kv_laws_def by blast+

lemma backend_Inr [simp]: "backend w r = Inr x \<longleftrightarrow> r = Inr x"
  by (cases r) (simp_all add: backend_def result_simps)

lemma put_txn_view:
  assumes "kv_laws K" "put_txn K limit d k v = Inr (b, d')"
  shows "kv_view K d' = (if b then (kv_view K d)(k \<mapsto> v) else kv_view K d)"
    and "b = (kv_view K d k = None)"
    and "b \<Longrightarrow> 0 < limit \<Longrightarrow> card (dom (kv_view K d)) < limit"
  using assms(2)
  by (auto simp: put_txn_def result_simps dest!: kv_law_simps(1-3,5) [OF assms(1)] split: if_splits)

lemma delete_txn_view:
  assumes "kv_laws K" "delete_txn K d k = Inr (b, d')"
  shows "kv_view K d' = (kv_view K d)(k := None) \<and> b = (kv_view K d k \<noteq> None)"
  using assms(2)
  by (auto simp: delete_txn_def result_simps dest!: kv_law_simps(4,5) [OF assms(1)] split: prod.splits)

text \<open>Every operation keeps the handle and the configuration, and the invariant.\<close>

lemma put_commit_view:
  assumes "kv_laws (env st)"
  shows "view (snd (put_commit st a v)) =
      (if fst (put_commit st a v) = Inr True then (view st)(a \<mapsto> v) else view st)"
    and "fst (put_commit st a v) = Inr b \<Longrightarrow> b = (view st a = None)"
    and "fst (put_commit st a v) = Inr True \<Longrightarrow> 0 < max_chunks (config st) \<Longrightarrow>
      card (dom (view st)) < max_chunks (config st)"
    and "env (snd (put_commit st a v)) = env st"
    and "config (snd (put_commit st a v)) = config st"
  using put_txn_view [OF assms]
  by (auto simp: put_commit_def view_def count_duplicate_def split: sum.splits prod.splits if_splits)

lemma count_duplicate_simps [simp]:
  "view (count_duplicate st) = view st" "env (count_duplicate st) = env st"
  "config (count_duplicate st) = config st" "db (count_duplicate st) = db st"
  by (simp_all add: count_duplicate_def view_def)

lemma exists_chunk_view:
  "kv_laws (env st) \<Longrightarrow> exists_chunk st a = Inr b \<Longrightarrow> b = (view st a \<noteq> None)"
  by (auto simp: exists_chunk_def result_simps view_def dest!: kv_law_simps(1))

lemma put_frame [simp]:
  "kv_laws (env st) \<Longrightarrow> env (snd (put P st a v)) = env st"
  "kv_laws (env st) \<Longrightarrow> config (snd (put P st a v)) = config st"
  by (simp_all add: put_def put_commit_view split: sum.splits bool.splits)

lemma put_result:
  assumes "kv_laws (env st)" "fst (put P st a v) = Inr b"
  shows "compute_address P v = a" "b = (view st a = None)"
  using assms(2) exists_chunk_view [OF assms(1)] put_commit_view(2) [OF assms(1)]
  by (auto simp: put_def split: sum.splits bool.splits if_splits)

lemma put_effect:
  assumes "kv_laws (env st)"
  shows "view (snd (put P st a v)) = (if fst (put P st a v) = Inr True then (view st)(a \<mapsto> v) else view st)"
  using put_commit_view(1) [OF assms] by (simp add: put_def split: sum.splits bool.splits)

lemma get_frame [simp]:
  "view (snd (get P st a)) = view st" "env (snd (get P st a)) = env st"
  "config (snd (get P st a)) = config st" "db (snd (get P st a)) = db st"
  by (simp_all add: get_def view_def split: sum.splits option.splits)

lemma get_returns:
  "kv_laws (env st) \<Longrightarrow> fst (get P st a) = Inr r \<Longrightarrow> r = view st a"
  by (auto simp: get_def result_simps view_def dest!: kv_law_simps(1) split: sum.splits option.splits if_splits)

lemma storage_inv_sub:
  assumes "storage_inv P st" "env st' = env st" "\<And>a v. view st' a = Some v \<Longrightarrow> view st a = Some v"
  shows "storage_inv P st'"
  using assms unfolding storage_inv_def by metis

lemma storage_inv_put: "storage_inv P st \<Longrightarrow> storage_inv P (snd (put P st a v))"
  using put_result(1) [of st P a v True] by (auto simp: storage_inv_def put_effect split: if_splits)

lemma storage_inv_get: "storage_inv P st \<Longrightarrow> storage_inv P (snd (get P st a))"
  by (simp add: storage_inv_def)

interpretation lmdb: content_store "storage_inv P" view "compute_address P" exists_chunk "put P" "get P"
  for P :: postcard
proof unfold_locales
  fix s :: "'a LmdbStorage" and a v b r
  assume inv: "storage_inv P s"
  then have laws: "kv_laws (env s)" by (simp add: storage_inv_def)
  show "view s a = Some v \<Longrightarrow> compute_address P v = a" using inv by (simp add: storage_inv_def)
  show "exists_chunk s a = Inr b \<Longrightarrow> b = (view s a \<noteq> None)" by (rule exists_chunk_view [OF laws])
  show "storage_inv P (snd (put P s a v))" by (rule storage_inv_put [OF inv])
  show "view (snd (put P s a v)) = (if fst (put P s a v) = Inr True then (view s)(a \<mapsto> v) else view s)"
    by (rule put_effect [OF laws])
  show "fst (put P s a v) = Inr b \<Longrightarrow> compute_address P v = a \<and> b = (view s a = None)"
    using put_result [OF laws] by blast
  show "storage_inv P (snd (get P s a))" by (rule storage_inv_get [OF inv])
  show "fst (get P s a) = Inr r \<Longrightarrow> r = view s a" by (rule get_returns [OF laws])
qed simp

section \<open>A specification over maps\<close>

definition kv_healthy :: "'d kv_ops \<Rightarrow> bool" where
  "kv_healthy K \<longleftrightarrow>
     (\<forall>d. kv_read_txn K d = Inr () \<and> kv_write_txn K d = Inr () \<and> is_ok (kv_entries K d) \<and> is_ok (kv_commit K d) \<and>
        (\<forall>k. is_ok (kv_get K d k) \<and> is_ok (kv_delete K d k) \<and> (\<forall>v. is_ok (kv_put K d k v))))"

datatype store_op = OpPut xorname bytes | OpGet xorname | OpExists xorname | OpDelete xorname

datatype store_result =
    PutResult "node_error + bool"
  | GetResult "node_error + bytes option"
  | ExistsResult "node_error + bool"
  | DeleteResult "node_error + bool"

fun store_step :: "postcard \<Rightarrow> store_op \<Rightarrow> 'd LmdbStorage \<Rightarrow> store_result \<times> 'd LmdbStorage" where
  "store_step P (OpPut a v) st = (let (r, st') = put P st a v in (PutResult r, st'))"
| "store_step P (OpGet a) st = (let (r, st') = get P st a in (GetResult r, st'))"
| "store_step P (OpExists a) st = (ExistsResult (exists_chunk st a), st)"
| "store_step P (OpDelete a) st = (let (r, st') = delete st a in (DeleteResult r, st'))"

fun spec_step ::
  "postcard \<Rightarrow> nat \<Rightarrow> store_op \<Rightarrow> (xorname \<rightharpoonup> bytes) \<Rightarrow> store_result \<times> (xorname \<rightharpoonup> bytes)" where
  "spec_step P limit (OpPut a v) m =
     (if compute_address P v \<noteq> a
      then (PutResult (Inl (Storage (ContentAddressMismatch a (compute_address P v)))), m)
      else if m a \<noteq> None then (PutResult (Inr False), m)
      else if 0 < limit \<and> limit \<le> card (dom m)
      then (PutResult (Inl (Storage (CapacityReached (card (dom m)) limit))), m)
      else (PutResult (Inr True), m(a \<mapsto> v)))"
| "spec_step P limit (OpGet a) m = (GetResult (Inr (m a)), m)"
| "spec_step P limit (OpExists a) m = (ExistsResult (Inr (m a \<noteq> None)), m)"
| "spec_step P limit (OpDelete a) m = (DeleteResult (Inr (m a \<noteq> None)), m(a := None))"

fun run :: "('o \<Rightarrow> 's \<Rightarrow> 'r \<times> 's) \<Rightarrow> 'o list \<Rightarrow> 's \<Rightarrow> 'r list \<times> 's" where
  "run f [] s = ([], s)"
| "run f (x # xs) s = (let (r, s1) = f x s; (rs, s2) = run f xs s1 in (r # rs, s2))"

lemma kv_healthy_results:
  assumes "kv_healthy K" "kv_laws K"
  shows "kv_read_txn K d = Inr ()" "kv_write_txn K d = Inr ()"
    and "kv_get K d k = Inr (kv_view K d k)"
    and "kv_entries K d = Inr (card (dom (kv_view K d)))"
    and "\<exists>d'. kv_put K d k v = Inr d'"
    and "\<exists>d'. kv_commit K d = Inr d'"
    and "\<exists>d'. kv_delete K d k = Inr (kv_view K d k \<noteq> None, d')"
proof -
  show "kv_read_txn K d = Inr ()" "kv_write_txn K d = Inr ()"
    and "\<exists>d'. kv_put K d k v = Inr d'" "\<exists>d'. kv_commit K d = Inr d'"
    using assms(1) by (simp_all add: kv_healthy_def is_ok_iff)
  obtain r n b d' where "kv_get K d k = Inr r" "kv_entries K d = Inr n" "kv_delete K d k = Inr (b, d')"
    using assms(1) unfolding kv_healthy_def is_ok_iff by (metis surj_pair)
  moreover note kv_law_simps(1) [OF assms(2) this(1)] kv_law_simps(2) [OF assms(2) this(2)]
    kv_law_simps(4) [OF assms(2) this(3)]
  ultimately show "kv_get K d k = Inr (kv_view K d k)" "kv_entries K d = Inr (card (dom (kv_view K d)))"
    and "\<exists>d'. kv_delete K d k = Inr (kv_view K d k \<noteq> None, d')"
    by simp_all
qed

lemma delete_effect:
  assumes "kv_laws (env st)"
  shows "env (snd (delete st a)) = env st" "config (snd (delete st a)) = config st"
    and "view (snd (delete st a)) = (if is_ok (fst (delete st a)) then (view st)(a := None) else view st)"
    and "fst (delete st a) = Inr b \<Longrightarrow> b = (view st a \<noteq> None)"
  using delete_txn_view [OF assms]
  by (auto simp: delete_def view_def split: sum.splits prod.splits)

lemma store_step_refines:
  assumes "storage_inv P st" "kv_healthy (env st)"
  shows "(let (r, st') = store_step P x st in (r, view st')) = spec_step P (max_chunks (config st)) x (view st)"
proof -
  have laws: "kv_laws (env st)" and hash: "view st a = Some v \<Longrightarrow> compute_address P v = a" for a v
    using assms(1) by (auto simp: storage_inv_def)
  note healthy = kv_healthy_results [OF assms(2) laws]
  show ?thesis
  proof (cases x)
    case (OpPut a v)
    obtain d1 d2 where d: "kv_put (env st) (db st) a v = Inr d1" "kv_commit (env st) d1 = Inr d2"
      using healthy(5,6) by blast
    have txn: "put_txn (env st) limit (db st) a v =
        (if view st a \<noteq> None then Inr (False, db st)
         else if 0 < limit \<and> limit \<le> card (dom (view st))
         then Inl (Storage (CapacityReached (card (dom (view st))) limit))
         else Inr (True, d2))" for limit
      by (simp add: put_txn_def healthy d backend_def view_def)
    have "exists_chunk st a = Inr (view st a \<noteq> None)"
      by (simp add: exists_chunk_def healthy backend_def view_def)
    moreover have "view (snd (put_commit st a v)) =
        (if fst (put_commit st a v) = Inr True then (view st)(a \<mapsto> v) else view st)"
      by (rule put_commit_view(1) [OF laws])
    ultimately show ?thesis
      using put_effect [OF laws, of P a v]
      by (auto simp: OpPut Let_def put_def put_commit_def txn split: prod.splits bool.splits if_splits)
  next
    case (OpGet a)
    then show ?thesis
      using hash by (auto simp: Let_def get_def healthy backend_def view_def split: option.splits)
  next
    case (OpExists a)
    then show ?thesis by (simp add: exists_chunk_def healthy backend_def view_def)
  next
    case (OpDelete a)
    obtain d1 d2 where "kv_delete (env st) (db st) a = Inr (view st a \<noteq> None, d1)" "kv_commit (env st) d1 = Inr d2"
      using healthy(6,7) unfolding view_def by blast
    then have "fst (delete st a) = Inr (view st a \<noteq> None)"
      by (simp add: delete_def delete_txn_def healthy backend_def)
    then show ?thesis
      using delete_effect(3) [OF laws, of a] by (simp add: OpDelete split_def)
  qed
qed

lemma store_step_frame:
  assumes "storage_inv P st"
  shows "storage_inv P (snd (store_step P x st))" "env (snd (store_step P x st)) = env st"
    and "config (snd (store_step P x st)) = config st"
proof -
  have laws: "kv_laws (env st)" using assms by (simp add: storage_inv_def)
  show "env (snd (store_step P x st)) = env st"
    using laws by (cases x) (simp_all add: split_def Let_def delete_effect(1))
  show "config (snd (store_step P x st)) = config st"
    using laws by (cases x) (simp_all add: split_def Let_def delete_effect(2))
  show "storage_inv P (snd (store_step P x st))"
  proof (cases x)
    case (OpDelete a)
    then show ?thesis by (auto intro!: storage_inv_sub [OF assms] simp: split_def Let_def delete_effect(1-3) [OF laws] split: if_splits)
  qed (simp_all add: split_def Let_def assms storage_inv_put storage_inv_get)
qed

text \<open>
  C17: For every sequence of put, get, exists and delete operations, the store returns the
  results of the specification over maps and ends in the state it prescribes, provided that the
  database calls do not fail: a put is refused when the content does not hash to the address or the
  capacity is reached, reports an existing chunk as a duplicate and stores it otherwise.
\<close>

theorem lmdb_refines_map_spec:
  assumes "storage_inv P st" "kv_healthy (env st)"
  shows "map_prod id view (run (store_step P) ops st) =
         run (spec_step P (max_chunks (config st))) ops (view st)"
  using assms
proof (induction ops arbitrary: st)
  case (Cons x ops)
  obtain r st1 where x: "store_step P x st = (r, st1)" by fastforce
  have spec: "spec_step P (max_chunks (config st)) x (view st) = (r, view st1)"
    using store_step_refines [OF Cons.prems, of x] x by simp
  have "storage_inv P st1" "kv_healthy (env st1)" "config st1 = config st"
    using store_step_frame [OF Cons.prems(1), of x] Cons.prems(2) x by simp_all
  then have "map_prod id view (run (store_step P) ops st1) =
      run (spec_step P (max_chunks (config st))) ops (view st1)"
    using Cons.IH [of st1] by metis
  then show ?case
    by (cases "run (store_step P) ops st1") (simp add: x spec, metis case_prod_conv)
qed simp

section \<open>Concurrent tasks\<close>

text \<open>
  Tasks interleave at the granularity of transactions: a \<open>put\<close> whose content was verified and
  whose fast-path check ran at any earlier time commits later, and other tasks read, delete and
  count in between.
\<close>

inductive storage_reach :: "postcard \<Rightarrow> 'd LmdbStorage \<Rightarrow> 'd LmdbStorage \<Rightarrow> bool" for P st0 where
  start: "storage_reach P st0 st0"
| commit: "storage_reach P st0 st \<Longrightarrow> compute_address P v = a \<Longrightarrow> storage_reach P st0 (snd (put_commit st a v))"
| duplicate: "storage_reach P st0 st \<Longrightarrow> storage_reach P st0 (count_duplicate st)"
| read: "storage_reach P st0 st \<Longrightarrow> storage_reach P st0 (snd (get P st a))"
| remove: "storage_reach P st0 st \<Longrightarrow> storage_reach P st0 (snd (delete st a))"

definition within_capacity :: "nat \<Rightarrow> 'd LmdbStorage \<Rightarrow> bool" where
  "within_capacity n st \<longleftrightarrow>
     (0 < max_chunks (config st) \<longrightarrow> card (dom (view st)) \<le> max n (max_chunks (config st)))"

lemma storage_inv_commit:
  assumes "storage_inv P st" "compute_address P v = a" "within_capacity n st"
  shows "storage_inv P (snd (put_commit st a v)) \<and> within_capacity n (snd (put_commit st a v))"
proof -
  have laws: "kv_laws (env st)" using assms(1) by (simp add: storage_inv_def)
  have fin: "finite (dom (view st))" using kv_law_simps(6) [OF laws] by (simp add: view_def)
  note eff = put_commit_view [OF laws, of a v]
  have "storage_inv P (snd (put_commit st a v))"
    using assms(1,2) unfolding storage_inv_def eff(1,4) by (auto split: if_splits)
  moreover have "card (dom ((view st)(a \<mapsto> v))) \<le> Suc (card (dom (view st)))"
    using fin by (simp add: card_insert_if)
  then have "within_capacity n (snd (put_commit st a v))"
    using assms(3) eff(3) unfolding within_capacity_def eff(1,5) by (auto split: if_splits)
  ultimately show ?thesis ..
qed

lemma storage_inv_delete:
  assumes "storage_inv P st" "within_capacity n st"
  shows "storage_inv P (snd (delete st a)) \<and> within_capacity n (snd (delete st a))"
proof -
  have laws: "kv_laws (env st)" using assms(1) by (simp add: storage_inv_def)
  have "card (dom (view st) - {a}) \<le> card (dom (view st))"
    using kv_law_simps(6) [OF laws] by (simp add: view_def card_mono)
  then have "within_capacity n (snd (delete st a))"
    using assms(2) by (auto simp: within_capacity_def delete_effect(1-3) [OF laws])
  moreover have "storage_inv P (snd (delete st a))"
    by (auto intro!: storage_inv_sub [OF assms(1)] simp: delete_effect(1-3) [OF laws] split: if_splits)
  ultimately show ?thesis by blast
qed

text \<open>
  C5: Whatever the interleaving of concurrent puts, gets and deletes, every stored chunk hashes
  to its address, and a store with a capacity never holds more chunks than the capacity, or than
  it held at the start.
\<close>

theorem lmdb_interleavings_safe:
  assumes "storage_reach P st0 st" "storage_inv P st0"
  shows "(\<forall>a v. view st a = Some v \<longrightarrow> compute_address P v = a) \<and>
         (0 < max_chunks (config st) \<longrightarrow>
            card (dom (view st)) \<le> max (card (dom (view st0))) (max_chunks (config st)))"
proof -
  have "storage_inv P st \<and> within_capacity (card (dom (view st0))) st"
    using assms
  proof (induction rule: storage_reach.induct)
    case start
    then show ?case by (simp add: within_capacity_def)
  next
    case (commit st v a)
    then show ?case by (intro storage_inv_commit) auto
  next
    case (remove st a)
    then show ?case by (intro storage_inv_delete) auto
  next
    case (duplicate st)
    then show ?case by (auto intro: storage_inv_sub simp: within_capacity_def)
  next
    case (read st a)
    then show ?case by (auto intro: storage_inv_get simp: within_capacity_def)
  qed
  then show ?thesis by (simp add: storage_inv_def within_capacity_def)
qed

section \<open>A store on association lists\<close>

definition sample_kv :: "((xorname \<times> bytes) list) kv_ops" where
  "sample_kv =
     \<lparr>kv_create_dir = \<lambda>p. Inr (), kv_open = \<lambda>p n. Inr [], kv_create_database = Inr,
      kv_read_txn = \<lambda>d. Inr (), kv_write_txn = \<lambda>d. Inr (), kv_get = \<lambda>d k. Inr (map_of d k),
      kv_entries = \<lambda>d. Inr (card (dom (map_of d))), kv_put = \<lambda>d k v. Inr (AList.update k v d),
      kv_delete = \<lambda>d k. Inr (map_of d k \<noteq> None, AList.delete k d), kv_commit = Inr, kv_view = map_of\<rparr>"

lemma sample_kv_laws [simp]: "kv_laws sample_kv"
  by (auto simp: kv_laws_def sample_kv_def update_conv' delete_conv' finite_dom_map_of)

lemma sample_kv_healthy [simp]: "kv_healthy sample_kv"
  by (simp add: kv_healthy_def sample_kv_def)

definition sample_postcard :: postcard where
  "sample_postcard =
     \<lparr>to_stdvec = \<lambda>m. Inl ''not serializable'', from_postcard = \<lambda>b. Inl ''not deserializable'',
      blake3 = \<lambda>b. replicate 32 (if b = [] then 0 else hd b)\<rparr>"

definition sample_store :: "((xorname \<times> bytes) list) LmdbStorage" where
  "sample_store =
     \<lparr>env = sample_kv, db = [], config = LmdbStorageConfig_default\<lparr>max_chunks := 1\<rparr>,
      stats = StorageStats_default\<rparr>"

lemma sample_store_inv [simp]: "storage_inv sample_postcard sample_store" "kv_healthy (env sample_store)"
  by (simp_all add: storage_inv_def sample_store_def view_def) (simp add: sample_kv_def)

lemma lmdb_refines_map_spec_witness:
  "map_prod id view (run (store_step sample_postcard)
     [OpPut (replicate 32 7) [7, 1], OpPut (replicate 32 8) [8], OpGet (replicate 32 7)] sample_store) =
   ([PutResult (Inr True), PutResult (Inl (Storage (CapacityReached 1 1))), GetResult (Inr (Some [7, 1]))],
    [replicate 32 7 \<mapsto> [7, 1]])"
proof -
  have "view sample_store = Map.empty" "max_chunks (config sample_store) = 1"
    by (auto simp: view_def sample_store_def sample_kv_def)
  moreover have "compute_address sample_postcard (x # xs) = replicate 32 x" for x xs
    by (simp add: compute_address_def sample_postcard_def)
  ultimately show ?thesis
    using lmdb_refines_map_spec [OF sample_store_inv,
        of "[OpPut (replicate 32 7) [7, 1], OpPut (replicate 32 8) [8], OpGet (replicate 32 7)]"]
    by simp
qed

lemma lmdb_interleavings_safe_witness:
  "\<exists>st. storage_reach sample_postcard sample_store st \<and> view st (replicate 32 7) = Some [7, 1] \<and>
     card (dom (view st)) \<le> 1"
proof -
  let ?st = "snd (put_commit (snd (put_commit sample_store (replicate 32 7) [7, 1])) (replicate 32 8) [8])"
  have reach: "storage_reach sample_postcard sample_store ?st"
    by (intro storage_reach.intros) (simp_all add: compute_address_def sample_postcard_def)
  have v: "view ?st (replicate 32 7) = Some [7, 1]" and c: "max_chunks (config ?st) = 1"
    by (simp_all add: put_commit_def put_txn_def sample_store_def sample_kv_def backend_def view_def)
  have "card (dom (view sample_store)) = 0"
    by (simp add: view_def sample_store_def sample_kv_def)
  then have "card (dom (view ?st)) \<le> 1"
    using lmdb_interleavings_safe [OF reach sample_store_inv(1)] c by simp
  then show ?thesis using reach v by blast
qed

end
