(* ===== verification/Payment_Verifier_Correct.thy ===== *)
theory Payment_Verifier_Correct
  imports Payment_Verifier
begin

text \<open>
  What a payment verification establishes. \<open>single_node_paid\<close> and \<open>merkle_paid\<close> say when a proof
  pays for an address; the verifier accepts exactly those proofs, and over any sequence of calls,
  with its two caches, it lets an address through only if some call paid for it.
\<close>

section \<open>Single-node payments\<close>

text \<open>Less than a day and a second old, and less than 61 seconds ahead (times in nanoseconds).\<close>

definition fresh :: "system_time \<Rightarrow> system_time \<Rightarrow> bool" where
  "fresh now ts \<longleftrightarrow> now - ts < 86401 * 10 ^ 9 \<and> ts - now < 61 * 10 ^ 9"

definition single_node_paid ::
  "('br, 'g) pay_env \<Rightarrow> 'g chain \<Rightarrow> PaymentVerifierConfig \<Rightarrow> xorname \<Rightarrow> ProofOfPayment \<Rightarrow> bool" where
  "single_node_paid E ch cfg x p \<longleftrightarrow>
     length (peer_quotes p) = 5 \<and> distinct (map fst (peer_quotes p)) \<and>
     (\<forall>(i, q) \<in> set (peer_quotes p).
        q_content q = x \<and> fresh (wall_clock ch) (q_timestamp q) \<and>
        peer_id_from_public_key_bytes E (q_pub_key q) = Inr i \<and> verify_quote_signature (quote_ops E) q) \<and>
     (\<exists>(i, q) \<in> set (peer_quotes p). q_rewards_address q = local_rewards_address cfg) \<and>
     payment_digest E p \<noteq> [] \<and>
     (\<exists>results. vault_verify ch (network (evm cfg)) (payment_digest E p) = Inr results \<and>
        (\<exists>(amount, valid) \<in> set results. 0 < amount) \<and>
        (\<forall>(amount, valid) \<in> set results. 0 < amount \<longrightarrow> valid))"

lemma check_distinct_ok: "check_distinct seen qs = Inr () \<longleftrightarrow> distinct (map fst qs) \<and> set seen \<inter> fst ` set qs = {}"
  by (induction seen qs rule: check_distinct.induct) auto

lemma check_timestamp_ok: "check_timestamp now (i, q) = Inr () \<longleftrightarrow> fresh now (q_timestamp q)"
proof (cases "q_timestamp q \<le> now")
  case True
  then have "check_timestamp now (i, q) = Inr () \<longleftrightarrow> nat (now - q_timestamp q) div 1000000000 \<le> 86400"
    by (auto simp: check_timestamp_def duration_since_def as_secs_def QUOTE_MAX_AGE_SECS_def)
  also have "\<dots> \<longleftrightarrow> nat (now - q_timestamp q) < 86401 * 1000000000"
    by (simp add: div_le_mono less_Suc_eq_le flip: less_Suc_eq_le) (simp add: div_less_iff_less_mult)
  finally show ?thesis using True by (auto simp: fresh_def)
next
  case False
  then have "check_timestamp now (i, q) = Inr () \<longleftrightarrow> nat (q_timestamp q - now) div 1000000000 \<le> 60"
    by (auto simp: check_timestamp_def duration_since_def as_secs_def QUOTE_CLOCK_SKEW_TOLERANCE_SECS_def)
  also have "\<dots> \<longleftrightarrow> nat (q_timestamp q - now) < 61 * 1000000000"
    by (simp add: div_le_mono less_Suc_eq_le flip: less_Suc_eq_le) (simp add: div_less_iff_less_mult)
  finally show ?thesis using False by (auto simp: fresh_def)
qed

lemma validate_ok:
  "validate_quote_structure p = Inr () \<longleftrightarrow> length (peer_quotes p) = 5 \<and> distinct (map fst (peer_quotes p))"
  "validate_quote_content p x = Inr () \<longleftrightarrow> (\<forall>(i, q) \<in> set (peer_quotes p). q_content q = x)"
  "validate_quote_timestamps now p = Inr () \<longleftrightarrow> (\<forall>(i, q) \<in> set (peer_quotes p). fresh now (q_timestamp q))"
  "validate_peer_bindings E p = Inr () \<longleftrightarrow>
     (\<forall>(i, q) \<in> set (peer_quotes p). peer_id_from_public_key_bytes E (q_pub_key q) = Inr i)"
  "validate_local_recipient cfg p = Inr () \<longleftrightarrow>
     (\<exists>(i, q) \<in> set (peer_quotes p). q_rewards_address q = local_rewards_address cfg)"
  by (auto simp: validate_quote_structure_def check_distinct_ok CLOSE_GROUP_SIZE_def)
    (auto simp: validate_quote_content_def validate_quote_timestamps_def validate_peer_bindings_def
      validate_local_recipient_def verify_quote_content_def check_timestamp_ok result_simps split: if_splits prod.splits)

lemma signatures_ok:
  "for_each (\<lambda>(i, q). if \<not> verify_quote_signature Q q then Inl (Payment (QuoteSignatureInvalid i)) else Inr ()) qs = Inr u
   \<longleftrightarrow> (\<forall>(i, q) \<in> set qs. verify_quote_signature Q q)"
  by (auto simp: result_simps split: if_splits prod.splits)

lemma paid_results_ok:
  "for_each (\<lambda>(amount :: nat, valid). if \<not> valid then Inl e else Inr ()) (filter (\<lambda>(amount, valid). 0 < amount) rs) = Inr u
   \<longleftrightarrow> (\<forall>(amount, valid) \<in> set rs. 0 < amount \<longrightarrow> valid)"
  by (induction rs) (auto split: if_splits)

lemma paid_results_empty:
  "filter (\<lambda>(amount :: nat, valid). 0 < amount) rs = [] \<longleftrightarrow> \<not> (\<exists>(amount, valid) \<in> set rs. 0 < amount)"
  by (auto simp: filter_empty_conv)

lemma verify_evm_payment_sound:
  "verify_evm_payment E ch cfg x p = Inr () \<longleftrightarrow> single_node_paid E ch cfg x p"
proof -
  have "verify_evm_payment E ch cfg x p = Inr () \<longleftrightarrow>
      validate_quote_structure p = Inr () \<and> validate_quote_content p x = Inr () \<and>
      validate_quote_timestamps (wall_clock ch) p = Inr () \<and> validate_peer_bindings E p = Inr () \<and>
      validate_local_recipient cfg p = Inr () \<and>
      (\<forall>(i, q) \<in> set (peer_quotes p). verify_quote_signature (quote_ops E) q) \<and>
      payment_digest E p \<noteq> [] \<and>
      (\<exists>results. vault_verify ch (network (evm cfg)) (payment_digest E p) = Inr results \<and>
         (\<exists>(amount, valid) \<in> set results. 0 < amount) \<and>
         (\<forall>(amount, valid) \<in> set results. 0 < amount \<longrightarrow> valid))"
    by (simp add: verify_evm_payment_def try_bind_Inr map_err_Inr signatures_ok paid_results_ok paid_results_empty Let_def)
      blast
  also have "\<dots> \<longleftrightarrow> single_node_paid E ch cfg x p"
    unfolding validate_ok single_node_paid_def split_def ball_conj_distrib
    by (intro iffI conjI; elim conjE; assumption)
  finally show ?thesis .
qed

text \<open>
  C33: A single-node payment is accepted exactly when it has five quotes of distinct peers, each for
  this address, fresh, signed by the peer it names, one of them for this node's rewards address,
  and the payment contract reports at least one paid quote and no invalid paid quote.
\<close>

theorem verify_evm_payment_iff:
  "verify_evm_payment E ch cfg x p = Inr () \<longleftrightarrow> single_node_paid E ch cfg x p"
  by (rule verify_evm_payment_sound)

section \<open>Merkle payments\<close>

definition merkle_paid ::
  "('br, 'g) pay_env \<Rightarrow> xorname \<Rightarrow> 'br MerklePaymentProof \<Rightarrow> OnChainPaymentInfo \<Rightarrow> bool" where
  "merkle_paid E x m info \<longleftrightarrow>
     mp_address m = x \<and>
     (\<forall>c \<in> set (candidate_nodes (winner_pool m)).
        verify_merkle_candidate_signature (quote_ops E) c \<and>
        cn_merkle_payment_timestamp c = oc_merkle_payment_timestamp info) \<and>
     verify_merkle_proof E (mp_address m) (data_proof m) (midpoint_proof (winner_pool m)) (depth info)
       (midpoint_root E (midpoint_proof (winner_pool m))) (oc_merkle_payment_timestamp info) = Inr () \<and>
     length (paid_node_addresses info) = unat (depth info) \<and>
     (\<forall>(a, i) \<in> set (paid_node_addresses info).
        i < length (candidate_nodes (winner_pool m)) \<and>
        cn_reward_address (candidate_nodes (winner_pool m) ! i) = a)"

lemma check_candidate_ok:
  "check_candidate Q info c = Inr u \<longleftrightarrow>
     verify_merkle_candidate_signature Q c \<and> cn_merkle_payment_timestamp c = oc_merkle_payment_timestamp info"
  by (simp add: check_candidate_def)

lemma check_paid_node_ok:
  "check_paid_node nodes (a, i) = Inr u \<longleftrightarrow> i < length nodes \<and> cn_reward_address (nodes ! i) = a"
  by (auto simp: check_paid_node_def)

lemma validate_merkle_proof_iff:
  "mp_address m = x \<and> validate_merkle_proof E x m info = Inr () \<longleftrightarrow> merkle_paid E x m info"
proof -
  have "for_each (check_paid_node ns) ps = Inr () \<longleftrightarrow>
      (\<forall>(a, i) \<in> set ps. i < length ns \<and> cn_reward_address (ns ! i) = a)" for ns ps
    by (auto simp: for_each_ok check_paid_node_ok)
  then show ?thesis
    by (auto simp: validate_merkle_proof_def merkle_paid_def try_bind_Inr map_err_Inr for_each_ok check_candidate_ok)
qed

section \<open>Sequences of calls\<close>

text \<open>
  A call is given the chain it sees, an address and the proof. The calls made so far are listed with
  the newest first. An address is paid for if one of the calls carried a proof for it that is valid
  for the chain that call saw; the on-chain record of a merkle pool may come from an earlier call.
\<close>

type_synonym 'g call = "'g chain \<times> xorname \<times> bytes option"

definition pool_record :: "PaymentVerifierConfig \<Rightarrow> 'g call list \<Rightarrow> bytes \<Rightarrow> OnChainPaymentInfo \<Rightarrow> bool" where
  "pool_record cfg calls h info \<longleftrightarrow>
     (\<exists>(ch, y, pr) \<in> set calls. \<exists>raw. merkle_payment_info ch (network (evm cfg)) h = Inr raw \<and> info = on_chain_info raw)"

definition paid_for ::
  "('br, 'g) pay_env \<Rightarrow> PaymentVerifierConfig \<Rightarrow> 'g call list \<Rightarrow> xorname \<Rightarrow> bool" where
  "paid_for E cfg calls x \<longleftrightarrow>
     (\<exists>ch proof. (ch, x, Some proof) \<in> set calls \<and>
        MIN_PAYMENT_PROOF_SIZE_BYTES \<le> length proof \<and> length proof \<le> MAX_PAYMENT_PROOF_SIZE_BYTES \<and>
        ((\<exists>p txs. deserialize_proof (rmp_serde E) proof = Inr (p, txs) \<and> single_node_paid E ch cfg x p) \<or>
         (\<exists>m info. deserialize_merkle_proof (rmp_serde E) proof = Inr m \<and> merkle_paid E x m info \<and>
            pool_record cfg calls (winner_pool_hash E m) info)))"

definition verifier_inv ::
  "('br, 'g) pay_env \<Rightarrow> 'g call list \<Rightarrow> ('c, 'p) PaymentVerifier \<Rightarrow> bool" where
  "verifier_inv E calls v \<longleftrightarrow>
     lru_laws (lru (pv_cache v)) \<and> lru_laws (pool_lru v) \<and>
     (\<forall>x \<in> cached (pv_cache v). paid_for E (pv_config v) calls x) \<and>
     (\<forall>h info. lru_view (pool_lru v) (pool_cache v) h = Some info \<longrightarrow> pool_record (pv_config v) calls h info)"

lemma pool_record_mono: "pool_record cfg calls h info \<Longrightarrow> set calls \<subseteq> set calls' \<Longrightarrow> pool_record cfg calls' h info"
  unfolding pool_record_def by blast

lemma paid_for_mono: "paid_for E cfg calls x \<Longrightarrow> set calls \<subseteq> set calls' \<Longrightarrow> paid_for E cfg calls' x"
  unfolding paid_for_def using pool_record_mono by blast

lemma verifier_inv_mono: "verifier_inv E calls v \<Longrightarrow> set calls \<subseteq> set calls' \<Longrightarrow> verifier_inv E calls' v"
  unfolding verifier_inv_def using paid_for_mono pool_record_mono by blast

lemma verifier_inv_new:
  "lru_laws L \<Longrightarrow> lru_laws L' \<Longrightarrow> verifier_inv E calls (PaymentVerifier_new L L' cfg)"
  by (simp add: verifier_inv_def PaymentVerifier_new_def lru_lawsD(1) DEFAULT_POOL_CACHE_CAPACITY_def)
    (simp add: with_capacity_def)

lemma check_payment_required_inv:
  assumes "verifier_inv E calls v" "check_payment_required v x = (s, v')"
  shows "verifier_inv E calls v'" "pv_config v' = pv_config v"
    and "s = CachedAsVerified \<and> paid_for E (pv_config v) calls x \<or> s = PaymentRequired"
proof -
  have laws: "lru_laws (lru (pv_cache v))" using assms(1) by (simp add: verifier_inv_def)
  obtain found c where c: "cache_contains (pv_cache v) x = (found, c)" by fastforce
  have c': "found = (x \<in> cached (pv_cache v))" "cached c = cached (pv_cache v)" "lru c = lru (pv_cache v)"
    using cache_contains_result [OF laws, of x] by (simp_all add: c)
  have v': "v' = v\<lparr>pv_cache := c\<rparr>" "s = (if found then CachedAsVerified else PaymentRequired)"
    using assms(2) by (auto simp: check_payment_required_def c Let_def split: if_splits)
  show "verifier_inv E calls v'" "pv_config v' = pv_config v"
    using assms(1) c' by (simp_all add: verifier_inv_def v')
  show "s = CachedAsVerified \<and> paid_for E (pv_config v) calls x \<or> s = PaymentRequired"
    using assms(1) c' v'(2) by (auto simp: verifier_inv_def)
qed

lemma pool_payment_info_inv:
  assumes "verifier_inv E calls v" "(ch, y, pr) \<in> set calls" "pool_payment_info ch h v = (r, v')"
  shows "verifier_inv E calls v'" "pv_config v' = pv_config v"
    and "r = Inr info \<Longrightarrow> pool_record (pv_config v) calls h info"
proof -
  have laws: "lru_laws (pool_lru v)" using assms(1) by (simp add: verifier_inv_def)
  obtain ci pc where g: "lru_get (pool_lru v) (pool_cache v) h = (ci, pc)" by fastforce
  have pc: "ci = lru_view (pool_lru v) (pool_cache v) h" "lru_view (pool_lru v) pc = lru_view (pool_lru v) (pool_cache v)"
    using lru_lawsD(3,4) [OF laws, of "pool_cache v" h] by (simp_all add: g)
  have rec: "merkle_payment_info ch (network (evm (pv_config v))) h = Inr raw \<Longrightarrow>
      pool_record (pv_config v) calls h (on_chain_info raw)" for raw
    unfolding pool_record_def using assms(2) by blast
  have old: "lru_view (pool_lru v) (pool_cache v) k = Some i \<Longrightarrow> pool_record (pv_config v) calls k i" for k i
    using assms(1) unfolding verifier_inv_def by blast
  have put: "lru_view (pool_lru v) (lru_put (pool_lru v) pc h (on_chain_info raw)) k = Some i \<Longrightarrow>
      merkle_payment_info ch (network (evm (pv_config v))) h = Inr raw \<Longrightarrow> pool_record (pv_config v) calls k i" for k i raw
    using lru_put_lookup [OF laws, of pc h "on_chain_info raw" k i] rec old pc(2) by auto
  show "pv_config v' = pv_config v"
    using assms(3) by (auto simp: pool_payment_info_def g Let_def split: option.splits sum.splits)
  show "r = Inr info \<Longrightarrow> pool_record (pv_config v) calls h info"
    using assms(3) pc(1) old rec by (auto simp: pool_payment_info_def g Let_def split: option.splits sum.splits)
  show "verifier_inv E calls v'"
    using assms(1,3) pc put
    by (auto simp: pool_payment_info_def g Let_def verifier_inv_def split: option.splits sum.splits)
qed

lemma verify_proof_inv:
  assumes "verifier_inv E calls v" "(ch, x, Some proof) \<in> set calls" "verify_proof E ch v x proof = (r, v')"
  shows "verifier_inv E calls v'" "pv_config v' = pv_config v"
    and "r = Inr () \<Longrightarrow> paid_for E (pv_config v) calls x"
proof -
  have size: "MIN_PAYMENT_PROOF_SIZE_BYTES \<le> length proof \<and> length proof \<le> MAX_PAYMENT_PROOF_SIZE_BYTES"
    if "r = Inr ()" using assms(3) that by (auto simp: verify_proof_def split: if_splits)
  consider (merkle) m info v1 where "deserialize_merkle_proof (rmp_serde E) proof = Inr m" "mp_address m = x"
      "pool_payment_info ch (winner_pool_hash E m) v = (Inr info, v1)" "v' = v1" "r = validate_merkle_proof E x m info"
    | (pool) m e v1 where "pool_payment_info ch (winner_pool_hash E m) v = (Inl e, v1)" "v' = v1" "r = Inl e"
    | (single) p txs where "deserialize_proof (rmp_serde E) proof = Inr (p, txs)" "v' = v"
      "r = verify_evm_payment E ch (pv_config v) x p"
    | (fail) e where "v' = v" "r = Inl e"
    using assms(3)
    by (auto simp: verify_proof_def verify_merkle_payment_def try_bind_def map_err_def
        split: if_splits option.splits ProofType.splits sum.splits prod.splits)
  then have "verifier_inv E calls v' \<and> pv_config v' = pv_config v \<and> (r = Inr () \<longrightarrow> paid_for E (pv_config v) calls x)"
  proof cases
    case merkle
    note p = pool_payment_info_inv [OF assms(1,2) merkle(3)]
    have "merkle_paid E x m info" if "r = Inr ()" using validate_merkle_proof_iff merkle(2,5) that by blast
    then show ?thesis using p merkle(1,4) size assms(2) unfolding paid_for_def by blast
  next
    case pool
    then show ?thesis using pool_payment_info_inv(1,2) [OF assms(1,2) pool(1)] by simp
  next
    case single
    have "single_node_paid E ch (pv_config v) x p" if "r = Inr ()" using verify_evm_payment_sound single(3) that by blast
    then show ?thesis using single(1,2) size assms(1,2) unfolding paid_for_def by blast
  qed (use assms(1) in simp)
  then show "verifier_inv E calls v'" "pv_config v' = pv_config v"
    "r = Inr () \<Longrightarrow> paid_for E (pv_config v) calls x" by blast+
qed

lemma verify_payment_inv:
  assumes "verifier_inv E calls v" "verify_payment E ch v x pr = (r, v')"
  shows "verifier_inv E ((ch, x, pr) # calls) v'" "pv_config v' = pv_config v"
    and "r = Inr s \<Longrightarrow> can_store s \<Longrightarrow> paid_for E (pv_config v) ((ch, x, pr) # calls) x"
    and "r = Inr s \<Longrightarrow> can_store s"
proof -
  let ?calls = "(ch, x, pr) # calls"
  have inv: "verifier_inv E ?calls v" by (rule verifier_inv_mono [OF assms(1)]) auto
  obtain s1 v1 where c: "check_payment_required v x = (s1, v1)" by fastforce
  note c' = check_payment_required_inv [OF inv c]
  have "verifier_inv E ?calls v' \<and> pv_config v' = pv_config v \<and>
      (\<forall>s. r = Inr s \<longrightarrow> can_store s \<and> paid_for E (pv_config v) ?calls x)"
  proof (cases "s1 = CachedAsVerified")
    case True
    then show ?thesis using c' assms(2) by (auto simp: verify_payment_def c can_store_def)
  next
    case False
    then have s1: "s1 = PaymentRequired" using c'(3) by blast
    show ?thesis
    proof (cases pr)
      case None
      then show ?thesis using c' assms(2) s1 by (auto simp: verify_payment_def c)
    next
      case (Some pf)
      obtain r2 v2 where p: "verify_proof E ch v1 x pf = (r2, v2)" by fastforce
      note p' = verify_proof_inv [OF c'(1) _ p]
      have "verifier_inv E ?calls v2" "pv_config v2 = pv_config v" "r2 = Inr () \<Longrightarrow> paid_for E (pv_config v) ?calls x"
        using p' c'(2) by (auto simp: Some)
      moreover from this have "verifier_inv E ?calls (v2\<lparr>pv_cache := cache_insert (pv_cache v2) x\<rparr>)" if "r2 = Inr ()"
        using that cache_insert_cached [of "pv_cache v2" x] by (auto simp: verifier_inv_def)
      ultimately show ?thesis
        using assms(2) by (auto simp: verify_payment_def c s1 Some p can_store_def split: sum.splits)
    qed
  qed
  then show "verifier_inv E ((ch, x, pr) # calls) v'" "pv_config v' = pv_config v"
    "r = Inr s \<Longrightarrow> can_store s \<Longrightarrow> paid_for E (pv_config v) ((ch, x, pr) # calls) x"
    "r = Inr s \<Longrightarrow> can_store s" by blast+
qed

definition after_calls ::
  "('br, 'g) pay_env \<Rightarrow> 'g call list \<Rightarrow> ('c, 'p) PaymentVerifier \<Rightarrow> ('c, 'p) PaymentVerifier" where
  "after_calls E calls v = foldr (\<lambda>(ch, x, pr) v. snd (verify_payment E ch v x pr)) calls v"

lemma after_calls_inv:
  "verifier_inv E [] v \<Longrightarrow>
   verifier_inv E calls (after_calls E calls v) \<and> pv_config (after_calls E calls v) = pv_config v"
proof (induction calls)
  case (Cons c calls)
  obtain ch x pr where c: "c = (ch, x, pr)" by (cases c) auto
  have IH: "verifier_inv E calls (after_calls E calls v)" "pv_config (after_calls E calls v) = pv_config v"
    using Cons by simp_all
  then show ?case
    using verify_payment_inv(1,2) [OF IH(1) prod.collapse [symmetric], of ch x pr]
    by (simp add: after_calls_def c)
qed (simp add: after_calls_def)

text \<open>
  C13: Over any sequence of verification calls on a fresh verifier, with arbitrary answers of the
  chain and arbitrary evictions from its caches, a call that permits storing an address implies that
  this call or an earlier one paid for that address. Every call that does not fail permits storing.
\<close>

theorem store_permission_requires_payment:
  assumes "lru_laws L" "lru_laws L'"
    and "fst (verify_payment E ch (after_calls E calls (PaymentVerifier_new L L' cfg)) x pr) = Inr s"
  shows "can_store s \<and> paid_for E cfg ((ch, x, pr) # calls) x"
proof -
  let ?v = "PaymentVerifier_new L L' cfg"
  have inv: "verifier_inv E calls (after_calls E calls ?v)" "pv_config (after_calls E calls ?v) = cfg"
    using after_calls_inv [OF verifier_inv_new [OF assms(1,2)], of E calls cfg]
    by (simp_all add: PaymentVerifier_new_def)
  from verify_payment_inv(3,4) [OF inv(1) prod.collapse [symmetric] assms(3)] show ?thesis
    by (simp add: inv(2))
qed

section \<open>A sample environment\<close>

definition sample_pay_env :: "(bytes, bytes) pay_env" where
  "sample_pay_env =
     \<lparr>rmp_serde = sample_rmp, quote_ops = sample_quote_env, peer_id_from_public_key_bytes = Inr,
      payment_digest = \<lambda>p. map fst (peer_quotes p), winner_pool_hash = \<lambda>m. [1], midpoint_root = \<lambda>b. b,
      verify_merkle_proof = \<lambda>a d m n r t. Inr ()\<rparr>"

definition sample_chain :: "bytes chain" where
  "sample_chain =
     \<lparr>wall_clock = 5, uptime = 3600,
      vault_verify = \<lambda>net ds. Inr (map (\<lambda>d. if d = [3] then (30, True) else (0, False)) ds),
      merkle_payment_info = \<lambda>net h. Inr \<lparr>raw_depth = 1, raw_timestamp = 7, raw_paid = [([1], 0)]\<rparr>\<rparr>"

definition sample_pay_config :: PaymentVerifierConfig where
  "sample_pay_config = \<lparr>evm = EvmVerifierConfig_default, cache_capacity = 2, local_rewards_address = [2]\<rparr>"

lemma sample_single_node_paid: "length a = 32 \<Longrightarrow>
  single_node_paid sample_pay_env sample_chain sample_pay_config a (proof_of_payment (sample_proof a))"
  by (simp add: single_node_paid_def sample_pay_env_def sample_chain_def sample_pay_config_def sample_proof_def
      sample_quote_def fresh_def verify_quote_signature_def sample_quote_env_def)

lemma sample_verify_payment:
  assumes "length a = 32"
  shows "fst (verify_payment sample_pay_env sample_chain
            (PaymentVerifier_new list_lru list_lru sample_pay_config) a (Some (PROOF_TAG_SINGLE_NODE # a))) =
         Inr PaymentVerified"
proof -
  have "verify_evm_payment sample_pay_env sample_chain sample_pay_config a (proof_of_payment (sample_proof a)) = Inr ()"
    using sample_single_node_paid [OF assms] verify_evm_payment_sound by blast
  moreover have "deserialize_proof (rmp_serde sample_pay_env) (PROOF_TAG_SINGLE_NODE # a) =
      Inr (proof_of_payment (sample_proof a), [])"
    using assms by (simp add: deserialize_proof_def sample_pay_env_def sample_rmp_def sample_proof_def)
  moreover have "detect_proof_type (PROOF_TAG_SINGLE_NODE # a) = Some SingleNode" by (simp add: detect_proof_type_def)
  ultimately show ?thesis
    using assms
    by (simp add: verify_payment_def check_payment_required_def cache_contains_def PaymentVerifier_new_def
        with_capacity_def list_lru_def list_get_def entries_def verify_proof_def MIN_PAYMENT_PROOF_SIZE_BYTES_def
        MAX_PAYMENT_PROOF_SIZE_BYTES_def)
qed

lemma store_permission_requires_payment_witness:
  "paid_for sample_pay_env sample_pay_config
     [(sample_chain, replicate 32 9, Some (PROOF_TAG_SINGLE_NODE # replicate 32 9))] (replicate 32 9)"
  using store_permission_requires_payment [of list_lru list_lru sample_pay_env sample_chain "[]" sample_pay_config
      "replicate 32 9" "Some (PROOF_TAG_SINGLE_NODE # replicate 32 9)" PaymentVerified]
    sample_verify_payment [of "replicate 32 9"]
  by (simp add: after_calls_def)

end
