(* ===== verification/Ant_Handler_Correct.thy ===== *)
theory Ant_Handler_Correct
  imports Ant_Handler Lmdb_Storage_Correct Payment_Verifier_Correct
begin

text \<open>
  Properties of the request handler over sequences of requests: what a node stores was paid for,
  stored chunks stay and are served, every request gets the response of its kind.
\<close>

section \<open>The invariant\<close>

definition node_inv ::
  "('br, 'g) node_env \<Rightarrow> (xorname \<rightharpoonup> bytes) \<Rightarrow> PaymentVerifierConfig \<Rightarrow> 'g call list \<Rightarrow> ('d, 'c, 'p) AntProtocol \<Rightarrow> bool" where
  "node_inv N m0 cfg calls a \<longleftrightarrow>
     storage_inv (postcard_ops N) (storage a) \<and> verifier_inv (pay N) calls (payment_verifier a) \<and>
     pv_config (payment_verifier a) = cfg \<and> m0 \<subseteq>\<^sub>m view (storage a) \<and>
     (\<forall>x v. view (storage a) x = Some v \<longrightarrow>
        m0 x = Some v \<or> length v \<le> MAX_CHUNK_SIZE \<and> paid_for (pay N) cfg calls x)"

lemma node_inv_mono:
  assumes "node_inv N m0 cfg calls a" "set calls \<subseteq> set calls'"
  shows "node_inv N m0 cfg calls' a"
proof -
  have "verifier_inv (pay N) calls' (payment_verifier a)"
    using assms verifier_inv_mono unfolding node_inv_def by blast
  then show ?thesis
    using assms(1) paid_for_mono [OF _ assms(2)] unfolding node_inv_def by blast
qed

lemma node_inv_same_view:
  assumes "node_inv N m0 cfg calls a" "storage_inv (postcard_ops N) (storage a')" "view (storage a') = view (storage a)"
    and "verifier_inv (pay N) calls (payment_verifier a')" "pv_config (payment_verifier a') = pv_config (payment_verifier a)"
  shows "node_inv N m0 cfg calls a'"
  using assms unfolding node_inv_def by simp

lemma store_and_record_result:
  "fst (store_and_record N a x v) =
     (case fst (put (postcard_ops N) (storage a) x v) of
        Inr b \<Rightarrow> PutSuccess x | Inl e \<Rightarrow> PutError (StorageFailed (show_error N e)))"
  "snd (store_and_record N a x v) =
     a\<lparr>storage := snd (put (postcard_ops N) (storage a) x v),
       quote_generator :=
         (case fst (put (postcard_ops N) (storage a) x v) of
            Inr b \<Rightarrow> gen_record_payment (metrics_ops N)
                     (gen_record_store (metrics_ops N) DATA_TYPE_CHUNK (quote_generator a))
          | Inl e \<Rightarrow> quote_generator a)\<rparr>"
  by (cases "put (postcard_ops N) (storage a) x v"; cases "fst (put (postcard_ops N) (storage a) x v)";
      simp add: store_and_record_def)+

lemma store_and_record_inv:
  assumes "node_inv N m0 cfg calls a" "paid_for (pay N) cfg calls x" "length v \<le> MAX_CHUNK_SIZE"
  shows "node_inv N m0 cfg calls (snd (store_and_record N a x v))"
proof -
  let ?P = "postcard_ops N" and ?st = "snd (put (postcard_ops N) (storage a) x v)"
  have inv: "storage_inv ?P (storage a)" using assms(1) by (simp add: node_inv_def)
  note a' = store_and_record_result(2) [of N a x v]
  have mono: "m0 \<subseteq>\<^sub>m view ?st"
    using assms(1) lmdb.put_mono [OF inv] unfolding node_inv_def map_le_def by (metis domD domI)
  have new: "view ?st y = Some w \<Longrightarrow> view (storage a) y = Some w \<or> y = x \<and> w = v" for y w
    using lmdb.put_view [OF inv, of x v] by (auto split: if_splits)
  show ?thesis
    using assms lmdb.put_inv [OF inv, of x v] mono new unfolding a' node_inv_def by (simp, blast)
qed

lemma handle_put_inv:
  assumes "node_inv N m0 cfg calls a"
  shows "node_inv N m0 cfg ((ch, put_address req, payment_proof req) # calls) (snd (handle_put N ch a req))"
proof -
  let ?calls = "(ch, put_address req, payment_proof req) # calls"
  have keep: "node_inv N m0 cfg ?calls a" by (rule node_inv_mono [OF assms]) auto
  have v: "verifier_inv (pay N) calls (payment_verifier a)" and cfg: "pv_config (payment_verifier a) = cfg"
    using assms by (simp_all add: node_inv_def)
  obtain r v' where p: "verify_payment (pay N) ch (payment_verifier a) (put_address req) (payment_proof req) = (r, v')"
    by fastforce
  note p' = verify_payment_inv [OF v p]
  have a': "node_inv N m0 cfg ?calls (a\<lparr>payment_verifier := v'\<rparr>)"
    by (rule node_inv_same_view [OF keep]) (use keep p' in \<open>simp_all add: node_inv_def\<close>)
  have "node_inv N m0 cfg ?calls
      (snd (store_and_record N (a\<lparr>payment_verifier := v'\<rparr>) (put_address req) (put_content req)))"
    if "r = Inr s" "length (put_content req) \<le> MAX_CHUNK_SIZE" for s
    by (rule store_and_record_inv [OF a' _ that(2)]) (use p'(3,4) [OF that(1)] cfg in simp)
  then show ?thesis
    using keep a' by (auto simp: handle_put_def Let_def p split: sum.splits bool.splits)
qed

lemma handle_get_inv:
  assumes "node_inv N m0 cfg calls a"
  shows "node_inv N m0 cfg calls (snd (handle_get N a req))"
proof -
  have "storage_inv (postcard_ops N) (storage a)" using assms by (simp add: node_inv_def)
  moreover have "snd (handle_get N a req) = a\<lparr>storage := snd (get (postcard_ops N) (storage a) (get_address req))\<rparr>"
    by (simp add: handle_get_def Let_def split: prod.splits sum.splits option.splits)
  ultimately show ?thesis
    using assms by (intro node_inv_same_view [OF assms]) (simp_all add: storage_inv_get node_inv_def)
qed

text \<open>The verification calls that the PUT requests of a sequence ask for.\<close>

definition put_calls :: "('br, 'g) node_env \<Rightarrow> 'g chain \<times> bytes \<Rightarrow> 'g call list" where
  "put_calls N = (\<lambda>(ch, data).
     case msg_decode (postcard_ops N) data of
       Inr m \<Rightarrow> (case body m of PutRequest req \<Rightarrow> [(ch, put_address req, payment_proof req)] | _ \<Rightarrow> [])
     | Inl e \<Rightarrow> [])"

lemma try_handle_request_state:
  "snd (try_handle_request N ch a data) =
     (case msg_decode (postcard_ops N) data of Inl e \<Rightarrow> a | Inr m \<Rightarrow> snd (handle_body N ch a (body m)))"
  by (simp add: try_handle_request_def split: sum.splits prod.splits option.splits)

lemma try_handle_request_inv:
  assumes "node_inv N m0 cfg calls a"
  shows "node_inv N m0 cfg (put_calls N (ch, data) @ calls) (snd (try_handle_request N ch a data))"
proof (cases "msg_decode (postcard_ops N) data")
  case (Inl e)
  then show ?thesis using assms by (simp add: try_handle_request_state put_calls_def)
next
  case (Inr m)
  show ?thesis
  proof (cases "body m")
    case (PutRequest req)
    then show ?thesis
      using handle_put_inv [OF assms, of ch req] Inr
      by (simp add: try_handle_request_state put_calls_def handle_body_def split_def Let_def)
  next
    case (GetRequest req)
    then show ?thesis
      using handle_get_inv [OF assms, of req] Inr
      by (simp add: try_handle_request_state put_calls_def handle_body_def split_def Let_def)
  qed (use assms Inr in \<open>simp_all add: try_handle_request_state put_calls_def handle_body_def\<close>)
qed

definition after_requests ::
  "('br, 'g) node_env \<Rightarrow> ('g chain \<times> bytes) list \<Rightarrow> ('d, 'c, 'p) AntProtocol \<Rightarrow> ('d, 'c, 'p) AntProtocol" where
  "after_requests N reqs a = foldr (\<lambda>(ch, data) a. snd (try_handle_request N ch a data)) reqs a"

lemma after_requests_inv:
  assumes "storage_inv (postcard_ops N) st" "lru_laws L" "lru_laws L'"
  shows "node_inv N (view st) cfg (concat (map (put_calls N) reqs))
           (after_requests N reqs (AntProtocol_new st (PaymentVerifier_new L L' cfg) g))"
proof (induction reqs)
  case Nil
  show ?case
    using assms verifier_inv_new [OF assms(2,3)]
    by (simp add: node_inv_def after_requests_def AntProtocol_new_def) (simp add: PaymentVerifier_new_def)
next
  case (Cons r reqs)
  then show ?case using try_handle_request_inv [OF Cons] by (cases r) (simp add: after_requests_def)
qed

text \<open>
  C3: After any sequence of requests (with arbitrary bytes and arbitrary answers of the chain), a
  chunk in the store was there at the start or has at most \<open>MAX_CHUNK_SIZE\<close> bytes, hashes to its
  address, and one of the PUT requests paid for that address. No stored chunk is lost or changed.
\<close>

theorem node_stores_only_paid_chunks:
  assumes "storage_inv (postcard_ops N) st" "lru_laws L" "lru_laws L'"
    and "a = after_requests N reqs (AntProtocol_new st (PaymentVerifier_new L L' cfg) g)"
  shows "(\<forall>x v. view (storage a) x = Some v \<longrightarrow>
            view st x = Some v \<or>
            compute_address (postcard_ops N) v = x \<and> length v \<le> MAX_CHUNK_SIZE \<and>
            paid_for (pay N) cfg (concat (map (put_calls N) reqs)) x) \<and>
         (\<forall>x v. view st x = Some v \<longrightarrow> view (storage a) x = Some v)"
proof -
  have inv: "node_inv N (view st) cfg (concat (map (put_calls N) reqs)) a"
    unfolding assms(4) by (rule after_requests_inv [OF assms(1-3)])
  then have "storage_inv (postcard_ops N) (storage a)" by (simp add: node_inv_def)
  then show ?thesis
    using inv lmdb.inv_hash unfolding node_inv_def map_le_def by (metis domI)
qed

section \<open>Stored chunks are served\<close>

lemma node_inv_rebase: "node_inv N m0 cfg calls a \<Longrightarrow> node_inv N (view (storage a)) cfg calls a"
  by (simp add: node_inv_def)

lemma after_requests_from:
  "node_inv N m0 cfg calls a \<Longrightarrow> node_inv N m0 cfg (concat (map (put_calls N) reqs) @ calls) (after_requests N reqs a)"
proof (induction reqs)
  case (Cons r reqs)
  then show ?case using try_handle_request_inv by (cases r) (simp add: after_requests_def)
qed (simp add: after_requests_def)

lemma handle_put_env:
  assumes "kv_laws (env (storage a))"
  shows "env (storage (snd (handle_put N ch a req))) = env (storage a)"
  using assms by (auto simp: handle_put_def Let_def store_and_record_result split: sum.splits bool.splits prod.splits)

lemma handle_get_env: "env (storage (snd (handle_get N a req))) = env (storage a)"
proof -
  have "snd (handle_get N a req) = a\<lparr>storage := snd (get (postcard_ops N) (storage a) (get_address req))\<rparr>"
    by (simp add: handle_get_def Let_def split: prod.splits sum.splits option.splits)
  then show ?thesis by simp
qed

lemma after_requests_env:
  assumes "kv_laws (env (storage a))"
  shows "env (storage (after_requests N reqs a)) = env (storage a)"
proof (induction reqs)
  case (Cons r reqs)
  obtain ch data where r: "r = (ch, data)" by fastforce
  have "kv_laws (env (storage (after_requests N reqs a)))" using Cons assms by simp
  then have "env (storage (snd (try_handle_request N ch (after_requests N reqs a) data))) =
      env (storage (after_requests N reqs a))"
    by (auto simp: try_handle_request_state handle_body_def handle_put_env handle_get_env split_def Let_def
        split: sum.splits ChunkMessageBody.splits)
  then show ?case using Cons by (simp add: after_requests_def r)
qed (simp add: after_requests_def)

lemma handle_put_success:
  assumes "fst (handle_put N ch a req) = PutSuccess x"
  shows "x = put_address req \<and> exists_chunk (storage a) x = Inr False \<and>
         (\<exists>b. fst (put (postcard_ops N) (storage a) x (put_content req)) = Inr b) \<and>
         storage (snd (handle_put N ch a req)) = snd (put (postcard_ops N) (storage a) x (put_content req))"
  using assms
  by (auto simp: handle_put_def Let_def store_and_record_result split: sum.splits bool.splits prod.splits if_splits)

lemma handle_put_exists:
  assumes "fst (handle_put N ch a req) = PutAlreadyExists x"
  shows "x = put_address req \<and> exists_chunk (storage a) x = Inr True \<and> snd (handle_put N ch a req) = a"
  using assms
  by (auto simp: handle_put_def Let_def store_and_record_result split: sum.splits bool.splits prod.splits if_splits)

lemma handle_put_stores:
  assumes "storage_inv (postcard_ops N) (storage a)" "handle_put N ch a req = (resp, a')"
  shows "resp = PutSuccess x \<Longrightarrow> x = put_address req \<and> view (storage a') x = Some (put_content req)"
    and "resp = PutAlreadyExists x \<Longrightarrow> x = put_address req \<and> a' = a \<and> view (storage a) x \<noteq> None"
proof -
  have laws: "kv_laws (env (storage a))" using assms(1) by (simp add: storage_inv_def)
  have stored: "view (snd (put (postcard_ops N) (storage a) y w)) y = Some w"
    if "exists_chunk (storage a) y = Inr False" "fst (put (postcard_ops N) (storage a) y w) = Inr b" for y w b
    using lmdb.put_new [OF assms(1) that(2)] lmdb.put_view [OF assms(1), of y w] exists_chunk_view [OF laws that(1)] that(2)
    by simp
  show "resp = PutSuccess x \<Longrightarrow> x = put_address req \<and> view (storage a') x = Some (put_content req)"
    using handle_put_success [of N ch a req x] stored assms(2) by auto
  show "resp = PutAlreadyExists x \<Longrightarrow> x = put_address req \<and> a' = a \<and> view (storage a) x \<noteq> None"
    using handle_put_exists [of N ch a req x] exists_chunk_view [OF laws, of x True] assms(2) by auto
qed

lemma handle_get_healthy:
  assumes "storage_inv (postcard_ops N) (storage a)" "kv_healthy (env (storage a))"
  shows "fst (handle_get N a req) =
         (case view (storage a) (get_address req) of
            Some v \<Rightarrow> GetSuccess (get_address req) v | None \<Rightarrow> GetNotFound (get_address req))"
proof -
  have "fst (get (postcard_ops N) (storage a) (get_address req)) = Inr (view (storage a) (get_address req))"
    using store_step_refines [OF assms, of "OpGet (get_address req)"] by (simp add: split_def Let_def)
  then show ?thesis by (auto simp: handle_get_def Let_def split: prod.splits option.splits)
qed

text \<open>
  C34: A chunk whose PUT was answered with success, or as already existing, is served by every later
  GET, whatever requests come in between: the answer carries content that hashes to the address,
  and after a success the very content that was put (provided the database calls do not fail).
\<close>

theorem put_chunk_is_served:
  assumes "storage_inv (postcard_ops N) st" "kv_healthy (env st)" "lru_laws L" "lru_laws L'"
    and "a = after_requests N before (AntProtocol_new st (PaymentVerifier_new L L' cfg) g)"
    and "handle_put N ch a req = (resp, a')" "resp = PutSuccess x \<or> resp = PutAlreadyExists x"
  shows "\<exists>w. fst (handle_get N (after_requests N later a') (ChunkGetRequest_new x)) = GetSuccess x w \<and>
             compute_address (postcard_ops N) w = x \<and> (resp = PutSuccess x \<longrightarrow> w = put_content req)"
proof -
  let ?b = "after_requests N later a'"
  have inv: "node_inv N (view st) cfg (concat (map (put_calls N) before)) a"
    unfolding assms(5) by (rule after_requests_inv [OF assms(1,3,4)])
  then have sta: "storage_inv (postcard_ops N) (storage a)" by (simp add: node_inv_def)
  have inv': "node_inv N (view (storage a')) cfg ((ch, put_address req, payment_proof req) # concat (map (put_calls N) before)) a'"
    using node_inv_rebase [OF handle_put_inv [OF inv, of ch req]] assms(6) by simp
  obtain w where w: "view (storage a') x = Some w" "resp = PutSuccess x \<longrightarrow> w = put_content req"
    using handle_put_stores [OF sta assms(6)] assms(7) by fastforce
  have invb: "node_inv N (view (storage a')) cfg
      (concat (map (put_calls N) later) @ (ch, put_address req, payment_proof req) # concat (map (put_calls N) before)) ?b"
    by (rule after_requests_from [OF inv'])
  then have b: "storage_inv (postcard_ops N) (storage ?b)" "view (storage ?b) x = Some w"
    using w(1) unfolding node_inv_def map_le_def by (auto, metis domI)
  have lawsa: "kv_laws (env (storage a))" using sta by (simp add: storage_inv_def)
  have "env (storage a) = env st"
    unfolding assms(5) using assms(1) by (subst after_requests_env) (simp_all add: AntProtocol_new_def storage_inv_def)
  moreover have "env (storage a') = env (storage a)" using handle_put_env [OF lawsa, of N ch req] assms(6) by simp
  ultimately have "env (storage ?b) = env st" using after_requests_env [of a' N later] lawsa by simp
  then have "kv_healthy (env (storage ?b))" using assms(2) by simp
  from handle_get_healthy [OF b(1) this, of "ChunkGetRequest_new x"] show ?thesis
    using b(2) w(2) lmdb.inv_hash [OF b] by (simp add: ChunkGetRequest_new_def)
qed

section \<open>Responses\<close>

fun answers :: "ChunkMessageBody \<Rightarrow> ChunkMessageBody \<Rightarrow> bool" where
  "answers (PutRequest q) (PutResponse r) = True"
| "answers (GetRequest q) (GetResponse r) = True"
| "answers (QuoteRequest q) (QuoteResponse r) = True"
| "answers (MerkleQuoteRequest q) (MerkleQuoteResponse r) = True"
| "answers q r = False"

lemma handle_body_answers: "fst (handle_body N ch a q) = Some r \<Longrightarrow> answers q r"
  by (auto simp: handle_body_def split_def Let_def split: ChunkMessageBody.splits)

lemma handle_body_response: "answers q r \<Longrightarrow> handle_body N ch a r = (None, a)"
  by (cases "(q, r)" rule: answers.cases) (simp_all add: handle_body_def)

lemma try_handle_request_some:
  assumes "fst (try_handle_request N ch a data) = Inr (Some b)"
  obtains m r where "msg_decode (postcard_ops N) data = Inr m" "answers (body m) r"
    "msg_encode (postcard_ops N) \<lparr>request_id = request_id m, body = r\<rparr> = Inr b"
proof -
  obtain m where m: "msg_decode (postcard_ops N) data = Inr m"
    using assms by (auto simp: try_handle_request_def split: sum.splits)
  obtain o' a' where h: "handle_body N ch a (body m) = (o', a')" by fastforce
  with assms m obtain r where r: "o' = Some r" "msg_encode (postcard_ops N) \<lparr>request_id = request_id m, body = r\<rparr> = Inr b"
    by (auto simp: try_handle_request_def split: sum.splits option.splits)
  then show ?thesis using that [OF m] handle_body_answers [of N ch a "body m" r] h by simp
qed

text \<open>
  C35: A reply carries the identifier of the request and the response of its kind, and a handler
  that is sent this reply answers nothing and keeps its state, so that two nodes never answer each
  other's answers.
\<close>

theorem reply_matches_request:
  assumes "postcard_laws (postcard_ops N)" "fst (try_handle_request N ch a data) = Inr (Some b)"
    and "length b \<le> MAX_WIRE_MESSAGE_SIZE"
  shows "(\<exists>m r. msg_decode (postcard_ops N) data = Inr m \<and> msg_decode (postcard_ops N) b = Inr r \<and>
            request_id r = request_id m \<and> answers (body m) (body r)) \<and>
         (\<forall>ch' (a' :: ('d, 'c, 'p) AntProtocol). try_handle_request N ch' a' b = (Inr None, a'))"
proof -
  obtain m r where m: "msg_decode (postcard_ops N) data = Inr m" "answers (body m) r"
    "msg_encode (postcard_ops N) \<lparr>request_id = request_id m, body = r\<rparr> = Inr b"
    using try_handle_request_some [OF assms(2)] by metis
  have d: "msg_decode (postcard_ops N) b = Inr \<lparr>request_id = request_id m, body = r\<rparr>"
    by (rule msg_decode_encode [OF assms(1) m(3) assms(3)])
  then have "try_handle_request N ch' a' b = (Inr None, a')" for ch' and a' :: "('d, 'c, 'p) AntProtocol"
    using handle_body_response [OF m(2), of N ch' a'] by (simp add: try_handle_request_def)
  then show ?thesis using m d by force
qed

lemma verify_payment_status:
  assumes "fst (verify_payment E ch v x pr) = Inr s"
  shows "can_store s"
proof -
  have "fst (check_payment_required v x) \<in> {CachedAsVerified, PaymentRequired}"
    by (simp add: check_payment_required_def split_def Let_def)
  then show ?thesis
    using assms
    by (auto simp: verify_payment_def can_store_def split: prod.splits PaymentStatus.splits option.splits sum.splits)
qed

text \<open>
  A PUT is never answered with \<open>PaymentRequired\<close>: a request without a proof for an address that
  is not cached is answered with the error \<open>PaymentFailed\<close>. Every answer but success leaves the
  contents of the store as they are.
\<close>

theorem put_failure_behaviour:
  assumes "storage_inv (postcard_ops N) (storage a)" "handle_put N ch a req = (resp, a')"
  shows "(\<forall>msg. resp \<noteq> PutPaymentRequired msg) \<and>
         ((\<forall>x. resp \<noteq> PutSuccess x) \<longrightarrow> view (storage a') = view (storage a)) \<and>
         (exists_chunk (storage a) (put_address req) = Inr False \<and> length (put_content req) \<le> MAX_CHUNK_SIZE \<and>
          compute_address (postcard_ops N) (put_content req) = put_address req \<and> payment_proof req = None \<and>
          lru_laws (lru (pv_cache (payment_verifier a))) \<and> put_address req \<notin> cached (pv_cache (payment_verifier a)) \<longrightarrow>
          resp = PutError (PaymentFailed (show_error N (Payment (PaymentRequiredFor (put_address req))))))"
proof (intro conjI allI impI)
  let ?p = "verify_payment (pay N) ch (payment_verifier a) (put_address req) (payment_proof req)"
  have resp: "resp = fst (handle_put N ch a req)" "a' = snd (handle_put N ch a req)" using assms(2) by simp_all
  have status: "fst ?p = Inr s \<Longrightarrow> can_store s" for s by (rule verify_payment_status)
  show "resp \<noteq> PutPaymentRequired msg" for msg
    using status
    by (auto simp: resp handle_put_def Let_def store_and_record_result split: sum.splits bool.splits prod.splits)
  show "view (storage a') = view (storage a)" if "\<forall>x. resp \<noteq> PutSuccess x"
    using that lmdb.put_view [OF assms(1)]
    by (auto simp: resp handle_put_def Let_def store_and_record_result split: sum.splits bool.splits prod.splits)
  assume "exists_chunk (storage a) (put_address req) = Inr False \<and> length (put_content req) \<le> MAX_CHUNK_SIZE \<and>
    compute_address (postcard_ops N) (put_content req) = put_address req \<and> payment_proof req = None \<and>
    lru_laws (lru (pv_cache (payment_verifier a))) \<and> put_address req \<notin> cached (pv_cache (payment_verifier a))"
  note h = this
  have "\<not> fst (cache_contains (pv_cache (payment_verifier a)) (put_address req))"
    using h cache_contains_result(1) by blast
  then have "fst ?p = Inl (Payment (PaymentRequiredFor (put_address req)))"
    using h by (simp add: verify_payment_def check_payment_required_def split_def Let_def)
  then show "resp = PutError (PaymentFailed (show_error N (Payment (PaymentRequiredFor (put_address req)))))"
    using h by (auto simp: resp handle_put_def Let_def split: prod.splits)
qed

section \<open>A sample node\<close>

definition sample_request :: "byte \<Rightarrow> ChunkPutRequest" where
  "sample_request i = with_payment (replicate 32 i) [i] (PROOF_TAG_SINGLE_NODE # replicate 32 i)"

definition sample_codec :: postcard where
  "sample_codec =
     sample_postcard\<lparr>
       to_stdvec := \<lambda>m. if m = \<lparr>request_id = 1, body = PutResponse (PutSuccess (replicate 32 9))\<rparr> then Inr [0] else Inl ''unsupported'',
       from_postcard := \<lambda>b. if b = [0] then Inr \<lparr>request_id = 1, body = PutResponse (PutSuccess (replicate 32 9))\<rparr>
         else Inr \<lparr>request_id = 1, body = PutRequest (sample_request (hd b))\<rparr>\<rparr>"

definition sample_node_env :: "(bytes, bytes) node_env" where
  "sample_node_env =
     \<lparr>postcard_ops = sample_codec, pay = sample_pay_env, metrics_ops = sample_metrics_env, show_error = \<lambda>e. ''error''\<rparr>"

definition sample_generator :: QuoteGenerator where
  "sample_generator = QuoteGenerator_new [2] (Tracker_new 0 10 0 Map.empty)"

definition sample_node ::
  "((xorname \<times> bytes) list, (xorname, unit) lru_list, (bytes, OnChainPaymentInfo) lru_list) AntProtocol" where
  "sample_node = AntProtocol_new sample_store (PaymentVerifier_new list_lru list_lru sample_pay_config) sample_generator"

lemma sample_node_env_simps [simp]:
  "postcard_ops sample_node_env = sample_codec" "pay sample_node_env = sample_pay_env"
  "metrics_ops sample_node_env = sample_metrics_env" "show_error sample_node_env e = ''error''"
  by (simp_all add: sample_node_env_def)

lemma sample_codec_store [simp]: "storage_inv sample_codec sample_store"
  using sample_store_inv(1) by (simp add: storage_inv_def sample_codec_def compute_address_def)

lemma sample_put_status: "fst (handle_put sample_node_env sample_chain sample_node (sample_request 9)) = PutSuccess (replicate 32 9)"
proof -
  obtain v where v: "verify_payment sample_pay_env sample_chain (PaymentVerifier_new list_lru list_lru sample_pay_config)
      (replicate 32 9) (Some (PROOF_TAG_SINGLE_NODE # replicate 32 9)) = (Inr PaymentVerified, v)"
    using sample_verify_payment [of "replicate 32 9"] by (metis length_replicate prod.collapse)
  have a: "compute_address sample_codec [9] = replicate 32 9"
    by (simp add: compute_address_def sample_codec_def sample_postcard_def)
  have e: "exists_chunk sample_store (replicate 32 9) = Inr False"
    by (simp add: exists_chunk_def sample_store_def sample_kv_def backend_def)
  have c: "fst (put_commit sample_store (replicate 32 9) [9]) = Inr True"
    by (simp add: put_commit_def put_txn_def sample_store_def sample_kv_def backend_def)
  have p: "fst (put sample_codec sample_store (replicate 32 9) [9]) = Inr True"
    by (simp add: put_def a e c)
  show ?thesis
    by (simp add: handle_put_def sample_request_def with_payment_def sample_node_def
        AntProtocol_new_def a e v p can_store_def store_and_record_result MAX_CHUNK_SIZE_def)
qed

lemma sample_put_view: "view (storage (snd (handle_put sample_node_env sample_chain sample_node (sample_request 9)))) (replicate 32 9) = Some [9]"
proof -
  have "storage_inv (postcard_ops sample_node_env) (storage sample_node)"
    by (simp add: sample_node_def AntProtocol_new_def)
  from handle_put_stores(1) [OF this prod.collapse [symmetric] sample_put_status] show ?thesis
    by (simp add: sample_request_def with_payment_def)
qed

lemma sample_decode: "msg_decode sample_codec [9] = Inr \<lparr>request_id = 1, body = PutRequest (sample_request 9)\<rparr>"
  by (simp add: msg_decode_def sample_codec_def MAX_WIRE_MESSAGE_SIZE_def)

lemma node_stores_only_paid_chunks_witness:
  "view (storage (after_requests sample_node_env [(sample_chain, [9])] sample_node)) (replicate 32 9) = Some [9] \<and>
   paid_for sample_pay_env sample_pay_config
     [(sample_chain, replicate 32 9, Some (PROOF_TAG_SINGLE_NODE # replicate 32 9))] (replicate 32 9)"
proof -
  let ?a = "after_requests sample_node_env [(sample_chain, [9])] sample_node"
  have "snd (try_handle_request sample_node_env sample_chain sample_node [9]) =
      snd (handle_put sample_node_env sample_chain sample_node (sample_request 9))"
    by (simp add: try_handle_request_state sample_decode handle_body_def split_def Let_def)
  then have v: "view (storage ?a) (replicate 32 9) = Some [9]"
    using sample_put_view by (simp add: after_requests_def)
  have c: "put_calls sample_node_env (sample_chain, [9]) =
      [(sample_chain, replicate 32 9, Some (PROOF_TAG_SINGLE_NODE # replicate 32 9))]"
    by (simp add: put_calls_def sample_decode sample_request_def with_payment_def)
  have "view sample_store (replicate 32 9) = None"
    by (simp add: view_def sample_store_def sample_kv_def)
  then show ?thesis
    using node_stores_only_paid_chunks [of sample_node_env sample_store list_lru list_lru ?a "[(sample_chain, [9])]"
        sample_pay_config sample_generator] v c
    by (simp add: sample_node_def [symmetric]) (metis option.distinct(1))
qed

lemma put_chunk_is_served_witness:
  "fst (handle_get sample_node_env (snd (handle_put sample_node_env sample_chain sample_node (sample_request 9)))
          (ChunkGetRequest_new (replicate 32 9))) = GetSuccess (replicate 32 9) [9]"
proof -
  have "\<exists>w. fst (handle_get sample_node_env (after_requests sample_node_env []
          (snd (handle_put sample_node_env sample_chain sample_node (sample_request 9))))
          (ChunkGetRequest_new (replicate 32 9))) = GetSuccess (replicate 32 9) w \<and>
       compute_address (postcard_ops sample_node_env) w = replicate 32 9 \<and>
       (fst (handle_put sample_node_env sample_chain sample_node (sample_request 9)) = PutSuccess (replicate 32 9) \<longrightarrow>
          w = put_content (sample_request 9))"
    by (rule put_chunk_is_served [where before = "[]" and st = sample_store and g = sample_generator and L = list_lru and L' = list_lru and cfg = sample_pay_config, OF _ _ _ _ _ prod.collapse [symmetric]])
      (simp_all add: sample_put_status after_requests_def sample_node_def [symmetric])
  then show ?thesis
    using sample_put_status by (simp add: after_requests_def sample_request_def with_payment_def)
qed

lemma reply_matches_request_witness:
  "\<exists>b. fst (try_handle_request sample_node_env sample_chain sample_node [9]) = Inr (Some b) \<and>
     try_handle_request sample_node_env sample_chain sample_node b = (Inr None, sample_node)"
proof -
  have laws: "postcard_laws (postcard_ops sample_node_env)"
    by (auto simp: postcard_laws_def sample_codec_def sample_postcard_def split: if_splits)
  have "msg_encode (postcard_ops sample_node_env)
      \<lparr>request_id = 1, body = PutResponse (PutSuccess (replicate 32 9))\<rparr> = Inr [0]"
    by (simp add: msg_encode_def sample_codec_def)
  then have h: "fst (try_handle_request sample_node_env sample_chain sample_node [9]) = Inr (Some [0])"
    using sample_put_status
    by (simp add: try_handle_request_def sample_decode handle_body_def split_def Let_def)
  show ?thesis
    using reply_matches_request [OF laws h] h by (auto simp: MAX_WIRE_MESSAGE_SIZE_def)
qed

lemma put_failure_behaviour_witness:
  "fst (handle_put sample_node_env sample_chain sample_node (ChunkPutRequest_new (replicate 32 9) [9])) =
     PutError (PaymentFailed ''error'')"
proof -
  let ?r = "ChunkPutRequest_new (replicate 32 9) [9]"
  have i: "storage_inv (postcard_ops sample_node_env) (storage sample_node)"
    by (simp add: sample_node_def AntProtocol_new_def)
  have "exists_chunk (storage sample_node) (replicate 32 9) = Inr False" "length (put_content ?r) \<le> MAX_CHUNK_SIZE"
    "compute_address (postcard_ops sample_node_env) (put_content ?r) = replicate 32 9"
    "lru_laws (lru (pv_cache (payment_verifier sample_node)))"
    "replicate 32 9 \<notin> cached (pv_cache (payment_verifier sample_node))"
    by (simp_all add: sample_node_def AntProtocol_new_def exists_chunk_def sample_store_def sample_kv_def backend_def
        ChunkPutRequest_new_def MAX_CHUNK_SIZE_def sample_codec_def sample_postcard_def
        compute_address_def PaymentVerifier_new_def) (simp add: with_capacity_def)
  then show ?thesis
    using put_failure_behaviour [OF i prod.collapse [symmetric], of sample_chain ?r]
    by (simp add: ChunkPutRequest_new_def)
qed

end
