(* ===== verification/Browser_Node.thy ===== *)
theory Browser_Node
  imports Wasm_Client Node_Client Ant_Handler_Correct
begin

text \<open>
  The composition of the browser client, the tunnel, the WebTransport server and the request
  handler of a node: the part of \<open>handle_encrypted_stream\<close> in
  \<open>src/ant-node/src/webtransport/server.rs\<close> that calls the handler and the fetch from the
  network, and the end-to-end property of a download.
\<close>

section \<open>The responses of a node\<close>

definition node_respond ::
  "('br, 'g) node_env \<Rightarrow> 'g chain \<Rightarrow> p2p_node option \<Rightarrow> u64 \<Rightarrow> ('d, 'c, 'p) AntProtocol \<Rightarrow> bytes \<Rightarrow>
   bytes option \<times> ('d, 'c, 'p) AntProtocol" where
  "node_respond N ch p2p rnd a plaintext =
     (case try_handle_request N ch a plaintext of
        (Inr (Some resp), a') \<Rightarrow>
          (Some (case try_network_fetch (postcard_ops N) p2p rnd resp of Some r \<Rightarrow> r | None \<Rightarrow> resp), a')
      | (Inr None, a') \<Rightarrow> (None, a')
      | (Inl e, a') \<Rightarrow> (None, a'))"

lemma node_respond_get:
  assumes "storage_inv (postcard_ops N) (storage a)" "kv_healthy (env (storage a))" "view (storage a) addr = Some v"
    and "msg_decode (postcard_ops N) m = Inr \<lparr>request_id = rid, body = GetRequest (ChunkGetRequest_new addr)\<rparr>"
    and "msg_encode (postcard_ops N) \<lparr>request_id = rid, body = GetResponse (GetSuccess addr v)\<rparr> = Inr r"
    and "msg_decode (postcard_ops N) r = Inr \<lparr>request_id = rid, body = GetResponse (GetSuccess addr v)\<rparr>"
  shows "fst (node_respond N ch p2p rnd a m) = Some r"
proof -
  have "fst (handle_get N a (ChunkGetRequest_new addr)) = GetSuccess addr v"
    using handle_get_healthy [OF assms(1,2), of "ChunkGetRequest_new addr"] assms(3) by (simp add: ChunkGetRequest_new_def)
  then have "fst (try_handle_request N ch a m) = Inr (Some r)"
    using assms(4,5) by (simp add: try_handle_request_def handle_body_def split_def Let_def)
  moreover have "try_network_fetch (postcard_ops N) p2p rnd r = None"
    using assms(6) by (simp add: try_network_fetch_def split: option.splits)
  ultimately show ?thesis by (auto simp: node_respond_def split: prod.splits)
qed

section \<open>A client with a session to a node\<close>

text \<open>
  What the code relies on about sizes and the cipher: requests for the chunks that are held, and
  the answers with them, serialise and encrypt to messages within the wire limits.
\<close>

definition channel_fits :: "wasm_env \<Rightarrow> SessionCipher \<Rightarrow> (xorname \<rightharpoonup> bytes) \<Rightarrow> bool" where
  "channel_fits E c held \<longleftrightarrow>
     (\<forall>q rid a v. held a = Some v \<longrightarrow>
        (\<exists>m e r f.
           msg_encode (codec E) \<lparr>request_id = rid, body = GetRequest (ChunkGetRequest_new a)\<rparr> = Inr m \<and>
           length m \<le> MAX_WIRE_MESSAGE_SIZE \<and>
           session_encrypt (tunnel E) c q ClientToServer m = Inr e \<and> length e + 5 \<le> MAX_WIRE_MESSAGE_SIZE + 256 \<and>
           msg_encode (codec E) \<lparr>request_id = rid, body = GetResponse (GetSuccess a v)\<rparr> = Inr r \<and>
           length r \<le> MAX_WIRE_MESSAGE_SIZE \<and>
           session_encrypt (tunnel E) c q ServerToClient r = Inr f \<and> length f + 9 \<le> MAX_WIRE_MESSAGE_SIZE + 512))"

text \<open>
  The network of a client whose streams are all answered by the same node. Every stream finds the
  node in the state \<open>a\<close>; this fits downloads, as a GET changes neither the chunks nor the payments
  of a node.
\<close>

definition node_network ::
  "wasm_env \<Rightarrow> SessionCipher \<Rightarrow> ('br, 'g) node_env \<Rightarrow> 'g chain \<Rightarrow> p2p_node option \<Rightarrow> u64 \<Rightarrow> ('d, 'c, 'p) AntProtocol \<Rightarrow>
   u32 \<Rightarrow> bytes \<Rightarrow> string + bytes list" where
  "node_network E c N ch p2p rnd a q = stream_exchange (tunnel E) (node_respond N ch p2p rnd) c q a"

definition node_holds ::
  "wasm_env \<Rightarrow> SessionCipher \<Rightarrow> ('br, 'g) node_env \<Rightarrow> ('d, 'c, 'p) AntProtocol \<Rightarrow> (xorname \<rightharpoonup> bytes) \<Rightarrow> bool" where
  "node_holds E c N a held \<longleftrightarrow>
     postcard_laws (codec E) \<and> tunnel_laws (tunnel E) \<and> codec E = postcard_ops N \<and> channel_fits E c held \<and>
     storage_inv (postcard_ops N) (storage a) \<and> kv_healthy (env (storage a)) \<and> held \<subseteq>\<^sub>m view (storage a)"

definition online_client ::
  "wasm_env \<Rightarrow> SessionCipher \<Rightarrow> ('br, 'g) node_env \<Rightarrow> ('d, 'c, 'p) AntProtocol \<Rightarrow> (xorname \<rightharpoonup> bytes) \<Rightarrow>
   nat \<Rightarrow> 'k DownloadClient \<Rightarrow> bool" where
  "online_client E c N a held n dc \<longleftrightarrow>
     node_holds E c N a held \<and> lru_laws (chunk_lru dc) \<and> cipher (transport dc) = c \<and>
     unat (stream_seq (transport dc)) + n \<le> unat MAX_STREAM_SEQ \<and>
     (\<forall>addr v w. held addr = Some v \<longrightarrow> lru_view (chunk_lru dc) (cache dc) addr = Some w \<longrightarrow> w = v)"

lemma online_remote:
  assumes "online_client E c N a held (Suc n) dc" "held addr = Some v"
  shows "\<exists>dc'. chunk_get_remote E (node_network E c N ch p2p rnd a) dc addr = (Inr (Some (DataChunk_new addr v)), dc') \<and>
           online_client E c N a held n dc'"
proof -
  let ?t = "transport dc" and ?rid = "next_request_id dc"
  have laws: "postcard_laws (codec E)" "tunnel_laws (tunnel E)" "codec E = postcard_ops N" "channel_fits E c held"
      "storage_inv (codec E) (storage a)" "kv_healthy (env (storage a))" "lru_laws (chunk_lru dc)" "cipher ?t = c"
    and v: "view (storage a) addr = Some v"
    and seq: "unat (stream_seq ?t) + Suc n \<le> unat MAX_STREAM_SEQ"
    using assms by (auto simp: online_client_def node_holds_def map_le_def) (metis domI)
  obtain m e r f where fit:
      "msg_encode (codec E) \<lparr>request_id = ?rid, body = GetRequest (ChunkGetRequest_new addr)\<rparr> = Inr m"
      "length m \<le> MAX_WIRE_MESSAGE_SIZE"
      "session_encrypt (tunnel E) c (stream_seq ?t) ClientToServer m = Inr e" "length e + 5 \<le> MAX_WIRE_MESSAGE_SIZE + 256"
      "msg_encode (codec E) \<lparr>request_id = ?rid, body = GetResponse (GetSuccess addr v)\<rparr> = Inr r"
      "length r \<le> MAX_WIRE_MESSAGE_SIZE"
      "session_encrypt (tunnel E) c (stream_seq ?t) ServerToClient r = Inr f" "length f + 9 \<le> MAX_WIRE_MESSAGE_SIZE + 512"
    using laws(4) assms(2) unfolding channel_fits_def by metis
  note dec = msg_decode_encode [OF laws(1) fit(1,2)] msg_decode_encode [OF laws(1) fit(5,6)]
  have respond: "fst (node_respond N ch p2p rnd a m) = Some r"
    using node_respond_get [OF _ laws(6) v, of N m ?rid r] laws(3,5) dec fit(5) by simp
  have lt: "stream_seq ?t < MAX_STREAM_SEQ" using seq by (simp add: word_less_nat_alt)
  have sent: "send_request (tunnel E) (node_network E c N ch p2p rnd a (stream_seq ?t)) ?t m =
      (Inr r, ?t\<lparr>stream_seq := stream_seq ?t + 1\<rparr>)"
    using send_request_served [OF laws(2) lt, of m e "node_respond N ch p2p rnd" a r "snd (node_respond N ch p2p rnd a m)" f]
      fit respond laws(8) by (simp add: node_network_def prod_eq_iff)
  have hash: "compute_address (codec E) v = addr" using lmdb.inv_hash [OF laws(5) v] .
  have next_seq: "unat (stream_seq ?t + 1) = unat (stream_seq ?t) + 1"
    using seq_unat_succ [OF lt] by simp
  let ?dc = "dc\<lparr>next_request_id := ?rid + 1, transport := ?t\<lparr>stream_seq := stream_seq ?t + 1\<rparr>,
               cache := lru_put (chunk_lru dc) (cache dc) addr v\<rparr>"
  have "chunk_get_remote E (node_network E c N ch p2p rnd a) dc addr = (Inr (Some (DataChunk_new addr v)), ?dc)"
    using fit(1) sent dec(2) hash
    by (simp add: chunk_get_remote_def fetch_request_id_def check_get_response_def DataChunk_new_def)
  moreover have "online_client E c N a held n ?dc"
    using assms seq laws(7) lru_put_lookup [OF laws(7), of "cache dc" addr v]
    by (auto simp: online_client_def next_seq) (metis option.inject)
  ultimately show ?thesis by blast
qed

interpretation online: chunk_source E "node_network E c N ch p2p rnd a" held "online_client E c N a held"
  for E c N ch p2p rnd a held
proof (unfold_locales, goal_cases)
  case on: (1 n dc addr v)
  let ?L = "chunk_lru dc" and ?net = "node_network E c N ch p2p rnd a"
  obtain hit c1 where g: "lru_get ?L (cache dc) addr = (hit, c1)" by fastforce
  have L: "lru_laws ?L" using on by (simp add: online_client_def)
  have hit: "hit = lru_view ?L (cache dc) addr" and c1: "lru_view ?L c1 = lru_view ?L (cache dc)"
    using lru_lawsD(3,4) [OF L, of "cache dc" addr] g by simp_all
  have on1: "online_client E c N a held (Suc n) (dc\<lparr>cache := c1\<rparr>)"
    and on0: "online_client E c N a held n (dc\<lparr>cache := c1\<rparr>)"
    using on by (auto simp: online_client_def c1)
  show ?case
  proof (cases hit)
    case None
    then show ?thesis using online_remote [OF on1 on(2), of ch p2p rnd] by (simp add: chunk_get_def g)
  next
    case (Some w)
    then have "w = v" using on hit by (simp add: online_client_def)
    moreover have "view (storage a) addr = Some v" "storage_inv (codec E) (storage a)"
      using on by (auto simp: online_client_def node_holds_def map_le_def) (metis domI)
    then have "compute_address (codec E) v = addr" by (rule lmdb.inv_hash [rotated])
    ultimately show ?thesis using Some on0 by (auto simp: chunk_get_def g)
  qed
qed

section \<open>Downloads\<close>

text \<open>
  C1: A browser downloads what was uploaded. For data whose data map was not shrunk, when the node
  at the other end of a fresh session holds the serialised data map and every encrypted chunk, and
  the messages fit the wire limits, \<open>download_from_address\<close> through the tunnel, the server and the
  request handler returns exactly the data.
\<close>

theorem browser_download_end_to_end:
  assumes "se_laws (crypt E)" "bincode_size (crypt E)" "0 < mcs"
    and "18 + 80 * get_num_chunks mcs (length data) < 3 * mcs"
    and "encrypt (crypt E) mcs fuel data = Some (Inr (dm, chunks))" "\<not> is_child dm"
    and "to_bytes (bincode_serialize (crypt E)) dm = Inr bs"
    and "\<And>c. content_hash (crypt E) c = compute_address (codec E) c"
    and "node_holds E (cipher t) N a held"
    and "\<And>v. v \<in> insert bs (set chunks) \<Longrightarrow> held (compute_address (codec E) v) = Some v"
    and "lru_laws L" "unat (stream_seq t) + Suc (length chunks) \<le> unat MAX_STREAM_SEQ"
  shows "fst (download_from_address E (node_network E (cipher t) N ch p2p rnd a) (DownloadClient_new L t)
                (compute_address (codec E) bs)) = Inr data"
proof -
  have level: "encrypt_one_level (crypt E) mcs data 0 = Inr (dm, chunks)"
    using assms(5,3,2,4)
  proof (cases rule: encrypt_single_levelE)
    case (shrunk root ecs bs' dm1 ecs1)
    then show ?thesis using assms(6) by (simp add: is_child_def with_child_def)
  qed blast
  then have dm: "dm = map_of_chunks (crypt E) mcs data chunks" using assms(3) by (auto elim: one_level_okE)
  have "inj_on (content_hash (crypt E)) (set chunks)"
    using assms(8,10) by (intro inj_onI) (metis insertCI option.inject)
  then have dec: "decrypt (crypt E) dm chunks = Inr data" by (rule encrypt_decrypt [OF assms(1-5)])
  have "from_bytes (bincode_deserialize (crypt E)) bs = Inr dm"
    using assms(1,7) by (auto intro: from_bytes_to_bytes simp: se_laws_def)
  moreover have "list_all2 (\<lambda>info c. held (dst_hash info) = Some c) (infos dm) chunks"
    using assms(8,10) by (simp add: dm list_all2_conv_all_nth nth_enumerate_eq info_nth_def)
  moreover have "online_client E (cipher t) N a held (Suc (length (infos dm) + 0)) (DownloadClient_new L t)"
    using assms(9,11,12) lru_lawsD(1) [OF assms(11), of CACHE_CAPACITY]
    by (simp add: online_client_def DownloadClient_new_def dm CACHE_CAPACITY_def)
  ultimately show ?thesis
    using online.download_complete [of E "cipher t" N a held dm 0 "DownloadClient_new L t" "compute_address (codec E) bs" bs chunks ch p2p rnd]
      assms(10) [of bs] dec by auto
qed

section \<open>A sample download\<close>

definition get_codec :: postcard where
  "get_codec =
     \<lparr>to_stdvec = \<lambda>m. (case body m of
          GetRequest r \<Rightarrow> if length (get_address r) = 32 then Inr (0 # le_bytes 8 (unat (request_id m)) @ get_address r)
            else Inl ''address''
        | GetResponse (GetSuccess a v) \<Rightarrow>
            if length a = 32 then Inr (1 # le_bytes 8 (unat (request_id m)) @ a @ v) else Inl ''address''
        | _ \<Rightarrow> Inl ''unsupported''),
      from_postcard = \<lambda>b. (let rid = word_of_nat (le_value (take 8 (tl b))); r = drop 9 b
        in if hd b = 0 then Inr \<lparr>request_id = rid, body = GetRequest \<lparr>get_address = r\<rparr>\<rparr>
           else Inr \<lparr>request_id = rid, body = GetResponse (GetSuccess (take 32 r) (drop 32 r))\<rparr>),
      blake3 = pinned_hash pinned_bytes\<rparr>"

lemma get_codec_laws [simp]: "postcard_laws get_codec"
  by (auto simp: postcard_laws_def get_codec_def Let_def rid_round_trip pinned_hash_def
      split: ChunkMessageBody.splits ChunkGetResponse.splits if_splits)

definition browser_env :: wasm_env where
  "browser_env = pinned_env\<lparr>codec := get_codec\<rparr>"

definition browser_node_env :: "(bytes, bytes) node_env" where
  "browser_node_env = sample_node_env\<lparr>postcard_ops := get_codec\<rparr>"

definition browser_node ::
  "((xorname \<times> bytes) list, (xorname, unit) lru_list, (bytes, OnChainPaymentInfo) lru_list) AntProtocol" where
  "browser_node = sample_node\<lparr>storage := sample_store\<lparr>db :=
     (1 # replicate 31 0, pinned_bytes) # map (\<lambda>x. (0 # x # replicate 30 0, [x])) [1, 2, 3]\<rparr>\<rparr>"

definition browser_transport :: WtTransport where
  "browser_transport = \<lparr>cipher = \<lparr>key = [1]\<rparr>, stream_seq = 0\<rparr>"

lemma browser_env_simps [simp]:
  "codec browser_env = get_codec" "crypt browser_env = crypt pinned_env" "tunnel browser_env = sample_tunnel"
  "compute_address get_codec v = pinned_hash pinned_bytes v"
  by (simp_all add: browser_env_def pinned_env_def compute_address_def get_codec_def)

lemma pinned_store_bounds: "pinned_store a = Some v \<Longrightarrow> length a = 32 \<and> length v \<le> 258 \<and> pinned_hash pinned_bytes v = a"
proof -
  have "length pinned_bytes \<le> 258"
    by (simp add: pinned_bytes_def enc_versioned_def enc_child_def serialize_versioned_def pinned_map_def enc_info_def)
  then show "pinned_store a = Some v \<Longrightarrow> length a = 32 \<and> length v \<le> 258 \<and> pinned_hash pinned_bytes v = a"
    using pinned_length pinned_hashes(3)
    by (auto simp: pinned_store_def pinned_hash_def dest: arg_cong [where f = length] split: if_splits)
qed

lemma browser_channel: "channel_fits browser_env c pinned_store"
  unfolding channel_fits_def
proof (intro allI impI)
  fix q rid a v
  assume "pinned_store a = Some v"
  then have len: "length a = 32" "length v \<le> 258" using pinned_store_bounds by auto
  have nonce: "length (build_nonce q d) = 12" for d by (simp add: build_nonce_def u32_be_def)
  show "\<exists>m e r f.
           msg_encode (codec browser_env) \<lparr>request_id = rid, body = GetRequest (ChunkGetRequest_new a)\<rparr> = Inr m \<and>
           length m \<le> MAX_WIRE_MESSAGE_SIZE \<and>
           session_encrypt (tunnel browser_env) c q ClientToServer m = Inr e \<and> length e + 5 \<le> MAX_WIRE_MESSAGE_SIZE + 256 \<and>
           msg_encode (codec browser_env) \<lparr>request_id = rid, body = GetResponse (GetSuccess a v)\<rparr> = Inr r \<and>
           length r \<le> MAX_WIRE_MESSAGE_SIZE \<and>
           session_encrypt (tunnel browser_env) c q ServerToClient r = Inr f \<and> length f + 9 \<le> MAX_WIRE_MESSAGE_SIZE + 512"
    using len by (simp add: msg_encode_def get_codec_def ChunkGetRequest_new_def session_encrypt_def sample_tunnel_def nonce
        MAX_WIRE_MESSAGE_SIZE_def ok_or_def)
qed

lemma browser_holds: "node_holds browser_env c browser_node_env browser_node pinned_store"
proof -
  have "view (storage browser_node) = pinned_store"
    by (simp add: browser_node_def view_def sample_store_def sample_kv_def pinned_store_def)
  then show ?thesis
    using browser_channel pinned_store_bounds
    by (auto simp: node_holds_def browser_node_env_def storage_inv_def browser_node_def sample_store_def)
qed

lemma browser_download_end_to_end_witness:
  "fst (download_from_address browser_env
          (node_network browser_env (cipher browser_transport) browser_node_env sample_chain None 7 browser_node)
          (DownloadClient_new list_lru browser_transport) (1 # replicate 31 0)) = Inr [1, 2, 3]"
proof -
  have "18 + 80 * get_num_chunks 160 (length [1, 2, 3 :: byte]) < 3 * 160" "\<not> is_child pinned_map" by code_simp+
  moreover have "pinned_store (pinned_hash pinned_bytes v) = Some v" if "v \<in> insert pinned_bytes (set [[1], [2], [3]])" for v
    using that pinned_hashes(3) by (auto simp: pinned_store_def pinned_hash_def)
  ultimately show ?thesis
    using browser_download_end_to_end [of browser_env 160 "[1, 2, 3]" 8 pinned_map "[[1], [2], [3]]" pinned_bytes,
        where t = browser_transport and L = list_lru and ch = sample_chain and p2p = None and rnd = 7, OF _ _ _ _ _ _ _ _ browser_holds]
      pinned_laws pinned_encrypt pinned_to_bytes
    by (simp add: pinned_hashes browser_transport_def MAX_STREAM_SEQ_def)
qed

end
