(* ===== verification/Chunk_Client.thy ===== *)
theory Chunk_Client
  imports Node_Client Lru
begin

text \<open>
  The native client: configuration and state (\<open>src/ant-client/ant-core/src/data/client/mod.rs\<close>),
  peer lookup (\<open>data/network.rs\<close>), the chunk cache (\<open>client/cache.rs\<close>) and the storage and
  retrieval of single chunks (\<open>client/chunk.rs\<close>).

  The network is the argument of type \<open>client_env\<close>: \<open>ce_p2p\<close> is the peer-to-peer node, which
  delivers for a message the events until the deadline. Futures that run at the same time complete
  in an order that is an argument too. A future draws its request identifier when it is created.
  Error texts are datatypes with one constructor per message; the texts of individual failures that
  an error collects are reduced to their number.
\<close>

section \<open>Errors\<close>

datatype client_msg =
    DhtLookupFailed string
  | NoPeersForTarget
  | EncodeRequestFailed ProtocolError
  | SendFailed string
  | ResponseTimeout
  | RemoteFailure ProtocolError
  | PaymentRequiredBy string
  | ChunkAddressMismatch xorname xorname
  | ChunkHashMismatch xorname xorname
  | StoredOn nat nat nat
  | FoundPeers nat nat
  | GotQuotes nat nat nat
  | QuoteMalformed string
  | WalletNotConfigured
  | EvmNetworkNotConfigured
  | MarketPriceFailed string
  | PriceCountMismatch nat nat
  | PaymentNotCreated
  | OnChainPaymentFailed
  | ProofNotSerialized string
  | MissingTxHash bytes
  | MissingChunkAt xorname
  | DataMapMalformed string
  | EncryptFailed
  | DecryptFailed
  | AvailableSpaceUnknown
  | EncryptionTaskFailed
  | NoDataMap
  | FileIo string
  | TooFewForMerkle
  | MerkleTreeFailed string
  | RewardCandidatesFailed string
  | SystemTimeError
  | GotCandidates nat nat nat
  | MerklePaymentFailed string
  | WinnerPoolNotFound bytes
  | AddressProofFailed nat string
  | MissingMerkleProof xorname
  | DiskSpaceShort nat nat
  | SpillIo string

datatype data_error =
    NetworkErr client_msg
  | StorageErr client_msg
  | PaymentErr client_msg
  | ProtocolErr client_msg
  | InvalidData client_msg
  | SerializationErr client_msg
  | CryptoErr client_msg
  | IoErr client_msg
  | ConfigErr client_msg
  | TimeoutErr client_msg
  | InsufficientPeers client_msg
  | SignatureVerification client_msg
  | EncryptionErr client_msg
  | AlreadyStored
  | InsufficientDiskSpace client_msg

section \<open>The chunk cache\<close>

definition DEFAULT_CHUNK_CACHE_CAPACITY :: nat where "DEFAULT_CHUNK_CACHE_CAPACITY = 1024"

record 'c ChunkCache =
  cc_lru :: "('c, xorname, bytes) lru_ops"
  cc_inner :: 'c

definition ChunkCache_new :: "('c, xorname, bytes) lru_ops \<Rightarrow> nat \<Rightarrow> 'c ChunkCache" where
  "ChunkCache_new L capacity =
     (let effective = (if capacity = 0 then DEFAULT_CHUNK_CACHE_CAPACITY else capacity)
      in \<lparr>cc_lru = L, cc_inner = lru_new L effective\<rparr>)"

definition with_default_capacity :: "('c, xorname, bytes) lru_ops \<Rightarrow> 'c ChunkCache" where
  "with_default_capacity L = ChunkCache_new L DEFAULT_CHUNK_CACHE_CAPACITY"

definition ccache_get :: "'c ChunkCache \<Rightarrow> xorname \<Rightarrow> bytes option \<times> 'c ChunkCache" where
  "ccache_get c a = (let (r, i) = lru_get (cc_lru c) (cc_inner c) a in (r, c\<lparr>cc_inner := i\<rparr>))"

definition ccache_put :: "'c ChunkCache \<Rightarrow> xorname \<Rightarrow> bytes \<Rightarrow> 'c ChunkCache" where
  "ccache_put c a v = c\<lparr>cc_inner := lru_put (cc_lru c) (cc_inner c) a v\<rparr>"

definition ccache_contains :: "'c ChunkCache \<Rightarrow> xorname \<Rightarrow> bool" where
  "ccache_contains c a = lru_contains (cc_lru c) (cc_inner c) a"

definition ccache_len :: "'c ChunkCache \<Rightarrow> nat" where
  "ccache_len c = lru_len (cc_lru c) (cc_inner c)"

definition ccache_is_empty :: "'c ChunkCache \<Rightarrow> bool" where
  "ccache_is_empty c = (ccache_len c = 0)"

definition ccache_remove :: "'c ChunkCache \<Rightarrow> xorname \<Rightarrow> 'c ChunkCache" where
  "ccache_remove c a = c\<lparr>cc_inner := lru_pop (cc_lru c) (cc_inner c) a\<rparr>"

definition ccache_clear :: "'c ChunkCache \<Rightarrow> 'c ChunkCache" where
  "ccache_clear c = c\<lparr>cc_inner := lru_clear (cc_lru c) (cc_inner c)\<rparr>"

section \<open>The client\<close>

definition CLIENT_TIMEOUT_SECS :: nat where "CLIENT_TIMEOUT_SECS = 10"
definition FALLBACK_THREAD_COUNT :: nat where "FALLBACK_THREAD_COUNT = 4"

definition default_chunk_concurrency :: "nat option \<Rightarrow> nat" where
  "default_chunk_concurrency available_parallelism =
     (let threads = (case available_parallelism of Some n \<Rightarrow> n | None \<Rightarrow> FALLBACK_THREAD_COUNT) in max (threads div 2) 1)"

record ClientConfig =
  timeout_secs :: nat
  close_group_size :: nat
  chunk_concurrency :: nat

definition ClientConfig_default :: "nat option \<Rightarrow> ClientConfig" where
  "ClientConfig_default threads =
     \<lparr>timeout_secs = CLIENT_TIMEOUT_SECS, close_group_size = CLOSE_GROUP_SIZE,
      chunk_concurrency = default_chunk_concurrency threads\<rparr>"

record wallet_ops =
  wallet_network :: string
  pay_for_quotes :: "(bytes \<times> bytes \<times> u256) list \<Rightarrow> string + (bytes \<rightharpoonup> bytes)"

record 'c Client =
  cl_config :: ClientConfig
  cl_wallet :: "wallet_ops option"
  cl_evm_network :: "string option"
  cl_chunk_cache :: "'c ChunkCache"
  cl_next_request_id :: u64
  cl_payments :: "(bytes \<times> bytes \<times> u256) list list"
  cl_merkle_payments :: "(byte \<times> bytes list \<times> u64) list"

text \<open>
  \<open>cl_payments\<close> and \<open>cl_merkle_payments\<close> are not fields of the code: they are the effect on the
  chain, the batches of payments and the merkle trees (depth, pool commitments and timestamp) given
  to the wallet so far, the latest first.
\<close>

definition Client_from_node :: "('c, xorname, bytes) lru_ops \<Rightarrow> ClientConfig \<Rightarrow> 'c Client" where
  "Client_from_node L cfg =
     \<lparr>cl_config = cfg, cl_wallet = None, cl_evm_network = None, cl_chunk_cache = with_default_capacity L,
      cl_next_request_id = 1, cl_payments = [], cl_merkle_payments = []\<rparr>"

definition with_wallet :: "'c Client \<Rightarrow> wallet_ops \<Rightarrow> 'c Client" where
  "with_wallet cl w = cl\<lparr>cl_evm_network := Some (wallet_network w), cl_wallet := Some w\<rparr>"

definition with_evm_network :: "'c Client \<Rightarrow> string \<Rightarrow> 'c Client" where
  "with_evm_network cl n = cl\<lparr>cl_evm_network := Some n\<rparr>"

definition require_evm_network :: "'c Client \<Rightarrow> data_error + string" where
  "require_evm_network cl =
     (case cl_evm_network cl of
        Some n \<Rightarrow> Inr n
      | None \<Rightarrow> (case cl_wallet cl of Some w \<Rightarrow> Inr (wallet_network w) | None \<Rightarrow> Inl (PaymentErr EvmNetworkNotConfigured)))"

definition require_wallet :: "'c Client \<Rightarrow> data_error + wallet_ops" where
  "require_wallet cl = ok_or (PaymentErr WalletNotConfigured) (cl_wallet cl)"

definition client_request_id :: "'c Client \<Rightarrow> u64 \<times> 'c Client" where
  "client_request_id cl = (cl_next_request_id cl, cl\<lparr>cl_next_request_id := cl_next_request_id cl + 1\<rparr>)"

section \<open>Peers\<close>

type_synonym peer = "bytes \<times> string list"

record client_env =
  ce_codec :: postcard
  ce_p2p :: p2p_node
  ce_local_peer_id :: bytes
  ce_connected_peers :: "bytes list"

definition find_closest_peers :: "client_env \<Rightarrow> xorname \<Rightarrow> nat \<Rightarrow> data_error + peer list" where
  "find_closest_peers N target count =
     try_bind (map_err (\<lambda>e. NetworkErr (DhtLookupFailed e)) (find_closest_nodes (ce_p2p N) target (count + 1))) (\<lambda>closest.
     Inr (map (\<lambda>n. (dht_peer_id n, dht_addresses n))
            (take count (filter (\<lambda>n. dht_peer_id n \<noteq> ce_local_peer_id N) closest))))"

definition close_group_peers :: "client_env \<Rightarrow> 'c Client \<Rightarrow> xorname \<Rightarrow> data_error + peer list" where
  "close_group_peers N cl target =
     try_bind (find_closest_peers N target (close_group_size (cl_config cl))) (\<lambda>peers.
     if peers = [] then Inl (InsufficientPeers NoPeersForTarget) else Inr peers)"

section \<open>Storing a chunk\<close>

definition put_response_handler :: "ChunkMessageBody \<Rightarrow> (data_error + xorname) option" where
  "put_response_handler b =
     (case b of
        PutResponse (PutSuccess a) \<Rightarrow> Some (Inr a)
      | PutResponse (PutAlreadyExists a) \<Rightarrow> Some (Inr a)
      | PutResponse (PutPaymentRequired m) \<Rightarrow> Some (Inl (PaymentErr (PaymentRequiredBy m)))
      | PutResponse (PutError e) \<Rightarrow> Some (Inl (ProtocolErr (RemoteFailure e)))
      | _ \<Rightarrow> None)"

definition chunk_put_with_proof ::
  "client_env \<Rightarrow> u64 \<Rightarrow> bytes \<Rightarrow> bytes \<Rightarrow> peer \<Rightarrow> data_error + xorname" where
  "chunk_put_with_proof N rid data payment target =
     (let addr = compute_address (ce_codec N) data
      in try_bind (map_err (\<lambda>e. ProtocolErr (EncodeRequestFailed e))
                     (msg_encode (ce_codec N) \<lparr>request_id = rid, body = PutRequest (with_payment addr data payment)\<rparr>))
           (\<lambda>message_bytes.
              send_and_await_chunk_response (ce_codec N) (p2p_send_message (ce_p2p N)) (fst target) message_bytes rid
                put_response_handler (\<lambda>e. NetworkErr (SendFailed e)) (TimeoutErr ResponseTimeout)))"

text \<open>
  The loop of \<open>chunk_put_to_close_group\<close>: \<open>running\<close> are the PUTs in flight, each with its result,
  \<open>fallback\<close> the peers not yet asked. \<open>pick\<close> says which of the running PUTs completes next; its
  argument, the number of peers that have not completed, is different in every step.
\<close>

definition remove_at :: "nat \<Rightarrow> 'a list \<Rightarrow> 'a list" where
  "remove_at i xs = take i xs @ drop (Suc i) xs"

lemma length_remove_at: "i < length xs \<Longrightarrow> length (remove_at i xs) = length xs - 1"
  by (simp add: remove_at_def)

lemma length_remove_pick [simp]: "xs \<noteq> [] \<Longrightarrow> length (remove_at (n mod length xs) xs) = length xs - 1"
  by (simp add: length_remove_at)

function put_loop ::
  "(u64 \<Rightarrow> peer \<Rightarrow> data_error + xorname) \<Rightarrow> (nat \<Rightarrow> nat) \<Rightarrow> xorname \<Rightarrow> (data_error + xorname) list \<Rightarrow> peer list \<Rightarrow>
   nat \<Rightarrow> nat \<Rightarrow> 'c Client \<Rightarrow> (data_error + xorname) \<times> 'c Client" where
  "put_loop put_one pick addr running fallback succeeded failed cl =
     (if running = [] then (Inl (InsufficientPeers (StoredOn succeeded CLOSE_GROUP_MAJORITY failed)), cl)
      else
        (let i = pick (length running + length fallback) mod length running; rest = remove_at i running
         in case running ! i of
              Inr a \<Rightarrow>
                if CLOSE_GROUP_MAJORITY \<le> succeeded + 1 then (Inr addr, cl)
                else put_loop put_one pick addr rest fallback (succeeded + 1) failed cl
            | Inl e \<Rightarrow>
                (case fallback of
                   [] \<Rightarrow> put_loop put_one pick addr rest [] succeeded (failed + 1) cl
                 | p # ps \<Rightarrow>
                     (let (rid, cl') = client_request_id cl
                      in put_loop put_one pick addr (rest @ [put_one rid p]) ps succeeded (failed + 1) cl'))))"
  by pat_completeness auto
termination
  by (relation "measure (\<lambda>(put_one, pick, addr, running, fallback, s, f, cl). length running + length fallback)")
    auto

declare put_loop.simps [simp del]

definition spawn_puts ::
  "(u64 \<Rightarrow> peer \<Rightarrow> data_error + xorname) \<Rightarrow> peer list \<Rightarrow> 'c Client \<Rightarrow> (data_error + xorname) list \<times> 'c Client" where
  "spawn_puts put_one peers cl =
     fold (\<lambda>p (rs, c). let (rid, c') = client_request_id c in (rs @ [put_one rid p], c')) peers ([], cl)"

definition chunk_put_to_close_group ::
  "client_env \<Rightarrow> (nat \<Rightarrow> nat) \<Rightarrow> 'c Client \<Rightarrow> bytes \<Rightarrow> bytes \<Rightarrow> peer list \<Rightarrow> (data_error + xorname) \<times> 'c Client" where
  "chunk_put_to_close_group N pick cl data payment peers =
     (let addr = compute_address (ce_codec N) data;
          initial_count = min (length peers) CLOSE_GROUP_MAJORITY;
          put_one = (\<lambda>rid p. chunk_put_with_proof N rid data payment p);
          (running, cl1) = spawn_puts put_one (take initial_count peers) cl
      in put_loop put_one pick addr running (drop initial_count peers) 0 0 cl1)"

section \<open>Retrieving a chunk\<close>

definition get_response_handler ::
  "postcard \<Rightarrow> xorname \<Rightarrow> ChunkMessageBody \<Rightarrow> (data_error + DataChunk option) option" where
  "get_response_handler P addr b =
     (case b of
        GetResponse (GetSuccess a data) \<Rightarrow>
          if a \<noteq> addr then Some (Inl (InvalidData (ChunkAddressMismatch addr a)))
          else if compute_address P data \<noteq> a
          then Some (Inl (InvalidData (ChunkHashMismatch addr (compute_address P data))))
          else Some (Inr (Some (DataChunk_new a data)))
      | GetResponse (GetNotFound a) \<Rightarrow> Some (Inr None)
      | GetResponse (GetError e) \<Rightarrow> Some (Inl (ProtocolErr (RemoteFailure e)))
      | _ \<Rightarrow> None)"

definition chunk_get_from_peer ::
  "client_env \<Rightarrow> 'c Client \<Rightarrow> xorname \<Rightarrow> peer \<Rightarrow> (data_error + DataChunk option) \<times> 'c Client" where
  "chunk_get_from_peer N cl addr p =
     (let (rid, cl1) = client_request_id cl
      in (try_bind (map_err (\<lambda>e. ProtocolErr (EncodeRequestFailed e))
                      (msg_encode (ce_codec N) \<lparr>request_id = rid, body = GetRequest (ChunkGetRequest_new addr)\<rparr>))
            (\<lambda>message_bytes.
               send_and_await_chunk_response (ce_codec N) (p2p_send_message (ce_p2p N)) (fst p) message_bytes rid
                 (get_response_handler (ce_codec N) addr) (\<lambda>e. NetworkErr (SendFailed e)) (TimeoutErr ResponseTimeout)),
          cl1))"

fun chunk_get_from_peers ::
  "client_env \<Rightarrow> 'c Client \<Rightarrow> xorname \<Rightarrow> peer list \<Rightarrow> (data_error + DataChunk option) \<times> 'c Client" where
  "chunk_get_from_peers N cl addr [] = (Inr None, cl)"
| "chunk_get_from_peers N cl addr (p # ps) =
     (case chunk_get_from_peer N cl addr p of
        (Inr (Some chunk), cl1) \<Rightarrow>
          (Inr (Some chunk), cl1\<lparr>cl_chunk_cache := ccache_put (cl_chunk_cache cl1) (address chunk) (content chunk)\<rparr>)
      | (Inr None, cl1) \<Rightarrow> chunk_get_from_peers N cl1 addr ps
      | (Inl (TimeoutErr m), cl1) \<Rightarrow> chunk_get_from_peers N cl1 addr ps
      | (Inl (NetworkErr m), cl1) \<Rightarrow> chunk_get_from_peers N cl1 addr ps
      | (Inl e, cl1) \<Rightarrow> (Inl e, cl1))"

definition chunk_get_network ::
  "client_env \<Rightarrow> 'c Client \<Rightarrow> xorname \<Rightarrow> (data_error + DataChunk option) \<times> 'c Client" where
  "chunk_get_network N cl addr =
     (case close_group_peers N cl addr of
        Inl e \<Rightarrow> (Inl e, cl)
      | Inr peers \<Rightarrow> chunk_get_from_peers N cl addr peers)"

definition client_chunk_get ::
  "client_env \<Rightarrow> 'c Client \<Rightarrow> xorname \<Rightarrow> (data_error + DataChunk option) \<times> 'c Client" where
  "client_chunk_get N cl addr =
     (let (hit, cc) = ccache_get (cl_chunk_cache cl) addr; cl1 = cl\<lparr>cl_chunk_cache := cc\<rparr>
      in case hit of
           Some cached \<Rightarrow>
             if compute_address (ce_codec N) cached = addr then (Inr (Some (DataChunk_new addr cached)), cl1)
             else chunk_get_network N (cl1\<lparr>cl_chunk_cache := ccache_remove cc addr\<rparr>) addr
         | None \<Rightarrow> chunk_get_network N cl1 addr)"

definition chunk_exists :: "client_env \<Rightarrow> 'c Client \<Rightarrow> xorname \<Rightarrow> (data_error + bool) \<times> 'c Client" where
  "chunk_exists N cl addr =
     (let (r, cl') = client_chunk_get N cl addr in (try_bind r (\<lambda>c. Inr (c \<noteq> None)), cl'))"

section \<open>Replication\<close>

definition accepted :: "(data_error + xorname) list \<Rightarrow> nat" where
  "accepted rs = length (filter is_ok rs)"

lemma accepted_remove:
  assumes "i < length rs"
  shows "accepted rs = accepted (remove_at i rs) + (if is_ok (rs ! i) then 1 else 0)"
proof -
  have "rs = take i rs @ rs ! i # drop (Suc i) rs" using assms by (rule id_take_nth_drop)
  then have "accepted rs = accepted (take i rs @ rs ! i # drop (Suc i) rs)" by simp
  then show ?thesis by (simp add: accepted_def remove_at_def)
qed

lemma accepted_append [simp]: "accepted (xs @ ys) = accepted xs + accepted ys"
  by (simp add: accepted_def)

lemma accepted_single [simp]: "accepted [] = 0" "accepted [r] = (if is_ok r then 1 else 0)"
  by (simp_all add: accepted_def)

lemma put_loop_result:
  assumes "\<And>rid p. p \<in> set fallback \<Longrightarrow> is_ok (put_one rid p) \<longleftrightarrow> accept p"
    and "fallback = [] \<or> CLOSE_GROUP_MAJORITY \<le> succeeded + length running" "succeeded < CLOSE_GROUP_MAJORITY"
  shows "fst (put_loop put_one pick addr running fallback succeeded failed cl) =
    (let n = succeeded + accepted running + length (filter accept fallback)
     in if CLOSE_GROUP_MAJORITY \<le> n then Inr addr
        else Inl (InsufficientPeers (StoredOn n CLOSE_GROUP_MAJORITY
                    (failed + succeeded + length running + length fallback - n))))"
  using assms
proof (induction put_one pick addr running fallback succeeded failed cl rule: put_loop.induct)
  case (1 put_one pick addr running fallback succeeded failed cl)
  define i where "i = pick (length running + length fallback) mod length running"
  define rest where "rest = remove_at i running"
  show ?case
  proof (cases "running = []")
    case True
    then show ?thesis using "1.prems" by (subst put_loop.simps) auto
  next
    case False
    then have "i < length running" by (simp add: i_def)
    then obtain k where k: "length running = Suc k" "length rest = k"
      using length_remove_at [of i running] by (cases running) (auto simp: rest_def)
    have acc: "accepted running = accepted rest + (if is_ok (running ! i) then 1 else 0)"
      using accepted_remove [OF \<open>i < length running\<close>] by (simp add: rest_def)
    have le: "accepted rest \<le> k" "length (filter accept fallback) \<le> length fallback"
      using length_filter_le [of is_ok rest] by (simp_all add: accepted_def k)
    note step = put_loop.simps [of put_one pick addr running fallback succeeded failed cl,
        folded i_def, unfolded Let_def, folded rest_def]
    note IH = "1.IH" [OF False i_def rest_def]
    show ?thesis
    proof (cases "running ! i")
      case (Inr a)
      then show ?thesis
        using IH(3) [OF Inr] "1.prems" False Inr acc le k by (auto simp: step Let_def)
    next
      case (Inl e)
      show ?thesis
      proof (cases fallback)
        case Nil
        then show ?thesis using IH(1) [OF Inl Nil] "1.prems" False Inl acc le k by (subst step) (auto simp: Let_def)
      next
        case (Cons p ps)
        then show ?thesis
          using IH(2) [OF Inl Cons refl prod.collapse] "1.prems" False Inl acc le k
          by (subst step) (auto simp: Let_def split_def)
      qed
    qed
  qed
qed

lemma spawn_puts_accepted:
  assumes "\<And>rid p. p \<in> set peers \<Longrightarrow> is_ok (put_one rid p) \<longleftrightarrow> accept p"
  shows "accepted (fst (spawn_puts put_one peers cl)) = length (filter accept peers)"
    and "length (fst (spawn_puts put_one peers cl)) = length peers"
proof -
  let ?f = "\<lambda>p (rs, c). let (rid, c') = client_request_id c in (rs @ [put_one rid p], c')"
  have "accepted (fst (fold ?f peers (rs, c))) = accepted rs + length (filter accept peers) \<and>
      length (fst (fold ?f peers (rs, c))) = length rs + length peers" for rs c
    using assms by (induction peers arbitrary: rs c) (auto simp: split_def Let_def)
  from this [of "[]" cl] show "accepted (fst (spawn_puts put_one peers cl)) = length (filter accept peers)"
    "length (fst (spawn_puts put_one peers cl)) = length peers"
    by (simp_all add: spawn_puts_def)
qed

text \<open>
  C8: storing on the close group succeeds exactly when a majority of the peers accepts the chunk.
  Whatever the order in which the concurrent PUTs complete, \<open>chunk_put_to_close_group\<close> ends, falls
  back to the remaining peers as often as needed, returns the address if at least
  \<open>CLOSE_GROUP_MAJORITY\<close> of the given peers accept, and otherwise an error with the exact numbers of
  acceptances and failures.
\<close>

theorem close_group_put_majority:
  assumes "\<And>rid p. p \<in> set peers \<Longrightarrow> is_ok (chunk_put_with_proof N rid data payment p) \<longleftrightarrow> accept p"
  shows "fst (chunk_put_to_close_group N pick cl data payment peers) =
    (let n = length (filter accept peers)
     in if CLOSE_GROUP_MAJORITY \<le> n then Inr (compute_address (ce_codec N) data)
        else Inl (InsufficientPeers (StoredOn n CLOSE_GROUP_MAJORITY (length peers - n))))"
proof -
  let ?k = "min (length peers) CLOSE_GROUP_MAJORITY" and ?put = "\<lambda>rid p. chunk_put_with_proof N rid data payment p"
  have ini: "\<And>rid p. p \<in> set (take ?k peers) \<Longrightarrow> is_ok (?put rid p) \<longleftrightarrow> accept p"
    and fb: "\<And>rid p. p \<in> set (drop ?k peers) \<Longrightarrow> is_ok (?put rid p) \<longleftrightarrow> accept p"
    using assms by (meson in_set_takeD in_set_dropD)+
  have split: "length (filter accept (take ?k peers)) + length (filter accept (drop ?k peers)) = length (filter accept peers)"
    by (metis append_take_drop_id filter_append length_append)
  have majority: "0 < CLOSE_GROUP_MAJORITY" by (simp add: CLOSE_GROUP_MAJORITY_def CLOSE_GROUP_SIZE_def)
  have sp: "accepted (fst (spawn_puts ?put (take ?k peers) cl)) = length (filter accept (take ?k peers))"
    "length (fst (spawn_puts ?put (take ?k peers) cl)) = ?k"
    using spawn_puts_accepted [of "take ?k peers" ?put accept cl] ini by simp_all
  then have "drop ?k peers = [] \<or> CLOSE_GROUP_MAJORITY \<le> 0 + length (fst (spawn_puts ?put (take ?k peers) cl))"
    by (auto simp: min_def)
  then have "fst (put_loop ?put pick addr (fst (spawn_puts ?put (take ?k peers) cl)) (drop ?k peers) 0 0 c) =
    (let n = length (filter accept peers)
     in if CLOSE_GROUP_MAJORITY \<le> n then Inr addr
        else Inl (InsufficientPeers (StoredOn n CLOSE_GROUP_MAJORITY (length peers - n))))" for addr and c :: "'a Client"
    using put_loop_result [of "drop ?k peers" ?put accept 0 _ pick addr 0 c] fb majority
    by (simp add: sp split Let_def)
  then show ?thesis by (simp add: chunk_put_to_close_group_def Let_def split_def)
qed

definition put_codec :: postcard where
  "put_codec =
     \<lparr>to_stdvec = \<lambda>m. Inr (le_bytes 8 (unat (request_id m))),
      from_postcard = \<lambda>b. Inr \<lparr>request_id = word_of_nat (le_value b), body = PutResponse (PutSuccess [])\<rparr>, blake3 = \<lambda>b. b\<rparr>"

definition put_net :: client_env where
  "put_net =
     \<lparr>ce_codec = put_codec,
      ce_p2p = \<lparr>p2p_send_message = \<lambda>p t b. if p = [0] then Inl ''unreachable'' else Inr [OtherEvent, Message t (Some p) b],
                find_closest_nodes = \<lambda>a n. Inr []\<rparr>,
      ce_local_peer_id = [], ce_connected_peers = []\<rparr>"

lemma close_group_put_majority_witness:
  "fst (chunk_put_to_close_group put_net (\<lambda>n. n) (Client_from_node list_lru (ClientConfig_default None)) [7] []
          [([0], []), ([1], []), ([0], []), ([2], []), ([3], [])]) = Inr [7]"
proof -
  have "is_ok (chunk_put_with_proof put_net rid [7] [] p) \<longleftrightarrow> fst p \<noteq> [0]" for rid p
    by (simp add: chunk_put_with_proof_def put_net_def put_codec_def msg_encode_def msg_decode_def rid_round_trip
        send_and_await_chunk_response_def put_response_handler_def MAX_WIRE_MESSAGE_SIZE_def Let_def)
  then show ?thesis
    using close_group_put_majority [of "[([0], []), ([1], []), ([0], []), ([2], []), ([3], [])]" put_net "[7]" "[]" "\<lambda>p. fst p \<noteq> [0]"]
    by (simp add: CLOSE_GROUP_MAJORITY_def CLOSE_GROUP_SIZE_def put_net_def put_codec_def compute_address_def)
qed

end
