(* ===== verification/Single_Node.thy ===== *)
theory Single_Node
  imports Payment_Proof "HOL-Library.Multiset"
begin

text \<open>
  Single-node payments: \<open>src/ant-node/src/payment/single_node.rs\<close>. The client pays three times the
  median of five quotes to the node with that quote and nothing to the others.

  The hash of a quote, the wallet and the payment vault contract of \<open>evmlib\<close> are arguments. An
  \<open>Amount\<close> is a 256 bit word: \<open>sum\<close> wraps around, \<open>checked_mul\<close> does not.
\<close>

section \<open>Payments\<close>

definition zero_quoting_metrics :: QuotingMetrics where
  "zero_quoting_metrics =
     \<lparr>qm_data_type = 0, qm_data_size = 0, qm_close_records_stored = 0, qm_records_per_type = [], qm_max_records = 0,
      qm_received_payment_count = 0, qm_live_time = 0, qm_network_density = None, qm_network_size = None\<rparr>"

definition MEDIAN_INDEX :: nat where "MEDIAN_INDEX = CLOSE_GROUP_SIZE div 2"

record QuotePaymentInfo =
  qi_quote_hash :: bytes
  qi_rewards_address :: rewards_address
  qi_amount :: u256
  qi_quoting_metrics :: QuotingMetrics

record SingleNodePayment =
  quotes :: "QuotePaymentInfo list"

definition checked_mul :: "u256 \<Rightarrow> u256 \<Rightarrow> u256 option" where
  "checked_mul a b = (if unat a * unat b < 2 ^ 256 then Some (a * b) else None)"

definition nth_opt :: "'a list \<Rightarrow> nat \<Rightarrow> 'a option" where
  "nth_opt xs i = (if i < length xs then Some (xs ! i) else None)"

definition from_quotes ::
  "(PaymentQuote \<Rightarrow> bytes) \<Rightarrow> (PaymentQuote \<times> u256) list \<Rightarrow> node_error + SingleNodePayment" where
  "from_quotes quote_hash quotes_with_prices =
     (if length quotes_with_prices \<noteq> CLOSE_GROUP_SIZE
      then Inl (Payment (WrongPaymentCount (length quotes_with_prices)))
      else
        (let sorted = sort_key snd quotes_with_prices
         in try_bind (ok_or (Payment MissingMedian) (nth_opt sorted MEDIAN_INDEX)) (\<lambda>median.
            try_bind (ok_or (Payment PriceOverflow) (checked_mul (snd median) 3)) (\<lambda>enhanced_price.
            (let quotes_vec = map (\<lambda>(idx, q, _).
                   \<lparr>qi_quote_hash = quote_hash q, qi_rewards_address = q_rewards_address q,
                    qi_amount = (if idx = MEDIAN_INDEX then enhanced_price else 0),
                    qi_quoting_metrics = q_quoting_metrics q\<rparr>) (enumerate 0 sorted)
             in if length quotes_vec \<noteq> CLOSE_GROUP_SIZE then Inl (Payment ArrayConversion)
                else Inr \<lparr>quotes = quotes_vec\<rparr>)))))"

definition total_amount :: "SingleNodePayment \<Rightarrow> u256" where
  "total_amount p = sum_list (map qi_amount (quotes p))"

definition paid_quote :: "SingleNodePayment \<Rightarrow> QuotePaymentInfo option" where
  "paid_quote p = nth_opt (quotes p) MEDIAN_INDEX"

type_synonym quote_payment = "bytes \<times> rewards_address \<times> u256"

definition quote_payments :: "SingleNodePayment \<Rightarrow> quote_payment list" where
  "quote_payments p = map (\<lambda>q. (qi_quote_hash q, qi_rewards_address q, qi_amount q)) (quotes p)"

definition pay_quotes ::
  "(quote_payment list \<Rightarrow> string + (bytes \<rightharpoonup> bytes)) \<Rightarrow> SingleNodePayment \<Rightarrow> node_error + bytes list" where
  "pay_quotes pay_for_quotes p =
     try_bind (map_err (\<lambda>e. Payment (PayForQuotesFailed e)) (pay_for_quotes (quote_payments p))) (\<lambda>txs.
     traverse (\<lambda>q. ok_or (Payment (MissingTransaction (qi_quote_hash q))) (txs (qi_quote_hash q)))
       (filter (\<lambda>q. 0 < qi_amount q) (quotes p)))"

definition verify_on_chain ::
  "(bytes list \<Rightarrow> (bytes \<times> QuotingMetrics \<times> rewards_address) list \<Rightarrow> string + u256) \<Rightarrow>
   SingleNodePayment \<Rightarrow> bytes option \<Rightarrow> node_error + u256" where
  "verify_on_chain verify_data_payment p owned_quote_hash =
     (let digest = map (\<lambda>q. (qi_quote_hash q, zero_quoting_metrics, qi_rewards_address q)) (quotes p);
          owned = (case owned_quote_hash of None \<Rightarrow> [] | Some h \<Rightarrow> [h])
      in try_bind (map_err (\<lambda>e. Payment (VaultVerificationFailed e)) (verify_data_payment owned digest)) (\<lambda>verified.
         if owned = [] then Inr verified
         else
         try_bind (ok_or (Payment OwnedQuoteMissing)
                     (find (\<lambda>q. Some (qi_quote_hash q) = owned_quote_hash) (quotes p))) (\<lambda>q.
         if verified \<noteq> qi_amount q then Inl (Payment (AmountMismatch (qi_amount q) verified)) else Inr verified)))"

section \<open>The median\<close>

definition median_price :: "(PaymentQuote \<times> u256) list \<Rightarrow> u256" where
  "median_price qs = sort (map snd qs) ! 2"

lemma group_consts: "CLOSE_GROUP_SIZE = 5" "MEDIAN_INDEX = 2"
  by (simp_all add: CLOSE_GROUP_SIZE_def MEDIAN_INDEX_def)

lemma map_snd_sort_key: "map snd (sort_key snd xs) = sort (map snd xs)"
  by (rule properties_for_sort [symmetric]) (simp_all add: mset_map sorted_sort_key)

lemma median_nth: "length qs = 5 \<Longrightarrow> snd (sort_key snd qs ! 2) = median_price qs"
  unfolding median_price_def map_snd_sort_key [symmetric] by simp

lemma from_quotes_eq:
  "from_quotes h qs =
     (if length qs \<noteq> 5 then Inl (Payment (WrongPaymentCount (length qs)))
      else if 2 ^ 256 \<le> unat (median_price qs) * 3 then Inl (Payment PriceOverflow)
      else Inr \<lparr>quotes = map (\<lambda>(idx, q, _).
                  \<lparr>qi_quote_hash = h q, qi_rewards_address = q_rewards_address q,
                   qi_amount = (if idx = 2 then median_price qs * 3 else 0),
                   qi_quoting_metrics = q_quoting_metrics q\<rparr>) (enumerate 0 (sort_key snd qs))\<rparr>)"
  by (auto simp: from_quotes_def group_consts nth_opt_def checked_mul_def median_nth Let_def)

lemma list_of_five: "length xs = 5 \<longleftrightarrow> (\<exists>a b c d e. xs = [a, b, c, d, e])"
  by (auto simp: numeral_eq_Suc length_Suc_conv)

lemma median_splits:
  assumes "length qs = 5"
  shows "3 \<le> size (filter_mset (\<lambda>x. snd x \<le> median_price qs) (mset qs))"
    and "3 \<le> size (filter_mset (\<lambda>x. median_price qs \<le> snd x) (mset qs))"
proof -
  obtain a b c d e where s: "sort_key snd qs = [a, b, c, d, e]"
    using assms list_of_five [of "sort_key snd qs"] by auto
  have m: "median_price qs = snd c" using median_nth [OF assms] by (simp add: s numeral_2_eq_2)
  have "sorted (map snd (sort_key snd qs))" by (rule sorted_sort_key)
  then have ord: "snd a \<le> snd c" "snd b \<le> snd c" "snd c \<le> snd d" "snd c \<le> snd e" by (auto simp: s)
  have q: "mset qs = mset [a, b, c, d, e]" by (metis mset_sort s)
  show "3 \<le> size (filter_mset (\<lambda>x. snd x \<le> median_price qs) (mset qs))"
    "3 \<le> size (filter_mset (\<lambda>x. median_price qs \<le> snd x) (mset qs))"
    using ord unfolding q m by auto
qed

lemma from_quotes_payment:
  assumes "from_quotes h qs = Inr p"
  shows "length qs = 5" "unat (median_price qs) * 3 < 2 ^ 256"
    and "mset (map qi_quote_hash (quotes p)) = mset (map (h \<circ> fst) qs)"
    and "map qi_amount (quotes p) = [0, 0, median_price qs * 3, 0, 0]"
    and "unat (total_amount p) = unat (median_price qs) * 3"
    and "map qi_quote_hash (quotes p) = map (h \<circ> fst) (sort_key snd qs)"
proof -
  from assms show len: "length qs = 5" and small: "unat (median_price qs) * 3 < 2 ^ 256"
    by (auto simp: from_quotes_eq split: if_splits)
  obtain a b c d e where s: "sort_key snd qs = [a, b, c, d, e]"
    using len list_of_five [of "sort_key snd qs"] by auto
  have p: "map qi_quote_hash (quotes p) = map (h \<circ> fst) (sort_key snd qs)"
    "map qi_amount (quotes p) = [0, 0, median_price qs * 3, 0, 0]"
    using assms len small by (auto simp: from_quotes_eq s split_def numeral_2_eq_2)
  show "map qi_quote_hash (quotes p) = map (h \<circ> fst) (sort_key snd qs)" by (rule p(1))
  show "mset (map qi_quote_hash (quotes p)) = mset (map (h \<circ> fst) qs)" unfolding p(1) by simp
  show "map qi_amount (quotes p) = [0, 0, median_price qs * 3, 0, 0]" by (rule p(2))
  then have "total_amount p = median_price qs * 3" by (simp add: total_amount_def)
  then show "unat (total_amount p) = unat (median_price qs) * 3" using small by (simp add: unat_word_ariths)
qed

lemma from_quotes_entries:
  assumes "from_quotes h qs = Inr p"
  defines "ranked \<equiv> sort_key snd qs"
  shows "mset ranked = mset qs" "sorted (map snd ranked)" "snd (ranked ! 2) = median_price qs"
    and "quotes p = map2 (\<lambda>(q, _) amount.
           \<lparr>qi_quote_hash = h q, qi_rewards_address = q_rewards_address q, qi_amount = amount,
            qi_quoting_metrics = q_quoting_metrics q\<rparr>) ranked [0, 0, median_price qs * 3, 0, 0]"
proof -
  have len: "length qs = 5" by (rule from_quotes_payment(1) [OF assms(1)])
  then obtain a b c d e where s: "ranked = [a, b, c, d, e]"
    using list_of_five [of ranked] by (auto simp: ranked_def)
  show "mset ranked = mset qs" "sorted (map snd ranked)" by (simp_all add: ranked_def sorted_sort_key)
  show "snd (ranked ! 2) = median_price qs" unfolding ranked_def by (rule median_nth [OF len])
  show "quotes p = map2 (\<lambda>(q, _) amount.
           \<lparr>qi_quote_hash = h q, qi_rewards_address = q_rewards_address q, qi_amount = amount,
            qi_quoting_metrics = q_quoting_metrics q\<rparr>) ranked [0, 0, median_price qs * 3, 0, 0]"
    using assms(1) len s by (auto simp: from_quotes_eq ranked_def split_def numeral_2_eq_2 split: if_splits)
qed

text \<open>
  C16: a single-node payment goes to the node with the median price and to nobody else. From five
  quotes whose median price times three fits 256 bits, \<open>from_quotes\<close> builds a payment whose entries
  are the quotes ranked by price, each with its own hash, rewards address and metrics. Only the
  entry of the third of them, whose price is the median, carries an amount, three times its price;
  it is the entry that \<open>paid_quote\<close> returns. At least three quotes are not dearer than it and at
  least three not cheaper, and the total is its amount, without wrap-around. For another number of
  quotes, or when the product overflows, it fails.
\<close>

theorem single_node_pays_median:
  "case from_quotes h qs of
     Inl err \<Rightarrow>
       if length qs = 5 then 2 ^ 256 \<le> unat (median_price qs) * 3 \<and> err = Payment PriceOverflow
       else err = Payment (WrongPaymentCount (length qs))
   | Inr p \<Rightarrow>
       length qs = 5 \<and>
       (\<exists>ranked. mset ranked = mset qs \<and> sorted (map snd ranked) \<and> snd (ranked ! 2) = median_price qs \<and>
          quotes p = map2 (\<lambda>(q, _) amount.
            \<lparr>qi_quote_hash = h q, qi_rewards_address = q_rewards_address q, qi_amount = amount,
             qi_quoting_metrics = q_quoting_metrics q\<rparr>) ranked [0, 0, median_price qs * 3, 0, 0] \<and>
          map_option (\<lambda>i. (qi_quote_hash i, qi_rewards_address i, qi_amount i)) (paid_quote p) =
            Some (h (fst (ranked ! 2)), q_rewards_address (fst (ranked ! 2)), median_price qs * 3)) \<and>
       mset (map qi_quote_hash (quotes p)) = mset (map (h \<circ> fst) qs) \<and>
       map qi_amount (quotes p) = [0, 0, median_price qs * 3, 0, 0] \<and>
       unat (total_amount p) = unat (median_price qs) * 3 \<and>
       3 \<le> size (filter_mset (\<lambda>x. snd x \<le> median_price qs) (mset qs)) \<and>
       3 \<le> size (filter_mset (\<lambda>x. median_price qs \<le> snd x) (mset qs))"
proof (cases "from_quotes h qs")
  case (Inl err)
  then show ?thesis by (auto simp: from_quotes_eq split: if_splits)
next
  case (Inr p)
  note entries = from_quotes_entries [OF Inr] and pay = from_quotes_payment [OF Inr]
  let ?r = "sort_key snd qs"
  have "map_option (\<lambda>i. (qi_quote_hash i, qi_rewards_address i, qi_amount i)) (paid_quote p) =
      Some (h (fst (?r ! 2)), q_rewards_address (fst (?r ! 2)), median_price qs * 3)"
    using pay(1) by (simp add: paid_quote_def nth_opt_def group_consts entries(4) split_def)
  then have "\<exists>ranked. mset ranked = mset qs \<and> sorted (map snd ranked) \<and> snd (ranked ! 2) = median_price qs \<and>
      quotes p = map2 (\<lambda>(q, _) amount.
        \<lparr>qi_quote_hash = h q, qi_rewards_address = q_rewards_address q, qi_amount = amount,
         qi_quoting_metrics = q_quoting_metrics q\<rparr>) ranked [0, 0, median_price qs * 3, 0, 0] \<and>
      map_option (\<lambda>i. (qi_quote_hash i, qi_rewards_address i, qi_amount i)) (paid_quote p) =
        Some (h (fst (ranked ! 2)), q_rewards_address (fst (ranked ! 2)), median_price qs * 3)"
    using entries by (intro exI [of _ ?r] conjI)
  then show ?thesis
    using pay(1-5) median_splits [OF pay(1)] by (simp add: Inr)
qed

end
