(* ===== verification/Client_Payment.thy ===== *)
theory Client_Payment
  imports Chunk_Client Single_Node
begin

text \<open>
  Quotes, payment and upload of the native client: \<open>quote.rs\<close>, \<open>payment.rs\<close>, the paid upload of
  one chunk in \<open>chunk.rs\<close> and the upload in waves of \<open>batch.rs\<close>, all under
  \<open>src/ant-client/ant-core/src/data/client\<close>.

  Results of futures that run at the same time arrive in the order given by a \<open>schedule\<close>: \<open>s n\<close> is
  the order in which \<open>n\<close> futures complete. The texts of failures are reduced to their number.
\<close>

section \<open>Completion orders\<close>

type_synonym schedule = "nat \<Rightarrow> nat list"

definition reorder :: "schedule \<Rightarrow> 'a list \<Rightarrow> 'a list" where
  "reorder s xs = map ((!) xs) (s (length xs))"

definition valid_schedule :: "schedule \<Rightarrow> bool" where
  "valid_schedule s \<longleftrightarrow> (\<forall>n. mset (s n) = mset [0..<n])"

lemma mset_reorder: "valid_schedule s \<Longrightarrow> mset (reorder s xs) = mset xs"
proof -
  assume "valid_schedule s"
  then have "mset (reorder s xs) = image_mset ((!) xs) (mset [0..<length xs])"
    by (simp add: reorder_def valid_schedule_def mset_map)
  also have "\<dots> = mset (map ((!) xs) [0..<length xs])" by (simp only: mset_map)
  finally show ?thesis by (simp only: map_nth)
qed

section \<open>Environment\<close>

record 'br upload_env =
  ue_net :: client_env
  ue_quote_from_slice :: "bytes \<Rightarrow> string + PaymentQuote"
  ue_calculate_price :: "QuotingMetrics \<Rightarrow> u256"
  ue_market_price :: "string \<Rightarrow> QuotingMetrics list \<Rightarrow> string + u256 list"
  ue_quote_hash :: "PaymentQuote \<Rightarrow> bytes"
  ue_rmp :: "'br rmp"
  ue_pick :: "nat \<Rightarrow> nat"
  ue_schedule :: schedule

section \<open>Quotes\<close>

definition quote_response_handler ::
  "'br upload_env \<Rightarrow> ChunkMessageBody \<Rightarrow> (data_error + PaymentQuote \<times> u256) option" where
  "quote_response_handler U b =
     (case b of
        QuoteResponse (QuoteSuccess quote already_stored) \<Rightarrow>
          if already_stored then Some (Inl AlreadyStored)
          else
            (case ue_quote_from_slice U quote of
               Inr q \<Rightarrow> Some (Inr (q, ue_calculate_price U (q_quoting_metrics q)))
             | Inl e \<Rightarrow> Some (Inl (SerializationErr (QuoteMalformed e))))
      | QuoteResponse (QuoteError e) \<Rightarrow> Some (Inl (ProtocolErr (RemoteFailure e)))
      | _ \<Rightarrow> None)"

definition request_quote ::
  "'br upload_env \<Rightarrow> xorname \<Rightarrow> u64 \<Rightarrow> u32 \<Rightarrow> u64 \<Rightarrow> peer \<Rightarrow> (data_error + PaymentQuote \<times> u256) option" where
  "request_quote U addr data_size data_type rid p =
     (case msg_encode (ce_codec (ue_net U))
             \<lparr>request_id = rid, body = QuoteRequest \<lparr>quote_address = addr, quote_data_size = data_size, quote_data_type = data_type\<rparr>\<rparr> of
        Inl e \<Rightarrow> None
      | Inr message_bytes \<Rightarrow>
          Some (send_and_await_chunk_response (ce_codec (ue_net U)) (p2p_send_message (ce_p2p (ue_net U))) (fst p)
                  message_bytes rid (quote_response_handler U) (\<lambda>e. NetworkErr (SendFailed e)) (TimeoutErr ResponseTimeout)))"

type_synonym 'r peer_result = "peer \<times> (data_error + 'r)"

text \<open>One future per peer; a request that cannot be encoded is skipped.\<close>

fun spawn_requests ::
  "(u64 \<Rightarrow> peer \<Rightarrow> (data_error + 'r) option) \<Rightarrow> peer list \<Rightarrow> 'c Client \<Rightarrow> 'r peer_result list \<times> 'c Client" where
  "spawn_requests ask [] cl = ([], cl)"
| "spawn_requests ask (p # ps) cl =
     (let (rid, cl1) = client_request_id cl; (rs, cl2) = spawn_requests ask ps cl1
      in (case ask rid p of None \<Rightarrow> rs | Some r \<Rightarrow> (p, r) # rs, cl2))"

type_synonym quoted = "peer \<times> PaymentQuote \<times> u256"

fun collect_quotes ::
  "(PaymentQuote \<times> u256) peer_result list \<Rightarrow> quoted list \<Rightarrow> nat \<Rightarrow> nat \<Rightarrow> data_error + quoted list" where
  "collect_quotes [] acc stored failed =
     (if CLOSE_GROUP_SIZE \<le> length acc then Inr acc
      else Inl (InsufficientPeers (GotQuotes (length acc) CLOSE_GROUP_SIZE failed)))"
| "collect_quotes ((p, r) # rs) acc stored failed =
     (case r of
        Inr qp \<Rightarrow> collect_quotes rs (acc @ [(p, qp)]) stored failed
      | Inl e \<Rightarrow>
          if e = AlreadyStored
          then
            (if CLOSE_GROUP_MAJORITY \<le> stored + 1 then Inl AlreadyStored
             else collect_quotes rs acc (stored + 1) failed)
          else collect_quotes rs acc stored (failed + 1))"

definition get_store_quotes ::
  "'br upload_env \<Rightarrow> 'c Client \<Rightarrow> xorname \<Rightarrow> u64 \<Rightarrow> u32 \<Rightarrow> (data_error + quoted list) \<times> 'c Client" where
  "get_store_quotes U cl addr data_size data_type =
     (case close_group_peers (ue_net U) cl addr of
        Inl e \<Rightarrow> (Inl e, cl)
      | Inr found \<Rightarrow>
          (let remote_peers = take CLOSE_GROUP_SIZE found
           in if length remote_peers < CLOSE_GROUP_SIZE
              then (Inl (InsufficientPeers (FoundPeers (length remote_peers) CLOSE_GROUP_SIZE)), cl)
              else
                (let (results, cl1) = spawn_requests (request_quote U addr data_size data_type) remote_peers cl
                 in (collect_quotes (reorder (ue_schedule U) results) [] 0 0, cl1))))"

section \<open>Payment for one chunk\<close>

definition CHUNK_DATA_TYPE :: u32 where "CHUNK_DATA_TYPE = 0"

text \<open>
  The part \<open>pay_for_storage\<close> and \<open>prepare_chunk_payment\<close> share: prices from the contract, the
  quotes of the proof and the payment.
\<close>

definition price_quotes ::
  "'br upload_env \<Rightarrow> 'c Client \<Rightarrow> quoted list \<Rightarrow> data_error + (peer_id \<times> PaymentQuote) list \<times> SingleNodePayment" where
  "price_quotes U cl qs =
     try_bind (require_evm_network cl) (\<lambda>evm_network.
     try_bind (map_err (\<lambda>e. PaymentErr (MarketPriceFailed e))
                 (ue_market_price U evm_network (map (\<lambda>(p, q, _). q_quoting_metrics q) qs))) (\<lambda>contract_prices.
     if length contract_prices \<noteq> length qs
     then Inl (PaymentErr (PriceCountMismatch (length contract_prices) (length qs)))
     else
       try_bind (map_err (\<lambda>e. PaymentErr PaymentNotCreated)
                   (from_quotes (ue_quote_hash U) (map (\<lambda>((p, q, _), price). (q, price)) (zip qs contract_prices))))
         (\<lambda>payment. Inr (map (\<lambda>(p, q, _). (fst p, q)) qs, payment))))"

definition pay_for_storage ::
  "'br upload_env \<Rightarrow> 'c Client \<Rightarrow> xorname \<Rightarrow> u64 \<Rightarrow> u32 \<Rightarrow> (data_error + bytes \<times> peer list) \<times> 'c Client" where
  "pay_for_storage U cl addr data_size data_type =
     (case require_wallet cl of
        Inl e \<Rightarrow> (Inl e, cl)
      | Inr wallet \<Rightarrow>
          (case get_store_quotes U cl addr data_size data_type of
             (Inl e, cl1) \<Rightarrow> (Inl e, cl1)
           | (Inr quotes_with_peers, cl1) \<Rightarrow>
               (case price_quotes U cl1 quotes_with_peers of
                  Inl e \<Rightarrow> (Inl e, cl1)
                | Inr (pq, payment) \<Rightarrow>
                    (let cl2 = cl1\<lparr>cl_payments := quote_payments payment # cl_payments cl1\<rparr>
                     in case pay_quotes (pay_for_quotes wallet) payment of
                          Inl e \<Rightarrow> (Inl (PaymentErr OnChainPaymentFailed), cl2)
                        | Inr txs \<Rightarrow>
                            (map_err (\<lambda>e. SerializationErr (ProofNotSerialized e))
                               (try_bind (serialize_single_node_proof (ue_rmp U)
                                            \<lparr>proof_of_payment = \<lparr>peer_quotes = pq\<rparr>, tx_hashes = txs\<rparr>)
                                  (\<lambda>proof_bytes. Inr (proof_bytes, map fst quotes_with_peers))), cl2)))))"

definition chunk_put :: "'br upload_env \<Rightarrow> 'c Client \<Rightarrow> bytes \<Rightarrow> (data_error + xorname) \<times> 'c Client" where
  "chunk_put U cl data =
     (let addr = compute_address (ce_codec (ue_net U)) data
      in case pay_for_storage U cl addr (word_of_nat (length data)) CHUNK_DATA_TYPE of
           (Inr (payment, peers), cl1) \<Rightarrow> chunk_put_to_close_group (ue_net U) (ue_pick U) cl1 data payment peers
         | (Inl AlreadyStored, cl1) \<Rightarrow> (Inr addr, cl1)
         | (Inl e, cl1) \<Rightarrow> (Inl e, cl1))"

section \<open>What the quotes decide\<close>

definition stored_reports :: "'r peer_result list \<Rightarrow> nat" where
  "stored_reports rs = length (filter (\<lambda>(p, r). r = Inl AlreadyStored) rs)"

definition quotes_received :: "'r peer_result list \<Rightarrow> nat" where
  "quotes_received rs = length (filter (\<lambda>(p, r). is_ok r) rs)"

lemma collect_quotes_result:
  "stored < CLOSE_GROUP_MAJORITY \<Longrightarrow>
   (case collect_quotes rs acc stored failed of
      Inl e \<Rightarrow>
        if CLOSE_GROUP_MAJORITY \<le> stored + stored_reports rs then e = AlreadyStored
        else length acc + quotes_received rs < CLOSE_GROUP_SIZE \<and>
             e = InsufficientPeers (GotQuotes (length acc + quotes_received rs) CLOSE_GROUP_SIZE
                   (failed + (length rs - quotes_received rs - stored_reports rs)))
    | Inr qs \<Rightarrow>
        stored + stored_reports rs < CLOSE_GROUP_MAJORITY \<and> CLOSE_GROUP_SIZE \<le> length acc + quotes_received rs \<and>
        qs = acc @ map (\<lambda>(p, r). (p, projr r)) (filter (\<lambda>(p, r). is_ok r) rs))"
proof (induction rs acc stored failed rule: collect_quotes.induct)
  case (1 acc stored failed)
  then show ?case by (simp add: stored_reports_def quotes_received_def)
next
  case (2 p r rs acc stored failed)
  have le: "quotes_received rs + stored_reports rs \<le> length rs"
    by (induction rs) (auto simp: quotes_received_def stored_reports_def)
  show ?case
  proof (cases r)
    case (Inr qp)
    then show ?thesis
      using "2.IH"(3) [OF Inr] "2.prems" by (auto simp: stored_reports_def quotes_received_def split: sum.splits)
  next
    case (Inl e)
    then show ?thesis
      using "2.IH"(1,2) [OF Inl] "2.prems" le
      by (cases "e = AlreadyStored")
        (auto simp: stored_reports_def quotes_received_def Suc_diff_le split: sum.splits if_splits)
  qed
qed

lemma reports_reorder:
  assumes "valid_schedule s"
  shows "stored_reports (reorder s rs) = stored_reports rs" "quotes_received (reorder s rs) = quotes_received rs"
    "length (reorder s rs) = length rs"
proof -
  note perm = mset_reorder [OF assms, of rs]
  show "stored_reports (reorder s rs) = stored_reports rs" "quotes_received (reorder s rs) = quotes_received rs"
    unfolding stored_reports_def quotes_received_def by (metis perm mset_filter size_mset)+
  show "length (reorder s rs) = length rs" by (metis perm size_mset)
qed

lemma spawn_requests_results:
  assumes "\<And>rid p. p \<in> set ps \<Longrightarrow> ask rid p = Some (r p)"
  shows "fst (spawn_requests ask ps cl) = map (\<lambda>p. (p, r p)) ps"
    and "cl_payments (snd (spawn_requests ask ps cl)) = cl_payments cl"
  using assms by (induction ps arbitrary: cl) (auto simp: split_def Let_def client_request_id_def)

lemma get_store_quotes_counts:
  assumes "valid_schedule (ue_schedule U)" "close_group_peers (ue_net U) cl addr = Inr peers"
    and "length peers = CLOSE_GROUP_SIZE"
    and "\<And>rid p. p \<in> set peers \<Longrightarrow> request_quote U addr sz ty rid p = Some (r p)"
  defines "results \<equiv> map (\<lambda>p. (p, r p)) peers"
  shows "get_store_quotes U cl addr sz ty =
      (collect_quotes (reorder (ue_schedule U) results) [] 0 0, snd (get_store_quotes U cl addr sz ty)) \<and>
    cl_payments (snd (get_store_quotes U cl addr sz ty)) = cl_payments cl"
  using assms(2,3) spawn_requests_results [of peers "request_quote U addr sz ty" r cl] assms(4)
  by (simp add: get_store_quotes_def results_def split_def Let_def)

text \<open>
  C37: what the answers to the quote requests mean for \<open>chunk_put\<close>, the upload of one chunk with a
  single-node payment. Let each of the five peers of the close group either report that it holds
  the chunk or answer with a quote, in any order. If at least three hold it, \<open>get_store_quotes\<close>
  reports \<open>AlreadyStored\<close> and \<open>chunk_put\<close> succeeds without a payment; if none does, every peer's quote
  is collected; but if one or two hold it, there are too few quotes, and this call of \<open>chunk_put\<close>
  fails before any payment, although the chunk is not stored on a majority and five peers are
  reachable. The statement is about one call with these answers: another call fails the same way as
  long as the answers stay like this, and the merkle upload, which asks for no store quotes, is not
  concerned.
\<close>

theorem partially_stored_chunk_put_fails:
  assumes "valid_schedule (ue_schedule U)" "cl_wallet cl \<noteq> None"
    and "close_group_peers (ue_net U) cl addr = Inr peers" "length peers = CLOSE_GROUP_SIZE"
    and "addr = compute_address (ce_codec (ue_net U)) data" "sz = word_of_nat (length data)"
    and "\<And>rid p. p \<in> set peers \<Longrightarrow>
           request_quote U addr sz CHUNK_DATA_TYPE rid p = Some (if has p then Inl AlreadyStored else Inr (quote p))"
  shows "let n = length (filter has peers)
         in if CLOSE_GROUP_MAJORITY \<le> n
            then fst (get_store_quotes U cl addr sz CHUNK_DATA_TYPE) = Inl AlreadyStored \<and>
                 fst (chunk_put U cl data) = Inr addr \<and> cl_payments (snd (chunk_put U cl data)) = cl_payments cl
            else if 0 < n
            then fst (get_store_quotes U cl addr sz CHUNK_DATA_TYPE) =
                   Inl (InsufficientPeers (GotQuotes (CLOSE_GROUP_SIZE - n) CLOSE_GROUP_SIZE 0)) \<and>
                 fst (chunk_put U cl data) = Inl (InsufficientPeers (GotQuotes (CLOSE_GROUP_SIZE - n) CLOSE_GROUP_SIZE 0)) \<and>
                 cl_payments (snd (chunk_put U cl data)) = cl_payments cl
            else \<exists>qs. fst (get_store_quotes U cl addr sz CHUNK_DATA_TYPE) = Inr qs \<and> mset (map fst qs) = mset peers"
proof -
  let ?r = "\<lambda>p. if has p then Inl AlreadyStored else Inr (quote p)"
  let ?rs = "map (\<lambda>p. (p, ?r p)) peers" and ?n = "length (filter has peers)"
  have counts: "stored_reports ?rs = ?n" "quotes_received ?rs = length (filter (\<lambda>p. \<not> has p) peers)"
    by (auto simp: stored_reports_def quotes_received_def filter_map comp_def intro: arg_cong [where f = length] filter_cong)
  have total: "quotes_received ?rs = CLOSE_GROUP_SIZE - ?n"
    using sum_length_filter_compl [of has peers] assms(4) by (simp add: counts)
  obtain cl1 where g: "get_store_quotes U cl addr sz CHUNK_DATA_TYPE =
      (collect_quotes (reorder (ue_schedule U) ?rs) [] 0 0, cl1)" "cl_payments cl1 = cl_payments cl"
    using get_store_quotes_counts [of U cl addr peers sz CHUNK_DATA_TYPE ?r] assms(1,3,4,7) by (metis (no_types, lifting))
  have maj: "0 < CLOSE_GROUP_MAJORITY" "CLOSE_GROUP_MAJORITY \<le> CLOSE_GROUP_SIZE"
    by (simp_all add: CLOSE_GROUP_MAJORITY_def CLOSE_GROUP_SIZE_def)
  note res = collect_quotes_result [OF maj(1), of "reorder (ue_schedule U) ?rs" "[]" 0,
      unfolded reports_reorder [OF assms(1)] counts(1) total]
  obtain w where w: "cl_wallet cl = Some w" using assms(2) by blast
  show ?thesis
  proof (cases "collect_quotes (reorder (ue_schedule U) ?rs) [] 0 0")
    case (Inl e)
    have "fst (chunk_put U cl data) = (if e = AlreadyStored then Inr addr else Inl e)"
      "cl_payments (snd (chunk_put U cl data)) = cl_payments cl"
      using g Inl w assms(5,6) by (cases e; simp add: chunk_put_def pay_for_storage_def require_wallet_def)+
    moreover have "fst (get_store_quotes U cl addr sz CHUNK_DATA_TYPE) = Inl e" using g(1) Inl by simp
    ultimately show ?thesis using res Inl assms(4) maj(1) by (auto simp: Let_def)
  next
    case (Inr qs)
    with res have "?n < CLOSE_GROUP_MAJORITY" "CLOSE_GROUP_SIZE \<le> CLOSE_GROUP_SIZE - ?n" by (simp_all add: Let_def)
    then have n: "?n = 0" using maj by linarith
    then have "\<not> has p" if "p \<in> set peers" for p using that by (auto simp: filter_empty_conv)
    moreover have "set (reorder (ue_schedule U) ?rs) = set ?rs" by (rule mset_eq_setD [OF mset_reorder [OF assms(1)]])
    ultimately have "filter (\<lambda>(p, r). is_ok r) (reorder (ue_schedule U) ?rs) = reorder (ue_schedule U) ?rs"
      by (auto simp: filter_id_conv)
    then have "map fst qs = map fst (reorder (ue_schedule U) ?rs)" using res Inr by (simp add: split_def)
    then have "mset (map fst qs) = image_mset fst (mset (reorder (ue_schedule U) ?rs))" by (metis mset_map)
    also have "\<dots> = mset (map fst ?rs)" by (simp only: mset_reorder [OF assms(1)] mset_map)
    finally have "mset (map fst qs) = mset peers" by (simp add: comp_def)
    then show ?thesis using g Inr n maj by simp
  qed
qed

definition stuck_env :: "unit upload_env" where
  "stuck_env =
     \<lparr>ue_net = \<lparr>ce_codec = \<lparr>to_stdvec = \<lambda>m. Inr (le_bytes 8 (unat (request_id m))),
                  from_postcard = \<lambda>b. Inr \<lparr>request_id = word_of_nat (le_value (tl b)), body = QuoteResponse (QuoteSuccess [] (hd b = 1))\<rparr>,
                  blake3 = \<lambda>b. b\<rparr>,
                ce_p2p = \<lparr>p2p_send_message = \<lambda>p t b. Inr [Message t (Some p) ((if p = [1] then 1 else 0) # b)],
                  find_closest_nodes = \<lambda>a n. Inr (map (\<lambda>i. \<lparr>dht_peer_id = [i], dht_addresses = []\<rparr>) [1, 2, 3, 4, 5])\<rparr>,
                ce_local_peer_id = [], ce_connected_peers = []\<rparr>,
      ue_quote_from_slice = \<lambda>b. Inr \<lparr>q_content = [], q_timestamp = 0, q_quoting_metrics = zero_quoting_metrics, q_pub_key = [],
        q_rewards_address = [], q_signature = []\<rparr>,
      ue_calculate_price = \<lambda>m. 3, ue_market_price = \<lambda>n ms. Inl [], ue_quote_hash = \<lambda>q. [],
      ue_rmp = \<lparr>proof_to_vec = \<lambda>p. Inl [], proof_from_slice = \<lambda>b. Inl [], merkle_to_vec = \<lambda>p. Inl [], merkle_from_slice = \<lambda>b. Inl [],
        quote_to_vec = \<lambda>q. Inl [], candidate_to_vec = \<lambda>c. Inl []\<rparr>,
      ue_pick = \<lambda>n. 0, ue_schedule = \<lambda>n. rev [0..<n]\<rparr>"

definition stuck_client :: "(xorname, bytes) lru_list Client" where
  "stuck_client = with_wallet (Client_from_node list_lru (ClientConfig_default None)) \<lparr>wallet_network = [], pay_for_quotes = \<lambda>ps. Inl []\<rparr>"

lemma partially_stored_chunk_put_fails_witness:
  "fst (chunk_put stuck_env stuck_client [7]) = Inl (InsufficientPeers (GotQuotes 4 5 0))"
proof -
  let ?q = "\<lparr>q_content = [], q_timestamp = 0, q_quoting_metrics = zero_quoting_metrics, q_pub_key = [],
        q_rewards_address = [], q_signature = []\<rparr>"
  have "request_quote stuck_env [7] (word_of_nat (length [7 :: byte])) CHUNK_DATA_TYPE rid p =
      Some (if fst p = [1] then Inl AlreadyStored else Inr (?q, 3))" for rid p
    by (simp add: request_quote_def stuck_env_def msg_encode_def msg_decode_def send_and_await_chunk_response_def
        quote_response_handler_def rid_round_trip MAX_WIRE_MESSAGE_SIZE_def)
  moreover have "close_group_peers (ue_net stuck_env) stuck_client [7] = Inr (map (\<lambda>i. ([i], [])) [1, 2, 3, 4, 5])"
    by (simp add: close_group_peers_def find_closest_peers_def stuck_env_def stuck_client_def with_wallet_def
        Client_from_node_def ClientConfig_default_def CLOSE_GROUP_SIZE_def)
  moreover have "valid_schedule (ue_schedule stuck_env)" "cl_wallet stuck_client \<noteq> None"
    "compute_address (ce_codec (ue_net stuck_env)) [7] = [7]"
    by (simp_all add: stuck_env_def valid_schedule_def stuck_client_def with_wallet_def compute_address_def)
  ultimately show ?thesis
    using partially_stored_chunk_put_fails [of stuck_env stuck_client "[7]" "map (\<lambda>i. ([i], [])) [1, 2, 3, 4, 5]" "[7]" _
        "\<lambda>p. fst p = [1]" "\<lambda>p. (?q, 3)"]
    by (simp add: CLOSE_GROUP_SIZE_def CLOSE_GROUP_MAJORITY_def)
qed

end
