(* ===== verification/Batch_Upload.thy ===== *)
theory Batch_Upload
  imports Client_Payment
begin

text \<open>
  Uploads in waves: \<open>src/ant-client/ant-core/src/data/client/batch.rs\<close>. A wave of up to 64 chunks
  is quoted, paid with one call of the wallet and stored, the storing of a wave at the same time as
  the quoting of the next. The futures of a wave complete in the order of the schedule; their
  requests draw their identifiers in the order of the chunks.
\<close>

section \<open>Prepared and paid chunks\<close>

definition PAYMENT_WAVE_SIZE :: nat where "PAYMENT_WAVE_SIZE = 64"

record PreparedChunk =
  pc_content :: bytes
  pc_address :: xorname
  pc_quoted_peers :: "peer list"
  pc_payment :: SingleNodePayment
  pc_peer_quotes :: "(peer_id \<times> PaymentQuote) list"

record PaidChunk =
  pd_content :: bytes
  pd_address :: xorname
  pd_quoted_peers :: "peer list"
  pd_proof_bytes :: bytes

record PaymentIntent =
  pi_payments :: "quote_payment list"
  pi_total_amount :: u256

definition from_prepared_chunks :: "PreparedChunk list \<Rightarrow> PaymentIntent" where
  "from_prepared_chunks prepared =
     (let infos = filter (\<lambda>q. qi_amount q \<noteq> 0) (concat (map (\<lambda>c. quotes (pc_payment c)) prepared))
      in \<lparr>pi_payments = map (\<lambda>q. (qi_quote_hash q, qi_rewards_address q, qi_amount q)) infos,
          pi_total_amount = sum_list (map qi_amount infos)\<rparr>)"

definition build_paid_chunk ::
  "'br rmp \<Rightarrow> (bytes \<rightharpoonup> bytes) \<Rightarrow> PreparedChunk \<Rightarrow> data_error + PaidChunk" where
  "build_paid_chunk R tx_hash_map c =
     try_bind (traverse (\<lambda>q. ok_or (PaymentErr (MissingTxHash (qi_quote_hash q))) (tx_hash_map (qi_quote_hash q)))
                 (filter (\<lambda>q. qi_amount q \<noteq> 0) (quotes (pc_payment c)))) (\<lambda>txs.
     try_bind (map_err (\<lambda>e. SerializationErr (ProofNotSerialized e))
                 (serialize_single_node_proof R \<lparr>proof_of_payment = \<lparr>peer_quotes = pc_peer_quotes c\<rparr>, tx_hashes = txs\<rparr>))
       (\<lambda>proof_bytes.
          Inr \<lparr>pd_content = pc_content c, pd_address = pc_address c, pd_quoted_peers = pc_quoted_peers c,
               pd_proof_bytes = proof_bytes\<rparr>))"

definition build_paid_chunks ::
  "'br rmp \<Rightarrow> PreparedChunk list \<Rightarrow> (bytes \<rightharpoonup> bytes) \<Rightarrow> data_error + PaidChunk list" where
  "build_paid_chunks R prepared tx_hash_map = traverse (build_paid_chunk R tx_hash_map) prepared"

definition finalize_batch_payment ::
  "'br rmp \<Rightarrow> PreparedChunk list \<Rightarrow> (bytes \<rightharpoonup> bytes) \<Rightarrow> data_error + PaidChunk list" where
  "finalize_batch_payment R prepared tx_hash_map = build_paid_chunks R prepared tx_hash_map"

definition prepare_chunk_payment ::
  "'br upload_env \<Rightarrow> 'c Client \<Rightarrow> bytes \<Rightarrow> (data_error + PreparedChunk option) \<times> 'c Client" where
  "prepare_chunk_payment U cl data =
     (let addr = compute_address (ce_codec (ue_net U)) data
      in case get_store_quotes U cl addr (word_of_nat (length data)) DATA_TYPE_CHUNK of
           (Inl e, cl1) \<Rightarrow> (if e = AlreadyStored then Inr None else Inl e, cl1)
         | (Inr quotes_with_peers, cl1) \<Rightarrow>
             (try_bind (price_quotes U cl1 quotes_with_peers) (\<lambda>(pq, payment).
                Inr (Some \<lparr>pc_content = data, pc_address = addr, pc_quoted_peers = map fst quotes_with_peers,
                           pc_payment = payment, pc_peer_quotes = pq\<rparr>)), cl1))"

definition batch_pay ::
  "'br upload_env \<Rightarrow> 'c Client \<Rightarrow> PreparedChunk list \<Rightarrow> (data_error + PaidChunk list) \<times> 'c Client" where
  "batch_pay U cl prepared =
     (if prepared = [] then (Inr [], cl)
      else
        (case require_wallet cl of
           Inl e \<Rightarrow> (Inl e, cl)
         | Inr wallet \<Rightarrow>
             (let all_payments = concat (map (\<lambda>c. quote_payments (pc_payment c)) prepared);
                  cl1 = cl\<lparr>cl_payments := all_payments # cl_payments cl\<rparr>
              in (try_bind (map_err (\<lambda>e. PaymentErr OnChainPaymentFailed) (pay_for_quotes wallet all_payments)) (\<lambda>tx_hash_map.
                  build_paid_chunks (ue_rmp U) prepared tx_hash_map), cl1))))"

section \<open>Waves\<close>

text \<open>Running one future per item: the client state passes through them in order.\<close>

fun run_all :: "('c \<Rightarrow> 'a \<Rightarrow> 'r \<times> 'c) \<Rightarrow> 'c \<Rightarrow> 'a list \<Rightarrow> 'r list \<times> 'c" where
  "run_all f s [] = ([], s)"
| "run_all f s (x # xs) = (let (r, s1) = f s x; (rs, s2) = run_all f s1 xs in (r # rs, s2))"

definition prepare_wave ::
  "'br upload_env \<Rightarrow> 'c Client \<Rightarrow> bytes list \<Rightarrow> (data_error + PreparedChunk list \<times> xorname list) \<times> 'c Client" where
  "prepare_wave U cl data =
     (let (results, cl1) = run_all (\<lambda>c d. let (r, c') = prepare_chunk_payment U c d
                                            in ((compute_address (ce_codec (ue_net U)) d, r), c')) cl data
      in (try_bind (traverse (\<lambda>(a, r). try_bind r (\<lambda>opt. Inr (a, opt))) (reorder (ue_schedule U) results)) (\<lambda>rs.
          Inr (List.map_filter snd rs, map fst (filter (\<lambda>(a, opt). opt = None) rs))), cl1))"

definition store_paid_chunks ::
  "'br upload_env \<Rightarrow> 'c Client \<Rightarrow> PaidChunk list \<Rightarrow> (data_error + xorname list) \<times> 'c Client" where
  "store_paid_chunks U cl paid =
     (let (results, cl1) = run_all (\<lambda>c p. chunk_put_to_close_group (ue_net U) (ue_pick U) c (pd_content p) (pd_proof_bytes p)
                                            (pd_quoted_peers p)) cl paid
      in (traverse id (reorder (ue_schedule U) results), cl1))"

fun dedup_chunks :: "postcard \<Rightarrow> bytes list \<Rightarrow> xorname set \<Rightarrow> bytes list \<times> xorname list" where
  "dedup_chunks P [] seen = ([], [])"
| "dedup_chunks P (c # cs) seen =
     (let a = compute_address P c
      in if a \<notin> seen
         then (let (u, d) = dedup_chunks P cs (insert a seen) in (c # u, d))
         else (let (u, d) = dedup_chunks P cs seen in (u, a # d)))"

fun slice_chunks :: "nat \<Rightarrow> 'a list \<Rightarrow> 'a list list" where
  "slice_chunks n xs = (if n = 0 \<or> xs = [] then [] else take n xs # slice_chunks n (drop n xs))"

declare slice_chunks.simps [simp del]

fun wave_loop ::
  "'br upload_env \<Rightarrow> bytes list list \<Rightarrow> PaidChunk list option \<Rightarrow> xorname list \<Rightarrow> 'c Client \<Rightarrow>
   (data_error + xorname list) \<times> 'c Client" where
  "wave_loop U [] None addrs cl = (Inr addrs, cl)"
| "wave_loop U [] (Some paid) addrs cl =
     (let (r, cl1) = store_paid_chunks U cl paid in (try_bind r (\<lambda>stored. Inr (addrs @ stored)), cl1))"
| "wave_loop U (w # ws) pending addrs cl =
     (let (prepare_result, cl1) = prepare_wave U cl w;
          (store_result, cl2) =
            (case pending of None \<Rightarrow> (Inr [], cl1) | Some paid \<Rightarrow> store_paid_chunks U cl1 paid)
      in case store_result of
           Inl e \<Rightarrow> (Inl e, cl2)
         | Inr stored \<Rightarrow>
             (case prepare_result of
                Inl e \<Rightarrow> (Inl e, cl2)
              | Inr (prepared, already) \<Rightarrow>
                  (if prepared = [] then wave_loop U ws None (addrs @ stored @ already) cl2
                   else
                     (case batch_pay U cl2 prepared of
                        (Inl e, cl3) \<Rightarrow> (Inl e, cl3)
                      | (Inr paid, cl3) \<Rightarrow> wave_loop U ws (Some paid) (addrs @ stored @ already) cl3))))"

declare wave_loop.simps(3) [simp del]

definition batch_upload_chunks ::
  "'br upload_env \<Rightarrow> 'c Client \<Rightarrow> bytes list \<Rightarrow> (data_error + xorname list) \<times> 'c Client" where
  "batch_upload_chunks U cl chunks =
     (if chunks = [] then (Inr [], cl)
      else
        (let (unique_chunks, duplicates) = dedup_chunks (ce_codec (ue_net U)) chunks {}
         in wave_loop U (slice_chunks PAYMENT_WAVE_SIZE unique_chunks) None duplicates cl))"

section \<open>Every chunk is accounted for\<close>

lemma put_loop_address: "fst (put_loop put_one pick addr running fallback s f cl) = Inr a \<Longrightarrow> a = addr"
proof (induction put_one pick addr running fallback s f cl rule: put_loop.induct)
  case (1 put_one pick addr running fallback s f cl)
  show ?case
    using "1.prems" "1.IH"
    by (subst (asm) put_loop.simps) (fastforce simp: Let_def split: if_splits sum.splits list.splits prod.splits)
qed

lemma put_loop_payments: "cl_payments (snd (put_loop put_one pick addr running fallback s f cl)) = cl_payments cl"
proof (induction put_one pick addr running fallback s f cl rule: put_loop.induct)
  case (1 put_one pick addr running fallback s f cl)
  show ?case
    using "1.IH"
    by (subst put_loop.simps)
      (auto simp: Let_def client_request_id_def split: sum.splits list.splits)
qed

lemma spawn_puts_payments: "cl_payments (snd (spawn_puts put_one peers cl)) = cl_payments cl"
proof -
  let ?f = "\<lambda>p (rs, c). let (rid, c') = client_request_id c in (rs @ [put_one rid p], c')"
  have "cl_payments (snd (fold ?f peers (rs, c))) = cl_payments c" for rs and c :: "'a Client"
    by (induction peers arbitrary: rs c) (auto simp: client_request_id_def)
  then show ?thesis by (simp add: spawn_puts_def)
qed

lemma close_group_put_effect:
  "cl_payments (snd (chunk_put_to_close_group N pick cl data payment peers)) = cl_payments cl"
  "fst (chunk_put_to_close_group N pick cl data payment peers) = Inr a \<Longrightarrow> a = compute_address (ce_codec N) data"
  by (auto simp: chunk_put_to_close_group_def Let_def split_def put_loop_payments spawn_puts_payments dest: put_loop_address)

lemma spawn_requests_payments: "cl_payments (snd (spawn_requests ask ps cl)) = cl_payments cl"
  by (induction ps arbitrary: cl) (auto simp: Let_def split_def client_request_id_def)

lemma get_store_quotes_payments: "cl_payments (snd (get_store_quotes U cl addr sz ty)) = cl_payments cl"
  by (simp add: get_store_quotes_def Let_def split_def spawn_requests_payments split: sum.splits)

lemma prepare_chunk_effect:
  "cl_payments (snd (prepare_chunk_payment U cl data)) = cl_payments cl"
  "fst (prepare_chunk_payment U cl data) = Inr (Some p) \<Longrightarrow>
     pc_address p = compute_address (ce_codec (ue_net U)) data \<and> pc_content p = data"
proof -
  obtain r cl1 where g: "get_store_quotes U cl (compute_address (ce_codec (ue_net U)) data) (word_of_nat (length data)) DATA_TYPE_CHUNK = (r, cl1)"
    by fastforce
  then have "cl_payments cl1 = cl_payments cl" using get_store_quotes_payments [of U cl] by (metis snd_conv)
  then show "cl_payments (snd (prepare_chunk_payment U cl data)) = cl_payments cl"
    by (simp add: prepare_chunk_payment_def g Let_def split: sum.splits)
  show "fst (prepare_chunk_payment U cl data) = Inr (Some p) \<Longrightarrow>
     pc_address p = compute_address (ce_codec (ue_net U)) data \<and> pc_content p = data"
    by (auto simp: prepare_chunk_payment_def g Let_def result_simps split: sum.splits if_splits)
qed

lemma run_all_inv:
  assumes "\<And>s x. I s \<Longrightarrow> I (snd (f s x)) \<and> R x (fst (f s x))" "I s"
  shows "I (snd (run_all f s xs)) \<and> list_all2 R xs (fst (run_all f s xs))"
  using assms(2)
proof (induction xs arbitrary: s)
  case (Cons x xs)
  then show ?case using assms(1) [of s x] Cons.IH [of "snd (f s x)"] by (simp add: Let_def split_def)
qed simp

lemma traverse_reorder:
  assumes "traverse f (reorder s xs) = Inr ys" "valid_schedule s"
  shows "\<exists>zs. list_all2 (\<lambda>x y. f x = Inr y) xs zs \<and> mset zs = mset ys"
proof -
  have "list_all2 (\<lambda>x y. f x = Inr y) (reorder s xs) ys" using assms(1) by (simp add: traverse_Inr_iff)
  from list_all2_reorder_left_invariance [OF this mset_reorder [OF assms(2), symmetric]] show ?thesis by blast
qed

lemma list_all2_mset_map:
  assumes "list_all2 R xs ys" "\<And>x y. R x y \<Longrightarrow> g y = h x"
  shows "mset (map g ys) = mset (map h xs)"
proof -
  have "map g ys = map h xs" using assms by (induction rule: list_all2_induct) auto
  then show ?thesis by (rule arg_cong)
qed

lemma concat_slice_chunks: "0 < n \<Longrightarrow> concat (slice_chunks n xs) = xs"
  by (induction n xs rule: slice_chunks.induct) (subst slice_chunks.simps, auto)

lemma length_slice_chunks: "0 < n \<Longrightarrow> length (slice_chunks n xs) = (length xs + n - 1) div n"
proof (induction n xs rule: slice_chunks.induct)
  case (1 n xs)
  show ?case
  proof (cases "xs = []")
    case True
    then show ?thesis using 1 by (subst slice_chunks.simps) simp
  next
    case False
    then have "length (slice_chunks n xs) = Suc ((length xs - n + n - 1) div n)"
      using 1 by (subst slice_chunks.simps) simp
    also have "\<dots> = (length xs + n - 1) div n"
    proof (cases "length xs \<le> n")
      case True
      then have "(length xs + n - 1) div n = 1"
        using False 1(2) by (intro div_nat_eqI) (cases xs, auto)
      then show ?thesis using True 1(2) by simp
    next
      case False
      then have "length xs + n - 1 = (length xs - n + n - 1) + n" using 1(2) by simp
      then show ?thesis using 1(2) by (metis div_add_self2 Suc_eq_plus1 not_less_zero)
    qed
    finally show ?thesis .
  qed
qed

lemma dedup_chunks_mset:
  "mset (map (compute_address P) (fst (dedup_chunks P cs seen))) + mset (snd (dedup_chunks P cs seen)) =
   mset (map (compute_address P) cs)"
  "length (fst (dedup_chunks P cs seen)) \<le> length cs"
  by (induction P cs seen rule: dedup_chunks.induct) (auto simp: Let_def split_def)

lemma prepare_wave_effect:
  assumes "valid_schedule (ue_schedule U)"
  shows "cl_payments (snd (prepare_wave U cl w)) = cl_payments cl"
    and "fst (prepare_wave U cl w) = Inr (prepared, already) \<Longrightarrow>
      mset (map (compute_address (ce_codec (ue_net U)) \<circ> pc_content) prepared) + mset already =
      mset (map (compute_address (ce_codec (ue_net U))) w)"
proof -
  let ?A = "compute_address (ce_codec (ue_net U))"
  let ?f = "\<lambda>c d. let (r, c') = prepare_chunk_payment U c d in ((?A d, r), c')"
  let ?ok = "\<lambda>d (a, r). a = ?A d \<and> (\<forall>p. r = Inr (Some p) \<longrightarrow> ?A (pc_content p) = ?A d)"
  have "cl_payments c = cl_payments cl \<Longrightarrow> cl_payments (snd (?f c d)) = cl_payments cl \<and> ?ok d (fst (?f c d))" for c d
    using prepare_chunk_effect [of U c d] by (auto simp: Let_def split_def)
  from run_all_inv [of "\<lambda>c. cl_payments c = cl_payments cl" ?f ?ok cl w, OF this]
  have inv: "cl_payments (snd (run_all ?f cl w)) = cl_payments cl" "list_all2 ?ok w (fst (run_all ?f cl w))" by auto
  show "cl_payments (snd (prepare_wave U cl w)) = cl_payments cl"
    using inv(1) by (simp add: prepare_wave_def split_def Let_def)
  assume "fst (prepare_wave U cl w) = Inr (prepared, already)"
  then obtain rs where rs: "traverse (\<lambda>(a, r). try_bind r (\<lambda>opt. Inr (a, opt))) (reorder (ue_schedule U) (fst (run_all ?f cl w))) = Inr rs"
      "prepared = List.map_filter snd rs" "already = map fst (filter (\<lambda>(a, opt). opt = None) rs)"
    by (auto simp: prepare_wave_def split_def Let_def result_simps)
  from traverse_reorder [OF rs(1) assms] obtain zs where
    zs: "list_all2 (\<lambda>x y. (case x of (a, r) \<Rightarrow> try_bind r (\<lambda>opt. Inr (a, opt))) = Inr y) (fst (run_all ?f cl w)) zs" "mset zs = mset rs"
    by blast
  have addr: "list_all2 (\<lambda>d (a, opt). a = ?A d \<and> (\<forall>p. opt = Some p \<longrightarrow> ?A (pc_content p) = ?A d)) w zs"
    by (rule list_all2_trans [OF _ inv(2) zs(1)]) (auto simp: result_simps)
  let ?g = "\<lambda>(a, opt). case opt of None \<Rightarrow> a | Some p \<Rightarrow> ?A (pc_content p)"
  have "mset (map ?g zs) = mset (map ?A w)"
    using addr by (rule list_all2_mset_map) (auto split: option.splits)
  then have "image_mset ?g (mset rs) = mset (map ?A w)" by (simp add: zs(2) [symmetric])
  moreover have "image_mset ?g (mset rs) = mset (map (?A \<circ> pc_content) prepared) + mset already"
    unfolding rs(2,3) by (induction rs) (auto simp: List.map_filter_simps split: option.splits)
  ultimately show "mset (map (?A \<circ> pc_content) prepared) + mset already = mset (map ?A w)" by simp
qed

lemma store_paid_effect:
  assumes "valid_schedule (ue_schedule U)"
  shows "cl_payments (snd (store_paid_chunks U cl paid)) = cl_payments cl"
    and "fst (store_paid_chunks U cl paid) = Inr stored \<Longrightarrow>
      mset stored = mset (map (compute_address (ce_codec (ue_net U)) \<circ> pd_content) paid)"
proof -
  let ?A = "compute_address (ce_codec (ue_net U))"
  let ?f = "\<lambda>c p. chunk_put_to_close_group (ue_net U) (ue_pick U) c (pd_content p) (pd_proof_bytes p) (pd_quoted_peers p)"
  have "cl_payments c = cl_payments cl \<Longrightarrow> cl_payments (snd (?f c p)) = cl_payments cl \<and>
      (\<forall>a. fst (?f c p) = Inr a \<longrightarrow> a = ?A (pd_content p))" for c p
    using close_group_put_effect [of "ue_net U" "ue_pick U" c] by auto
  from run_all_inv [of "\<lambda>c. cl_payments c = cl_payments cl" ?f "\<lambda>p r. \<forall>a. r = Inr a \<longrightarrow> a = ?A (pd_content p)" cl paid, OF this]
  have inv: "cl_payments (snd (run_all ?f cl paid)) = cl_payments cl"
    "list_all2 (\<lambda>p r. \<forall>a. r = Inr a \<longrightarrow> a = ?A (pd_content p)) paid (fst (run_all ?f cl paid))" by auto
  show "cl_payments (snd (store_paid_chunks U cl paid)) = cl_payments cl"
    using inv(1) by (simp add: store_paid_chunks_def split_def Let_def)
  assume "fst (store_paid_chunks U cl paid) = Inr stored"
  then have "traverse id (reorder (ue_schedule U) (fst (run_all ?f cl paid))) = Inr stored"
    by (simp add: store_paid_chunks_def split_def Let_def)
  from traverse_reorder [OF this assms] obtain zs where
    zs: "list_all2 (\<lambda>x y. id x = Inr y) (fst (run_all ?f cl paid)) zs" "mset zs = mset stored" by blast
  have "list_all2 (\<lambda>p y. y = ?A (pd_content p)) paid zs" by (rule list_all2_trans [OF _ inv(2) zs(1)]) auto
  then have "mset (map id zs) = mset (map (?A \<circ> pd_content) paid)" by (rule list_all2_mset_map) simp
  then show "mset stored = mset (map (?A \<circ> pd_content) paid)" by (simp add: zs(2))
qed

lemma build_paid_contents:
  "build_paid_chunks R prepared txs = Inr paid \<Longrightarrow> map pd_content paid = map pc_content prepared"
proof -
  assume "build_paid_chunks R prepared txs = Inr paid"
  then have "list_all2 (\<lambda>c p. build_paid_chunk R txs c = Inr p) prepared paid"
    by (simp add: build_paid_chunks_def traverse_Inr_iff)
  then show ?thesis
    by (induction rule: list_all2_induct) (auto simp: build_paid_chunk_def result_simps)
qed

lemma batch_pay_effect:
  "length (cl_payments (snd (batch_pay U cl prepared))) \<le> length (cl_payments cl) + 1"
  "fst (batch_pay U cl prepared) = Inr paid \<Longrightarrow> map pd_content paid = map pc_content prepared"
  by (auto simp: batch_pay_def Let_def result_simps dest: build_paid_contents split: sum.splits if_splits)

definition pending_chunks :: "PaidChunk list option \<Rightarrow> bytes list" where
  "pending_chunks pending = (case pending of None \<Rightarrow> [] | Some paid \<Rightarrow> map pd_content paid)"

lemma wave_loop_effect:
  assumes "valid_schedule (ue_schedule U)"
  shows "length (cl_payments (snd (wave_loop U ws pending addrs cl))) \<le> length (cl_payments cl) + length ws \<and>
    (\<forall>rs. fst (wave_loop U ws pending addrs cl) = Inr rs \<longrightarrow>
      mset rs = mset addrs + mset (map (compute_address (ce_codec (ue_net U))) (pending_chunks pending @ concat ws)))"
proof (induction ws arbitrary: pending addrs cl)
  case Nil
  show ?case
    using store_paid_effect [OF assms, of cl "the pending"]
    by (cases pending) (auto simp: pending_chunks_def split_def Let_def result_simps)
next
  case (Cons w ws)
  let ?A = "compute_address (ce_codec (ue_net U))"
  obtain pr cl1 where p: "prepare_wave U cl w = (pr, cl1)" by fastforce
  obtain sr cl2 where s: "(case pending of None \<Rightarrow> (Inr [], cl1) | Some paid \<Rightarrow> store_paid_chunks U cl1 paid) = (sr, cl2)"
    by fastforce
  have "cl_payments cl1 = cl_payments cl" using prepare_wave_effect(1) [OF assms, of cl w] p by simp
  then have pay2: "cl_payments cl2 = cl_payments cl"
    using s store_paid_effect(1) [OF assms, of cl1] by (cases pending) (auto, metis snd_conv)
  have stored: "sr = Inr st \<Longrightarrow> mset st = mset (map ?A (pending_chunks pending))" for st
    using s store_paid_effect(2) [OF assms, of cl1] by (cases pending) (fastforce simp: pending_chunks_def)+
  have prep: "pr = Inr (prepared, already) \<Longrightarrow>
      mset (map ?A w) = mset (map ?A (map pc_content prepared)) + mset already" for prepared already
    using prepare_wave_effect(2) [OF assms, of cl w] p by simp
  note step = wave_loop.simps(3) [of U w ws pending addrs cl, unfolded p Let_def prod.case s]
  show ?case
  proof (cases "\<exists>st prepared already. sr = Inr st \<and> pr = Inr (prepared, already)")
    case False
    then show ?thesis using pay2 by (auto simp: step split: sum.splits)
  next
    case True
    then obtain st prepared already where r: "sr = Inr st" "pr = Inr (prepared, already)" by blast
    show ?thesis
    proof (cases "prepared = []")
      case True
      then show ?thesis
        using Cons.IH [of None "addrs @ st @ already" cl2] pay2 stored [OF r(1)] prep [OF r(2)]
        by (auto simp: step r pending_chunks_def)
    next
      case False
      obtain br cl3 where b: "batch_pay U cl2 prepared = (br, cl3)" by fastforce
      have pay3: "length (cl_payments cl3) \<le> length (cl_payments cl) + 1"
        using batch_pay_effect(1) [of U cl2 prepared] b pay2 by simp
      show ?thesis
      proof (cases br)
        case (Inl e)
        then show ?thesis using pay3 False by (auto simp: step r b)
      next
        case (Inr paid)
        have "map pd_content paid = map pc_content prepared" using batch_pay_effect(2) [of U cl2 prepared] b Inr by simp
        then show ?thesis
          using Cons.IH [of "Some paid" "addrs @ st @ already" cl3] pay3 stored [OF r(1)] prep [OF r(2)] False Inr
          by (simp add: step r b pending_chunks_def)
      qed
    qed
  qed
qed

text \<open>
  C18: an upload that succeeds has accounted for every chunk. When \<open>batch_upload_chunks\<close> returns
  addresses, they are exactly the addresses of the given chunks, as often as the chunks occur, for
  every order in which the concurrent quotes and PUTs complete; and it has called the wallet at most
  once for every 64 chunks, also when it fails.
\<close>

theorem batch_upload_accounts_for_all:
  assumes "valid_schedule (ue_schedule U)"
  shows "length (cl_payments (snd (batch_upload_chunks U cl chunks))) \<le> length (cl_payments cl) + (length chunks + 63) div 64 \<and>
         (\<forall>addrs. fst (batch_upload_chunks U cl chunks) = Inr addrs \<longrightarrow>
            mset addrs = mset (map (compute_address (ce_codec (ue_net U))) chunks))"
proof (cases "chunks = []")
  case False
  let ?P = "ce_codec (ue_net U)"
  obtain u d where ud: "dedup_chunks ?P chunks {} = (u, d)" by fastforce
  have dd: "mset (map (compute_address ?P) u) + mset d = mset (map (compute_address ?P) chunks)" "length u \<le> length chunks"
    using dedup_chunks_mset [of ?P chunks "{}"] ud by simp_all
  have up: "batch_upload_chunks U cl chunks = wave_loop U (slice_chunks 64 u) None d cl"
    using False by (simp add: batch_upload_chunks_def ud PAYMENT_WAVE_SIZE_def)
  have "length (slice_chunks 64 u) \<le> (length chunks + 63) div 64"
    using dd(2) by (simp add: length_slice_chunks div_le_mono)
  moreover have "concat (slice_chunks 64 u) = u" by (simp add: concat_slice_chunks)
  ultimately show ?thesis
    using wave_loop_effect [OF assms, of "slice_chunks 64 u" None d cl] dd(1)
    by (auto simp: up pending_chunks_def add.commute intro: order_trans)
qed (simp add: batch_upload_chunks_def)

section \<open>An upload that succeeds\<close>

text \<open>
  A network whose five peers hold nothing, quote every chunk and accept every PUT: a message to a
  peer is echoed, with the kind of the request as its first byte and the request identifier behind.
\<close>

definition accepting_quote :: PaymentQuote where
  "accepting_quote =
     \<lparr>q_content = [], q_timestamp = 0, q_quoting_metrics = zero_quoting_metrics, q_pub_key = [],
      q_rewards_address = [], q_signature = []\<rparr>"

definition accepting_peers :: "peer list" where
  "accepting_peers = map (\<lambda>i. ([i], [])) [1, 2, 3, 4, 5]"

definition accepting_env :: "unit upload_env" where
  "accepting_env =
     \<lparr>ue_net = \<lparr>ce_codec = \<lparr>to_stdvec = \<lambda>m. Inr ((case body m of QuoteRequest q \<Rightarrow> 1 | _ \<Rightarrow> 0) # le_bytes 8 (unat (request_id m))),
                  from_postcard = \<lambda>b. Inr \<lparr>request_id = word_of_nat (le_value (tl b)),
                    body = (if hd b = 1 then QuoteResponse (QuoteSuccess [] False) else PutResponse (PutSuccess []))\<rparr>,
                  blake3 = \<lambda>b. b\<rparr>,
                ce_p2p = \<lparr>p2p_send_message = \<lambda>p t b. Inr [Message t (Some p) b],
                  find_closest_nodes = \<lambda>a n. Inr (map (\<lambda>(p, as). \<lparr>dht_peer_id = p, dht_addresses = as\<rparr>) accepting_peers)\<rparr>,
                ce_local_peer_id = [], ce_connected_peers = []\<rparr>,
      ue_quote_from_slice = \<lambda>b. Inr accepting_quote, ue_calculate_price = \<lambda>m. 3,
      ue_market_price = \<lambda>n ms. Inr [5, 4, 3, 2, 1], ue_quote_hash = \<lambda>q. [],
      ue_rmp = \<lparr>proof_to_vec = \<lambda>p. Inr [], proof_from_slice = \<lambda>b. Inl [], merkle_to_vec = \<lambda>p. Inl [], merkle_from_slice = \<lambda>b. Inl [],
        quote_to_vec = \<lambda>q. Inl [], candidate_to_vec = \<lambda>c. Inl []\<rparr>,
      ue_pick = \<lambda>n. 0, ue_schedule = \<lambda>n. rev [0..<n]\<rparr>"

definition accepting_client :: "(xorname, bytes) lru_list Client" where
  "accepting_client = with_wallet (Client_from_node list_lru (ClientConfig_default None))
     \<lparr>wallet_network = [], pay_for_quotes = \<lambda>ps. Inr (\<lambda>h. Some [])\<rparr>"

lemma spawn_requests_client:
  "\<exists>n. snd (spawn_requests ask ps cl) = cl\<lparr>cl_next_request_id := n\<rparr>"
proof (induction ps arbitrary: cl)
  case Nil
  then show ?case by (metis Client.surjective Client.update_convs(5) snd_conv spawn_requests.simps(1))
next
  case (Cons p ps)
  then show ?case
    using Cons [of "snd (client_request_id cl)"] by (auto simp: Let_def split_def client_request_id_def)
qed

lemma accepting_group:
  "close_group_size (cl_config cl) = 5 \<Longrightarrow> close_group_peers (ue_net accepting_env) cl a = Inr accepting_peers"
  by (simp add: close_group_peers_def find_closest_peers_def accepting_env_def accepting_peers_def)

lemma accepting_request:
  "request_quote accepting_env a sz ty rid p = Some (Inr (accepting_quote, 3))"
  by (simp add: request_quote_def accepting_env_def msg_encode_def msg_decode_def send_and_await_chunk_response_def
      quote_response_handler_def rid_round_trip MAX_WIRE_MESSAGE_SIZE_def)

lemma accepting_put:
  "is_ok (chunk_put_with_proof (ue_net accepting_env) rid data payment p)"
  by (simp add: chunk_put_with_proof_def accepting_env_def msg_encode_def msg_decode_def send_and_await_chunk_response_def
      put_response_handler_def rid_round_trip MAX_WIRE_MESSAGE_SIZE_def is_ok_iff)

lemma accepting_quotes:
  assumes "close_group_size (cl_config cl) = 5"
  shows "\<exists>n. get_store_quotes accepting_env cl a sz ty =
    (Inr (map (\<lambda>p. (p, accepting_quote, 3)) (rev accepting_peers)), cl\<lparr>cl_next_request_id := n\<rparr>)"
proof -
  let ?ask = "request_quote accepting_env a sz ty"
  have r: "fst (spawn_requests ?ask accepting_peers cl) = map (\<lambda>p. (p, Inr (accepting_quote, 3))) accepting_peers"
    by (rule spawn_requests_results) (rule accepting_request)
  obtain n where n: "snd (spawn_requests ?ask accepting_peers cl) = cl\<lparr>cl_next_request_id := n\<rparr>"
    using spawn_requests_client by blast
  have s: "spawn_requests ?ask accepting_peers cl =
      (map (\<lambda>p. (p, Inr (accepting_quote, 3))) accepting_peers, cl\<lparr>cl_next_request_id := n\<rparr>)"
    using r n by (metis prod.collapse)
  have len: "length accepting_peers = 5" by (simp add: accepting_peers_def)
  have sch: "reorder (ue_schedule accepting_env) (xs :: 'z list) = rev xs" for xs
  proof -
    have "reorder (ue_schedule accepting_env) xs = rev (map ((!) xs) [0..<length xs])"
      by (simp add: reorder_def accepting_env_def rev_map)
    then show ?thesis by (simp only: map_nth)
  qed
  have "get_store_quotes accepting_env cl a sz ty =
     (collect_quotes (rev (map (\<lambda>p. (p, Inr (accepting_quote, 3))) accepting_peers)) [] 0 0, cl\<lparr>cl_next_request_id := n\<rparr>)"
    using len by (simp add: get_store_quotes_def accepting_group [OF assms] CLOSE_GROUP_SIZE_def s sch)
  then show ?thesis by (auto simp: accepting_peers_def CLOSE_GROUP_SIZE_def)
qed

lemma accepting_address: "compute_address (ce_codec (ue_net accepting_env)) d = d"
  by (simp add: compute_address_def accepting_env_def)

lemma accepting_payment:
  "\<exists>payment. price_quotes accepting_env (accepting_client\<lparr>cl_next_request_id := n\<rparr>)
      (map (\<lambda>p. (p, accepting_quote, 3)) (rev accepting_peers)) =
    Inr (map (\<lambda>p. (fst p, accepting_quote)) (rev accepting_peers), payment)"
  by (simp add: price_quotes_def require_evm_network_def accepting_client_def with_wallet_def accepting_env_def
      accepting_peers_def from_quotes_eq median_price_def)

lemma accepting_prepare:
  "\<exists>c n'. prepare_chunk_payment accepting_env (accepting_client\<lparr>cl_next_request_id := n\<rparr>) d =
     (Inr (Some c), accepting_client\<lparr>cl_next_request_id := n'\<rparr>) \<and> pc_quoted_peers c = rev accepting_peers"
proof -
  let ?a = "compute_address (ce_codec (ue_net accepting_env)) d"
  have "close_group_size (cl_config (accepting_client\<lparr>cl_next_request_id := n\<rparr>)) = 5"
    by (simp add: accepting_client_def with_wallet_def Client_from_node_def ClientConfig_default_def CLOSE_GROUP_SIZE_def)
  from accepting_quotes [OF this, of ?a "word_of_nat (length d)" DATA_TYPE_CHUNK] obtain n' where
    q: "get_store_quotes accepting_env (accepting_client\<lparr>cl_next_request_id := n\<rparr>) ?a (word_of_nat (length d)) DATA_TYPE_CHUNK =
      (Inr (map (\<lambda>p. (p, accepting_quote, 3)) (rev accepting_peers)), accepting_client\<lparr>cl_next_request_id := n'\<rparr>)"
    by auto
  obtain payment where "price_quotes accepting_env (accepting_client\<lparr>cl_next_request_id := n'\<rparr>)
      (map (\<lambda>p. (p, accepting_quote, 3)) (rev accepting_peers)) =
    Inr (map (\<lambda>p. (fst p, accepting_quote)) (rev accepting_peers), payment)"
    using accepting_payment by blast
  then show ?thesis
    by (simp add: prepare_chunk_payment_def Let_def q comp_def) blast
qed

lemma accepting_close_group:
  assumes "length peers = 5"
  shows "is_ok (fst (chunk_put_to_close_group (ue_net accepting_env) pick cl data payment peers))"
proof -
  let ?k = "min (length peers) CLOSE_GROUP_MAJORITY"
  let ?put = "\<lambda>rid p. chunk_put_with_proof (ue_net accepting_env) rid data payment p"
  have k: "?k = CLOSE_GROUP_MAJORITY" "0 < CLOSE_GROUP_MAJORITY"
    using assms by (simp_all add: CLOSE_GROUP_MAJORITY_def CLOSE_GROUP_SIZE_def)
  have ok: "\<And>rid p. is_ok (?put rid p) \<longleftrightarrow> True" using accepting_put by blast
  note sp = spawn_puts_accepted [of "take ?k peers" ?put "\<lambda>p. True" cl, OF ok]
  have "is_ok (fst (put_loop ?put pick addr (fst (spawn_puts ?put (take ?k peers) cl)) (drop ?k peers) 0 0 c))"
    for addr and c :: "'a Client"
    using put_loop_result [of "drop ?k peers" ?put "\<lambda>p. True" 0 "fst (spawn_puts ?put (take ?k peers) cl)" pick addr 0 c, OF ok] sp k
    by (simp add: Let_def)
  then show ?thesis by (simp add: chunk_put_to_close_group_def Let_def split_def)
qed

lemma accepting_prepare_wave:
  "\<exists>prepared already n'. prepare_wave accepting_env accepting_client w =
     (Inr (prepared, already), accepting_client\<lparr>cl_next_request_id := n'\<rparr>) \<and>
     length prepared = length w \<and> (\<forall>c \<in> set prepared. pc_quoted_peers c = rev accepting_peers)"
proof -
  let ?A = "compute_address (ce_codec (ue_net accepting_env))"
  let ?f = "\<lambda>c d. let (r, c') = prepare_chunk_payment accepting_env c d in ((?A d, r), c')"
  let ?I = "\<lambda>cl. \<exists>n. cl = accepting_client\<lparr>cl_next_request_id := n\<rparr>"
  let ?R = "\<lambda>d (a :: xorname, r). \<exists>c. r = Inr (Some c) \<and> pc_quoted_peers c = rev accepting_peers"
  have "?I (snd (?f cl d)) \<and> ?R d (fst (?f cl d))" if I: "?I cl" for cl d
  proof -
    obtain n where "cl = accepting_client\<lparr>cl_next_request_id := n\<rparr>" using I by blast
    with accepting_prepare [of n d] show ?thesis by (auto simp: Let_def split_def)
  qed
  moreover have "?I accepting_client" by (metis Client.surjective Client.update_convs(5))
  ultimately have inv: "?I (snd (run_all ?f accepting_client w))" "list_all2 ?R w (fst (run_all ?f accepting_client w))"
    using run_all_inv [of ?I ?f ?R accepting_client w] by auto
  let ?res = "reorder (ue_schedule accepting_env) (fst (run_all ?f accepting_client w))"
  have sched: "valid_schedule (ue_schedule accepting_env)" by (simp add: accepting_env_def valid_schedule_def)
  have made: "\<exists>c. snd x = Inr (Some c) \<and> pc_quoted_peers c = rev accepting_peers" if "list_all2 ?R xs ys" "x \<in> set ys" for x xs ys
    using that by (induction rule: list_all2_induct) auto
  have ok: "\<exists>c. snd x = Inr (Some c) \<and> pc_quoted_peers c = rev accepting_peers" if "x \<in> set ?res" for x
    using that made [OF inv(2), of x] by (simp only: mset_eq_setD [OF mset_reorder [OF sched]])
  have len: "length ?res = length w"
    using mset_eq_length [OF mset_reorder [OF sched]] list_all2_lengthD [OF inv(2)] by metis
  define rs where "rs = map (\<lambda>(a, r). (a, projr r)) ?res"
  have "traverse (\<lambda>(a, r). try_bind r (\<lambda>opt. Inr (a, opt))) ?res = Inr rs"
    unfolding rs_def by (rule traverse_pure) (use ok in \<open>fastforce\<close>)
  moreover have "\<forall>x \<in> set rs. \<exists>c. snd x = Some c \<and> pc_quoted_peers c = rev accepting_peers"
    using ok by (fastforce simp: rs_def)
  then have "length (List.map_filter snd rs) = length rs \<and>
      (\<forall>c \<in> set (List.map_filter snd rs). pc_quoted_peers c = rev accepting_peers)"
    by (induction rs) (auto simp: List.map_filter_simps split: option.splits)
  moreover have "length rs = length w" using len by (simp add: rs_def)
  ultimately show ?thesis using inv(1) by (auto simp: prepare_wave_def Let_def split_def)
qed

lemma accepting_pay:
  assumes "prepared \<noteq> []" "\<forall>c \<in> set prepared. pc_quoted_peers c = rev accepting_peers"
  shows "\<exists>paid cl'. batch_pay accepting_env (accepting_client\<lparr>cl_next_request_id := n\<rparr>) prepared = (Inr paid, cl') \<and>
    length (cl_payments cl') = 1 \<and> (\<forall>p \<in> set paid. pd_quoted_peers p = rev accepting_peers)"
proof -
  let ?paid = "map (\<lambda>c. \<lparr>pd_content = pc_content c, pd_address = pc_address c, pd_quoted_peers = pc_quoted_peers c,
      pd_proof_bytes = [PROOF_TAG_SINGLE_NODE]\<rparr>) prepared"
  have "build_paid_chunks (ue_rmp accepting_env) prepared (\<lambda>h. Some []) = Inr ?paid"
    unfolding build_paid_chunks_def
    by (rule traverse_pure)
      (simp add: build_paid_chunk_def traverse_pure [where g = "\<lambda>q. []"] serialize_single_node_proof_def accepting_env_def)
  then show ?thesis
    using assms
    by (simp add: batch_pay_def require_wallet_def Let_def accepting_client_def with_wallet_def Client_from_node_def)
qed

lemma accepting_store:
  assumes "\<forall>p \<in> set paid. pd_quoted_peers p = rev accepting_peers"
  shows "is_ok (fst (store_paid_chunks accepting_env cl paid))"
proof -
  let ?f = "\<lambda>c p. chunk_put_to_close_group (ue_net accepting_env) (ue_pick accepting_env) c (pd_content p) (pd_proof_bytes p)
              (pd_quoted_peers p)"
  have "\<forall>r \<in> set (fst (run_all ?f cl paid)). is_ok r"
    using assms
  proof (induction paid arbitrary: cl)
    case (Cons p paid)
    then have "length (pd_quoted_peers p) = 5" by (simp add: accepting_peers_def)
    from accepting_close_group [OF this] show ?case using Cons by (simp add: Let_def split_def)
  qed simp
  moreover have "valid_schedule (ue_schedule accepting_env)" by (simp add: accepting_env_def valid_schedule_def)
  note mset_eq_setD [OF mset_reorder [OF this, of "fst (run_all ?f cl paid)"]]
  ultimately have "is_ok (traverse id (reorder (ue_schedule accepting_env) (fst (run_all ?f cl paid))))"
    by (intro traverse_total) simp
  then obtain stored where "traverse id (reorder (ue_schedule accepting_env) (fst (run_all ?f cl paid))) = Inr stored"
    by (auto simp: is_ok_iff)
  then show ?thesis by (simp add: store_paid_chunks_def Let_def split_def is_ok_iff)
qed

lemma accepting_upload:
  "is_ok (fst (batch_upload_chunks accepting_env accepting_client [[7], [8], [7]])) \<and>
   length (cl_payments (snd (batch_upload_chunks accepting_env accepting_client [[7], [8], [7]]))) = 1"
proof -
  obtain prepared already n where prep:
      "prepare_wave accepting_env accepting_client [[7], [8]] =
        (Inr (prepared, already), accepting_client\<lparr>cl_next_request_id := n\<rparr>)"
      "length prepared = 2" "\<forall>c \<in> set prepared. pc_quoted_peers c = rev accepting_peers"
    using accepting_prepare_wave [of "[[7], [8]]"] by auto
  then have "prepared \<noteq> []" by auto
  with prep(3) accepting_pay obtain paid cl3 where pay:
      "batch_pay accepting_env (accepting_client\<lparr>cl_next_request_id := n\<rparr>) prepared = (Inr paid, cl3)"
      "length (cl_payments cl3) = 1" "\<forall>p \<in> set paid. pd_quoted_peers p = rev accepting_peers"
    by metis
  have "valid_schedule (ue_schedule accepting_env)" by (simp add: accepting_env_def valid_schedule_def)
  note kept = store_paid_effect(1) [OF this, of cl3 paid]
  have dd: "dedup_chunks (ce_codec (ue_net accepting_env)) [[7], [8], [7]] {} = ([[7], [8]], [[7]])" by (simp add: accepting_address Let_def)
  have sl: "slice_chunks 64 [[7 :: byte], [8]] = [[[7], [8]]]" by (simp add: slice_chunks.simps)
  have up: "batch_upload_chunks accepting_env accepting_client [[7], [8], [7]] =
      wave_loop accepting_env [] (Some paid) ([[7]] @ [] @ already) cl3"
    using \<open>prepared \<noteq> []\<close> by (simp add: batch_upload_chunks_def dd sl PAYMENT_WAVE_SIZE_def wave_loop.simps(3) prep(1) pay(1)
        del: dedup_chunks.simps)
  show ?thesis using accepting_store [OF pay(3), of cl3] kept pay(2) by (auto simp: up Let_def split_def is_ok_iff)
qed

lemma batch_upload_accounts_for_all_witness:
  "\<exists>addrs. fst (batch_upload_chunks accepting_env accepting_client [[7], [8], [7]]) = Inr addrs \<and>
     mset addrs = mset [[7], [8], [7]] \<and>
     length (cl_payments (snd (batch_upload_chunks accepting_env accepting_client [[7], [8], [7]]))) = 1"
proof -
  have "valid_schedule (ue_schedule accepting_env)" by (simp add: accepting_env_def valid_schedule_def)
  note counted = batch_upload_accounts_for_all [OF this, of accepting_client "[[7], [8], [7]]"]
  have "map (compute_address (ce_codec (ue_net accepting_env))) xs = xs" for xs
    by (simp add: accepting_address map_idI)
  then show ?thesis using accepting_upload counted by (auto simp: is_ok_iff accepting_address)
qed

end
