(* ===== verification/Client_Node.thy ===== *)
theory Client_Node
  imports Batch_Upload Ant_Handler_Correct
begin

text \<open>
  The native client against a node: the payment proof that \<open>pay_for_storage\<close> builds from the quotes
  of the close group passes the payment verification of a node of that group.
\<close>

section \<open>Where the quotes come from\<close>

lemma spawn_requests_source:
  "(p, r) \<in> set (fst (spawn_requests ask ps cl)) \<Longrightarrow> p \<in> set ps \<and> (\<exists>rid. ask rid p = Some r)"
  by (induction ps arbitrary: cl) (auto simp: Let_def split_def split: option.splits)

lemma spawn_requests_distinct:
  assumes "distinct (map fst ps)"
  shows "distinct (map (fst \<circ> fst) (fst (spawn_requests ask ps cl)))"
  using assms
proof (induction ps arbitrary: cl)
  case (Cons p ps)
  have "fst p \<notin> (fst \<circ> fst) ` set (fst (spawn_requests ask ps c))" for c
  proof
    assume "fst p \<in> (fst \<circ> fst) ` set (fst (spawn_requests ask ps c))"
    then obtain p' r where "fst p' = fst p" "(p', r) \<in> set (fst (spawn_requests ask ps c))" by auto
    then show False using Cons.prems spawn_requests_source [of p' r ask ps c] by (metis distinct.simps(2) image_eqI list.set_map list.simps(9))
  qed
  then show ?case using Cons by (auto simp: Let_def split_def split: option.splits)
qed simp

lemma length_spawn_requests: "length (fst (spawn_requests ask ps cl)) \<le> length ps"
  by (induction ps arbitrary: cl) (auto simp: Let_def split_def le_SucI split: option.splits)

text \<open>A lookup in the DHT lists no node twice.\<close>

definition lists_once :: "client_env \<Rightarrow> xorname \<Rightarrow> bool" where
  "lists_once N addr \<longleftrightarrow>
     (\<forall>m closest. find_closest_nodes (ce_p2p N) addr m = Inr closest \<longrightarrow> distinct (map dht_peer_id closest))"

lemma find_closest_distinct:
  assumes "find_closest_peers N addr n = Inr peers"
    and "lists_once N addr"
  shows "distinct (map fst peers)"
proof -
  obtain closest where c: "find_closest_nodes (ce_p2p N) addr (n + 1) = Inr closest"
      "peers = map (\<lambda>x. (dht_peer_id x, dht_addresses x)) (take n (filter (\<lambda>x. dht_peer_id x \<noteq> ce_local_peer_id N) closest))"
    using assms(1) by (auto simp: find_closest_peers_def result_simps)
  have "map fst peers = take n (map dht_peer_id (filter (\<lambda>x. dht_peer_id x \<noteq> ce_local_peer_id N) closest))"
    by (simp add: c(2) take_map comp_def)
  then show ?thesis using assms(2) c(1) by (simp add: lists_once_def distinct_map_filter)
qed

lemma get_store_quotes_source:
  assumes "get_store_quotes U cl addr sz ty = (Inr qs, cl')" "valid_schedule (ue_schedule U)"
    and "lists_once (ue_net U) addr"
  shows "length qs = CLOSE_GROUP_SIZE" "distinct (map (fst \<circ> fst) qs)"
    and "\<forall>(p, q, pr) \<in> set qs. \<exists>rid. request_quote U addr sz ty rid p = Some (Inr (q, pr))"
proof -
  obtain found where found: "close_group_peers (ue_net U) cl addr = Inr found" "\<not> length (take CLOSE_GROUP_SIZE found) < CLOSE_GROUP_SIZE"
    using assms(1) by (auto simp: get_store_quotes_def Let_def split: sum.splits if_splits)
  let ?ps = "take CLOSE_GROUP_SIZE found" and ?ask = "request_quote U addr sz ty"
  let ?rs = "fst (spawn_requests ?ask ?ps cl)"
  let ?os = "reorder (ue_schedule U) ?rs"
  have coll: "collect_quotes ?os [] 0 0 = Inr qs"
    using assms(1) found by (simp add: get_store_quotes_def Let_def split_def)
  have "0 < CLOSE_GROUP_MAJORITY" by (simp add: CLOSE_GROUP_MAJORITY_def CLOSE_GROUP_SIZE_def)
  from collect_quotes_result [OF this, of ?os "[]" 0, unfolded coll]
  have qs: "CLOSE_GROUP_SIZE \<le> length qs" "qs = map (\<lambda>(p, r). (p, projr r)) (filter (\<lambda>(p, r). is_ok r) ?os)"
    by (simp_all add: quotes_received_def)
  note perm = mset_reorder [OF assms(2), of ?rs]
  have "length qs \<le> length ?os" unfolding qs(2) by simp
  also have "\<dots> \<le> CLOSE_GROUP_SIZE"
    using length_spawn_requests [of ?ask ?ps cl] by (simp add: reports_reorder(3) [OF assms(2)])
  finally show "length qs = CLOSE_GROUP_SIZE" using qs(1) by simp
  have "distinct (map fst found)"
  proof -
    have "find_closest_peers (ue_net U) addr (close_group_size (cl_config cl)) = Inr found"
      using found(1) by (auto simp: close_group_peers_def result_simps split: if_splits)
    then show ?thesis using assms(3) by (rule find_closest_distinct)
  qed
  then have "distinct (map (fst \<circ> fst) ?rs)" by (intro spawn_requests_distinct) (simp add: take_map [symmetric])
  then have "distinct (map (fst \<circ> fst) ?os)"
    using mset_eq_imp_distinct_iff [of "map (fst \<circ> fst) ?os" "map (fst \<circ> fst) ?rs"] by (simp only: mset_map perm)
  moreover have "map (fst \<circ> fst) qs = map (fst \<circ> fst) (filter (\<lambda>(p, r). is_ok r) ?os)"
    unfolding qs(2) by (simp add: split_def)
  ultimately show "distinct (map (fst \<circ> fst) qs)" by (simp add: distinct_map_filter)
  have "set ?os = set ?rs" by (rule mset_eq_setD [OF perm])
  then show "\<forall>(p, q, pr) \<in> set qs. \<exists>rid. ?ask rid p = Some (Inr (q, pr))"
    unfolding qs(2) using spawn_requests_source [of _ _ ?ask ?ps cl] by (fastforce simp: is_ok_iff)
qed

section \<open>The proof is accepted\<close>

definition honest_quote :: "('br, 'g) pay_env \<Rightarrow> 'g chain \<Rightarrow> xorname \<Rightarrow> peer_id \<Rightarrow> PaymentQuote \<Rightarrow> bool" where
  "honest_quote E ch addr i q \<longleftrightarrow>
     q_content q = addr \<and> fresh (wall_clock ch) (q_timestamp q) \<and>
     peer_id_from_public_key_bytes E (q_pub_key q) = Inr i \<and> verify_quote_signature (quote_ops E) q"

definition chain_confirms :: "('br, 'g) pay_env \<Rightarrow> 'g chain \<Rightarrow> PaymentVerifierConfig \<Rightarrow> ProofOfPayment \<Rightarrow> bool" where
  "chain_confirms E ch cfg p \<longleftrightarrow>
     payment_digest E p \<noteq> [] \<and>
     (\<exists>results. vault_verify ch (network (evm cfg)) (payment_digest E p) = Inr results \<and>
        (\<exists>(amount, valid) \<in> set results. 0 < amount) \<and>
        (\<forall>(amount, valid) \<in> set results. 0 < amount \<longrightarrow> valid))"

lemma pay_for_storage_proof:
  assumes "pay_for_storage U cl addr sz ty = (Inr (proof_bytes, peers), cl')" "rmp_laws (ue_rmp U)"
  obtains qs cl1 txs where "get_store_quotes U cl addr sz ty = (Inr qs, cl1)" "peers = map fst qs"
    "deserialize_proof (ue_rmp U) proof_bytes = Inr (\<lparr>peer_quotes = map (\<lambda>(p, q, _). (fst p, q)) qs\<rparr>, txs)"
    "first proof_bytes = Some PROOF_TAG_SINGLE_NODE"
proof -
  obtain w where w: "require_wallet cl = Inr w" using assms(1) by (auto simp: pay_for_storage_def split: sum.splits)
  obtain qs cl1 where g: "get_store_quotes U cl addr sz ty = (Inr qs, cl1)"
    using assms(1) w by (auto simp: pay_for_storage_def split: sum.splits prod.splits)
  obtain pq payment where pr: "price_quotes U cl1 qs = Inr (pq, payment)"
    using assms(1) w g by (auto simp: pay_for_storage_def split: sum.splits)
  then have pq: "pq = map (\<lambda>(p, q, _). (fst p, q)) qs" by (auto simp: price_quotes_def result_simps split: if_splits)
  obtain txs where txs: "serialize_single_node_proof (ue_rmp U) \<lparr>proof_of_payment = \<lparr>peer_quotes = pq\<rparr>, tx_hashes = txs\<rparr> = Inr proof_bytes"
      "peers = map fst qs"
    using assms(1) w g pr by (auto simp: pay_for_storage_def Let_def result_simps split: sum.splits)
  then obtain b where b: "proof_to_vec (ue_rmp U) \<lparr>proof_of_payment = \<lparr>peer_quotes = pq\<rparr>, tx_hashes = txs\<rparr> = Inr b"
      "proof_bytes = PROOF_TAG_SINGLE_NODE # b"
    by (auto simp: serialize_single_node_proof_def result_simps)
  then have "proof_from_slice (ue_rmp U) b = Inr \<lparr>proof_of_payment = \<lparr>peer_quotes = pq\<rparr>, tx_hashes = txs\<rparr>"
    using assms(2) by (auto simp: rmp_laws_def)
  then show ?thesis using that [OF g txs(2), of txs] b(2) pq by (simp add: deserialize_proof_def)
qed

lemma verify_payment_accepts:
  assumes "deserialize_proof (rmp_serde E) b = Inr (p, txs)" "first b = Some PROOF_TAG_SINGLE_NODE"
    and "MIN_PAYMENT_PROOF_SIZE_BYTES \<le> length b" "length b \<le> MAX_PAYMENT_PROOF_SIZE_BYTES"
    and "single_node_paid E ch (pv_config v) x p"
  shows "\<exists>s. fst (verify_payment E ch v x (Some b)) = Inr s \<and> can_store s"
proof -
  have "verify_evm_payment E ch (pv_config v) x p = Inr ()" using assms(5) verify_evm_payment_sound by blast
  moreover have "detect_proof_type b = Some SingleNode" using assms(2) by (simp add: detect_proof_type_def)
  moreover have "pv_config (snd (check_payment_required v x)) = pv_config v"
    by (simp add: check_payment_required_def split_def Let_def split: prod.splits)
  moreover have "fst (check_payment_required v x) \<noteq> PaymentVerified"
    by (auto simp: check_payment_required_def Let_def split_def)
  ultimately show ?thesis
    using assms(1,3,4)
    by (auto simp: verify_payment_def verify_proof_def can_store_def split: prod.splits PaymentStatus.splits)
qed

text \<open>
  C12: the payment of an honest client is accepted by the nodes it paid. If the nodes of the close
  group answer with quotes for the address that are fresh, name the peer and carry its signature, the
  DHT lists no node twice, and the contract confirms the payment, then the proof that
  \<open>pay_for_storage\<close> returns makes \<open>verify_payment\<close> on a node that quoted its own rewards address permit
  the chunk to be stored.
\<close>

theorem client_payment_accepted:
  assumes "pay_for_storage U cl addr sz ty = (Inr (proof_bytes, peers), cl')"
    and "ue_rmp U = rmp_serde E" "rmp_laws (rmp_serde E)" "valid_schedule (ue_schedule U)"
    and "lists_once (ue_net U) addr"
    and "\<And>rid p q pr. p \<in> set peers \<Longrightarrow> request_quote U addr sz ty rid p = Some (Inr (q, pr)) \<Longrightarrow>
           honest_quote E ch addr (fst p) q"
    and "me \<in> set peers"
    and "\<And>rid q pr. request_quote U addr sz ty rid me = Some (Inr (q, pr)) \<Longrightarrow>
           q_rewards_address q = local_rewards_address (pv_config v)"
    and "\<And>p txs. deserialize_proof (rmp_serde E) proof_bytes = Inr (p, txs) \<Longrightarrow> chain_confirms E ch (pv_config v) p"
    and "MIN_PAYMENT_PROOF_SIZE_BYTES \<le> length proof_bytes" "length proof_bytes \<le> MAX_PAYMENT_PROOF_SIZE_BYTES"
  shows "\<exists>s. fst (verify_payment E ch v addr (Some proof_bytes)) = Inr s \<and> can_store s"
proof -
  obtain qs cl1 txs where g: "get_store_quotes U cl addr sz ty = (Inr qs, cl1)" "peers = map fst qs"
    and d: "deserialize_proof (rmp_serde E) proof_bytes = Inr (\<lparr>peer_quotes = map (\<lambda>(p, q, _). (fst p, q)) qs\<rparr>, txs)"
    and tag: "first proof_bytes = Some PROOF_TAG_SINGLE_NODE"
    using pay_for_storage_proof [OF assms(1)] assms(2,3) by metis
  note src = get_store_quotes_source [OF g(1) assms(4,5)]
  let ?p = "\<lparr>peer_quotes = map (\<lambda>(p, q, _). (fst p, q)) qs\<rparr>"
  have "\<forall>(i, q) \<in> set (peer_quotes ?p). honest_quote E ch addr i q"
  proof -
    have "honest_quote E ch addr (fst (fst x)) (fst (snd x))" if "x \<in> set qs" for x
      using src(3) that assms(6) [of "fst x" _ "fst (snd x)" "snd (snd x)"] g(2) by (auto simp: split_def)
    then show ?thesis by auto
  qed
  moreover have "\<exists>(i, q) \<in> set (peer_quotes ?p). q_rewards_address q = local_rewards_address (pv_config v)"
  proof -
    obtain q pr where "(me, q, pr) \<in> set qs" using assms(7) g(2) by auto
    then show ?thesis using src(3) assms(8) by (auto simp: split_def intro!: bexI [of _ "(me, q, pr)"])
  qed
  moreover have "length (peer_quotes ?p) = 5" "distinct (map fst (peer_quotes ?p))"
    using src(1,2) by (simp_all add: CLOSE_GROUP_SIZE_def comp_def split_def)
  ultimately have "single_node_paid E ch (pv_config v) addr ?p"
    using assms(9) [OF d] by (simp add: single_node_paid_def honest_quote_def chain_confirms_def split_def)
  then show ?thesis by (rule verify_payment_accepts [OF d tag assms(10,11)])
qed


section \<open>A sample payment\<close>

definition paid_proof :: "xorname \<Rightarrow> PaymentProof" where
  "paid_proof a = (sample_proof a)\<lparr>tx_hashes := [[3]]\<rparr>"

definition paid_rmp :: "bytes rmp" where
  "paid_rmp = sample_rmp\<lparr>
     proof_to_vec := \<lambda>p. let a = q_content (snd (hd (peer_quotes (proof_of_payment p)))) in
        if p = paid_proof a \<and> length a = 32 then Inr a else Inl ''unsupported'',
     proof_from_slice := \<lambda>b. if length b = 32 then Inr (paid_proof b) else Inl ''invalid''\<rparr>"

definition paying_env :: "bytes upload_env" where
  "paying_env =
     \<lparr>ue_net = \<lparr>ce_codec = \<lparr>to_stdvec = \<lambda>m. Inr (le_bytes 8 (unat (request_id m))),
                  from_postcard = \<lambda>b. Inr \<lparr>request_id = word_of_nat (le_value (tl b)), body = QuoteResponse (QuoteSuccess [hd b] False)\<rparr>,
                  blake3 = \<lambda>b. b\<rparr>,
                ce_p2p = \<lparr>p2p_send_message = \<lambda>p t b. Inr [Message t (Some p) (hd p # b)],
                  find_closest_nodes = \<lambda>a n. Inr (map (\<lambda>i. \<lparr>dht_peer_id = [i], dht_addresses = []\<rparr>) [1, 2, 3, 4, 5])\<rparr>,
                ce_local_peer_id = [], ce_connected_peers = []\<rparr>,
      ue_quote_from_slice = \<lambda>b. Inr (sample_quote (hd b) (replicate 32 9)),
      ue_calculate_price = \<lambda>m. 3, ue_market_price = \<lambda>n ms. Inr [1, 2, 3, 4, 5], ue_quote_hash = q_pub_key,
      ue_rmp = paid_rmp, ue_pick = \<lambda>n. 0, ue_schedule = \<lambda>n. [0..<n]\<rparr>"

definition paying_client :: "(xorname, bytes) lru_list Client" where
  "paying_client = with_wallet (Client_from_node list_lru (ClientConfig_default None))
     \<lparr>wallet_network = [], pay_for_quotes = \<lambda>ps. Inr (\<lambda>h. Some h)\<rparr>"

lemma paying_quote:
  "request_quote paying_env addr sz ty rid p = Some (Inr (sample_quote (hd (fst p)) (replicate 32 9), 3))"
  by (simp add: request_quote_def paying_env_def msg_encode_def msg_decode_def send_and_await_chunk_response_def
      quote_response_handler_def rid_round_trip MAX_WIRE_MESSAGE_SIZE_def)

lemma paying_quotes:
  "\<exists>c. get_store_quotes paying_env paying_client (replicate 32 9) 1 0 =
     (Inr (map (\<lambda>i. (([i], []), sample_quote i (replicate 32 9), 3)) [1, 2, 3, 4, 5]), c) \<and>
   cl_wallet c = cl_wallet paying_client \<and> cl_evm_network c = cl_evm_network paying_client"
proof -
  let ?ps = "map (\<lambda>i. ([i], [])) [1, 2, 3, 4, 5] :: peer list"
  have "close_group_peers (ue_net paying_env) paying_client (replicate 32 9) = Inr ?ps"
    by (simp add: close_group_peers_def find_closest_peers_def paying_env_def paying_client_def with_wallet_def
        Client_from_node_def ClientConfig_default_def CLOSE_GROUP_SIZE_def)
  moreover have "reorder (ue_schedule paying_env) xs = xs" for xs :: "(PaymentQuote \<times> u256) peer_result list"
    by (simp add: reorder_def paying_env_def map_nth)
  moreover have "fst (spawn_requests (request_quote paying_env (replicate 32 9) 1 0) ?ps paying_client) =
      map (\<lambda>p. (p, Inr (sample_quote (hd (fst p)) (replicate 32 9), 3))) ?ps"
    by (rule spawn_requests_results) (rule paying_quote)
  moreover have "cl_wallet (snd (spawn_requests ask ps c)) = cl_wallet c \<and> cl_evm_network (snd (spawn_requests ask ps c)) = cl_evm_network c"
    for ask :: "u64 \<Rightarrow> peer \<Rightarrow> (data_error + PaymentQuote \<times> u256) option" and ps and c :: "(xorname, bytes) lru_list Client"
    by (induction ps arbitrary: c) (auto simp: Let_def split_def client_request_id_def)
  ultimately show ?thesis
    by (simp add: get_store_quotes_def Let_def split_def CLOSE_GROUP_SIZE_def del: spawn_requests.simps)
qed

lemma sample_quote_fields: "q_content (sample_quote i a) = a" "q_rewards_address (sample_quote i a) = [i]"
  by (simp_all add: sample_quote_def)

lemma paying_storage:
  "\<exists>c. pay_for_storage paying_env paying_client (replicate 32 9) 1 0 =
     (Inr (PROOF_TAG_SINGLE_NODE # replicate 32 9, map (\<lambda>i. ([i], [])) [1, 2, 3, 4, 5]), c)"
proof -
  let ?qs = "map (\<lambda>i. (([i], []), sample_quote i (replicate 32 9), 3)) [1, 2, 3, 4, 5] :: quoted list"
  obtain c where c: "get_store_quotes paying_env paying_client (replicate 32 9) 1 0 = (Inr ?qs, c)"
      "cl_wallet c = cl_wallet paying_client" "cl_evm_network c = cl_evm_network paying_client"
    using paying_quotes by blast
  have w: "cl_wallet paying_client = Some \<lparr>wallet_network = [], pay_for_quotes = \<lambda>ps. Inr (\<lambda>h. Some h)\<rparr>"
    "cl_evm_network paying_client = Some []"
    by (simp_all add: paying_client_def with_wallet_def)
  let ?L = "[(sample_quote 1 (replicate 32 9), 1), (sample_quote 2 (replicate 32 9), 2), (sample_quote 3 (replicate 32 9), 3),
      (sample_quote 4 (replicate 32 9), 4), (sample_quote 5 (replicate 32 9), 5)] :: (PaymentQuote \<times> u256) list"
  have L: "sort_key snd ?L = ?L" "median_price ?L = 3" by (simp_all add: median_price_def)
  then obtain payment where f: "from_quotes q_pub_key ?L = Inr payment"
    using from_quotes_eq [of q_pub_key ?L] by (auto simp del: sort_key_simps)
  from from_quotes_payment(4,6) [OF f] L
  have "map qi_amount (quotes payment) = [0, 0, 9, 0, 0]" "map qi_quote_hash (quotes payment) = [[1], [2], [3], [4], [5]]"
    by (simp_all add: sample_quote_def)
  then have "map qi_quote_hash (filter (\<lambda>q. 0 < qi_amount q) (quotes payment)) = [[3]]"
    by (auto simp: map_eq_Cons_conv)
  then have "pay_quotes (\<lambda>ps. Inr (\<lambda>h. Some h)) payment = Inr [[3]]"
    by (simp add: pay_quotes_def traverse_pure [where g = qi_quote_hash])
  moreover have "price_quotes paying_env c ?qs = Inr (map (\<lambda>i. ([i], sample_quote i (replicate 32 9))) [1, 2, 3, 4, 5], payment)"
    using f by (simp add: price_quotes_def require_evm_network_def c(3) w(2) paying_env_def)
  ultimately show ?thesis
    using c w by (simp add: pay_for_storage_def require_wallet_def Let_def paying_env_def serialize_single_node_proof_def
        paid_rmp_def paid_proof_def sample_proof_def sample_quote_fields)
qed

lemma client_payment_accepted_witness:
  "\<exists>s. fst (verify_payment (sample_pay_env\<lparr>rmp_serde := paid_rmp\<rparr>) sample_chain
             (PaymentVerifier_new list_lru list_lru sample_pay_config) (replicate 32 9)
             (Some (PROOF_TAG_SINGLE_NODE # replicate 32 9))) = Inr s \<and> can_store s"
proof -
  let ?E = "sample_pay_env\<lparr>rmp_serde := paid_rmp\<rparr>" and ?v = "PaymentVerifier_new list_lru list_lru sample_pay_config"
  let ?a = "replicate 32 9 :: bytes"
  obtain c where pay: "pay_for_storage paying_env paying_client ?a 1 0 =
      (Inr (PROOF_TAG_SINGLE_NODE # ?a, map (\<lambda>i. ([i], [])) [1, 2, 3, 4, 5]), c)" using paying_storage by blast
  have "rmp_laws paid_rmp"
    using sample_rmp_laws by (auto simp: rmp_laws_def paid_rmp_def Let_def split: if_splits)
  moreover have "honest_quote ?E sample_chain ?a [i] (sample_quote i ?a)" for i
    by (simp add: honest_quote_def sample_quote_def fresh_def sample_chain_def sample_pay_env_def verify_quote_signature_def
        sample_quote_env_def)
  moreover have "chain_confirms ?E sample_chain (pv_config ?v) (proof_of_payment (paid_proof ?a))"
    by (simp add: chain_confirms_def PaymentVerifier_new_def sample_chain_def sample_pay_env_def paid_proof_def sample_proof_def)
  moreover have "deserialize_proof paid_rmp (PROOF_TAG_SINGLE_NODE # ?a) = Inr (proof_of_payment (paid_proof ?a), [[3]])"
    by (simp add: deserialize_proof_def paid_rmp_def paid_proof_def)
  moreover have "lists_once (ue_net paying_env) ?a" "valid_schedule (ue_schedule paying_env)"
    by (simp_all add: lists_once_def paying_env_def valid_schedule_def)
  ultimately show ?thesis
    by (intro client_payment_accepted [OF pay, where me = "([2], [])"])
      (auto simp: paying_quote sample_quote_fields(2) paying_env_def [THEN arg_cong [of _ _ ue_rmp]] PaymentVerifier_new_def
         sample_pay_config_def MIN_PAYMENT_PROOF_SIZE_BYTES_def MAX_PAYMENT_PROOF_SIZE_BYTES_def)
qed

end
