(* ===== verification/Merkle_Upload.thy ===== *)
theory Merkle_Upload
  imports Batch_Upload Payment_Verifier
begin

text \<open>
  Merkle batch payments of the native client: \<open>src/ant-client/ant-core/src/data/client/merkle.rs\<close>.

  The merkle tree, its proofs and midpoints, the hash and the commitment of a candidate pool and the
  payment of a tree belong to \<open>evmlib\<close> and are the fields of \<open>merkle_env\<close>, with the constants
  \<open>CANDIDATES_PER_POOL\<close> and \<open>MAX_LEAVES\<close>. \<open>me_now\<close> is the wall clock, as a function of the number
  of requests the client has numbered. The last step of \<open>collect_validated_candidates\<close>, which turns
  a vector truncated to \<open>CANDIDATES_PER_POOL\<close> entries into an array, cannot fail and is left out.
\<close>

section \<open>Payment modes\<close>

definition DEFAULT_MERKLE_THRESHOLD :: nat where "DEFAULT_MERKLE_THRESHOLD = 64"

datatype PaymentMode = AutoMode | MerkleMode | SingleMode

record MerkleBatchPaymentResult =
  mb_proofs :: "xorname \<rightharpoonup> bytes"
  mb_chunk_count :: nat

definition should_use_merkle :: "nat \<Rightarrow> PaymentMode \<Rightarrow> bool" where
  "should_use_merkle chunk_count mode =
     (case mode of
        AutoMode \<Rightarrow> DEFAULT_MERKLE_THRESHOLD \<le> chunk_count
      | MerkleMode \<Rightarrow> 2 \<le> chunk_count
      | SingleMode \<Rightarrow> False)"

section \<open>Environment\<close>

record ('br, 't) merkle_env =
  me_candidates_per_pool :: nat
  me_max_leaves :: nat
  me_from_xornames :: "xorname list \<Rightarrow> string + 't"
  me_depth :: "'t \<Rightarrow> byte"
  me_reward_candidates :: "'t \<Rightarrow> u64 \<Rightarrow> string + 'br list"
  me_midpoint_address :: "'br \<Rightarrow> xorname"
  me_address_proof :: "'t \<Rightarrow> nat \<Rightarrow> xorname \<Rightarrow> string + 'br"
  me_pool_hash :: "'br MerklePaymentCandidatePool \<Rightarrow> bytes"
  me_to_commitment :: "'br MerklePaymentCandidatePool \<Rightarrow> bytes"
  me_pay_for_merkle_tree :: "wallet_ops \<Rightarrow> byte \<Rightarrow> bytes list \<Rightarrow> u64 \<Rightarrow> string + bytes"
  me_candidate_from_slice :: "bytes \<Rightarrow> string + MerklePaymentCandidateNode"
  me_quote_ops :: quote_env
  me_now :: "u64 \<Rightarrow> system_time"

section \<open>Candidate pools\<close>

definition candidate_response_handler ::
  "('br, 't) merkle_env \<Rightarrow> ChunkMessageBody \<Rightarrow> (data_error + MerklePaymentCandidateNode) option" where
  "candidate_response_handler M b =
     (case b of
        MerkleQuoteResponse (CandidateSuccess candidate) \<Rightarrow>
          Some (map_err (\<lambda>e. SerializationErr (QuoteMalformed e)) (me_candidate_from_slice M candidate))
      | MerkleQuoteResponse (CandidateError e) \<Rightarrow> Some (Inl (ProtocolErr (RemoteFailure e)))
      | _ \<Rightarrow> None)"

definition request_candidate ::
  "'br upload_env \<Rightarrow> ('br, 't) merkle_env \<Rightarrow> xorname \<Rightarrow> u32 \<Rightarrow> u64 \<Rightarrow> u64 \<Rightarrow> u64 \<Rightarrow> peer \<Rightarrow>
   (data_error + MerklePaymentCandidateNode) option" where
  "request_candidate U M addr data_type data_size ts rid p =
     (case msg_encode (ce_codec (ue_net U))
             \<lparr>request_id = rid,
              body = MerkleQuoteRequest \<lparr>mq_address = addr, mq_data_type = data_type,
                       mq_data_size = data_size, merkle_payment_timestamp = ts\<rparr>\<rparr> of
        Inl e \<Rightarrow> None
      | Inr message_bytes \<Rightarrow>
          Some (send_and_await_chunk_response (ce_codec (ue_net U)) (p2p_send_message (ce_p2p (ue_net U))) (fst p)
                  message_bytes rid (candidate_response_handler M) (\<lambda>e. NetworkErr (SendFailed e)) (TimeoutErr ResponseTimeout)))"

fun collect_validated_candidates ::
  "('br, 't) merkle_env \<Rightarrow> u64 \<Rightarrow> u32 \<Rightarrow> MerklePaymentCandidateNode peer_result list \<Rightarrow> MerklePaymentCandidateNode list \<Rightarrow>
   nat \<Rightarrow> data_error + MerklePaymentCandidateNode list" where
  "collect_validated_candidates M ts data_type [] candidates failed =
     (if length candidates < me_candidates_per_pool M
      then Inl (InsufficientPeers (GotCandidates (length candidates) (me_candidates_per_pool M) failed))
      else Inr (take (me_candidates_per_pool M) candidates))"
| "collect_validated_candidates M ts data_type ((p, r) # rs) candidates failed =
     (case r of
        Inl e \<Rightarrow> collect_validated_candidates M ts data_type rs candidates (failed + 1)
      | Inr c \<Rightarrow>
          if \<not> verify_merkle_candidate_signature (me_quote_ops M) c
          then collect_validated_candidates M ts data_type rs candidates (failed + 1)
          else if cn_merkle_payment_timestamp c \<noteq> ts
          then collect_validated_candidates M ts data_type rs candidates (failed + 1)
          else if qm_data_type (cn_quoting_metrics c) \<noteq> data_type
          then collect_validated_candidates M ts data_type rs candidates (failed + 1)
          else if me_candidates_per_pool M \<le> length (candidates @ [c])
          then Inr (take (me_candidates_per_pool M) (candidates @ [c]))
          else collect_validated_candidates M ts data_type rs (candidates @ [c]) failed)"

definition supplement_peers :: "bytes list \<Rightarrow> peer list \<Rightarrow> peer list" where
  "supplement_peers connected peers =
     fold (\<lambda>p ps. if p \<in> fst ` set ps then ps else ps @ [(p, [])]) connected peers"

definition get_merkle_candidate_pool ::
  "'br upload_env \<Rightarrow> ('br, 't) merkle_env \<Rightarrow> 'c Client \<Rightarrow> xorname \<Rightarrow> u32 \<Rightarrow> u64 \<Rightarrow> u64 \<Rightarrow>
   (data_error + MerklePaymentCandidateNode list) \<times> 'c Client" where
  "get_merkle_candidate_pool U M cl addr data_type data_size ts =
     (case find_closest_peers (ue_net U) addr (me_candidates_per_pool M * 2) of
        Inl e \<Rightarrow> (Inl e, cl)
      | Inr closest \<Rightarrow>
          (let remote_peers =
             (if length closest < me_candidates_per_pool M
              then supplement_peers (ce_connected_peers (ue_net U)) closest else closest)
           in if length remote_peers < me_candidates_per_pool M
              then (Inl (InsufficientPeers (FoundPeers (length remote_peers) (me_candidates_per_pool M))), cl)
              else
                (let (results, cl1) = spawn_requests (request_candidate U M addr data_type data_size ts) remote_peers cl
                 in (collect_validated_candidates M ts data_type (reorder (ue_schedule U) results) [] 0, cl1))))"

definition build_candidate_pools ::
  "'br upload_env \<Rightarrow> ('br, 't) merkle_env \<Rightarrow> 'c Client \<Rightarrow> 'br list \<Rightarrow> u32 \<Rightarrow> u64 \<Rightarrow> u64 \<Rightarrow>
   (data_error + 'br MerklePaymentCandidatePool list) \<times> 'c Client" where
  "build_candidate_pools U M cl midpoint_proofs data_type data_size ts =
     (let (results, cl1) = run_all (\<lambda>c mp.
            let (r, c') = get_merkle_candidate_pool U M c (me_midpoint_address M mp) data_type data_size ts
            in (try_bind r (\<lambda>nodes. Inr \<lparr>midpoint_proof = mp, candidate_nodes = nodes\<rparr>), c')) cl midpoint_proofs
      in (traverse id (reorder (ue_schedule U) results), cl1))"

section \<open>Paying for a batch\<close>

definition merkle_plan ::
  "('br, 't) merkle_env \<Rightarrow> system_time \<Rightarrow> xorname list \<Rightarrow> data_error + 't \<times> u64 \<times> 'br list" where
  "merkle_plan M now xornames =
     try_bind (map_err (\<lambda>e. PaymentErr (MerkleTreeFailed e)) (me_from_xornames M xornames)) (\<lambda>tree.
     try_bind (map_err (\<lambda>e. PaymentErr SystemTimeError) (duration_since now 0)) (\<lambda>d.
     (let ts = word_of_nat (as_secs d)
      in try_bind (map_err (\<lambda>e. PaymentErr (RewardCandidatesFailed e)) (me_reward_candidates M tree ts))
           (\<lambda>midpoint_proofs. Inr (tree, ts, midpoint_proofs)))))"

definition merkle_chunk_proof ::
  "'br rmp \<Rightarrow> ('br, 't) merkle_env \<Rightarrow> 't \<Rightarrow> 'br MerklePaymentCandidatePool \<Rightarrow> nat \<times> xorname \<Rightarrow> data_error + xorname \<times> bytes" where
  "merkle_chunk_proof R M tree pool = (\<lambda>(i, xorname).
     try_bind (map_err (\<lambda>e. PaymentErr (AddressProofFailed i e)) (me_address_proof M tree i xorname)) (\<lambda>address_proof.
     try_bind (map_err (\<lambda>e. SerializationErr (ProofNotSerialized e))
                 (serialize_merkle_proof R \<lparr>mp_address = xorname, data_proof = address_proof, winner_pool = pool\<rparr>))
       (\<lambda>tagged_bytes. Inr (xorname, tagged_bytes))))"

definition pay_for_merkle_single_batch ::
  "'br upload_env \<Rightarrow> ('br, 't) merkle_env \<Rightarrow> 'c Client \<Rightarrow> xorname list \<Rightarrow> u32 \<Rightarrow> u64 \<Rightarrow>
   (data_error + MerkleBatchPaymentResult) \<times> 'c Client" where
  "pay_for_merkle_single_batch U M cl addresses data_type data_size =
     (case require_wallet cl of
        Inl e \<Rightarrow> (Inl e, cl)
      | Inr wallet \<Rightarrow>
          (case merkle_plan M (me_now M (cl_next_request_id cl)) addresses of
             Inl e \<Rightarrow> (Inl e, cl)
           | Inr (tree, ts, midpoint_proofs) \<Rightarrow>
               (case build_candidate_pools U M cl midpoint_proofs data_type data_size ts of
                  (Inl e, cl1) \<Rightarrow> (Inl e, cl1)
                | (Inr candidate_pools, cl1) \<Rightarrow>
                    (let commitments = map (me_to_commitment M) candidate_pools;
                         cl2 = cl1\<lparr>cl_merkle_payments := (me_depth M tree, commitments, ts) # cl_merkle_payments cl1\<rparr>
                     in (try_bind (map_err (\<lambda>e. PaymentErr (MerklePaymentFailed e))
                                     (me_pay_for_merkle_tree M wallet (me_depth M tree) commitments ts)) (\<lambda>winner.
                         try_bind (ok_or (PaymentErr (WinnerPoolNotFound winner))
                                     (List.find (\<lambda>pool. me_pool_hash M pool = winner) candidate_pools)) (\<lambda>pool.
                         try_bind (traverse (merkle_chunk_proof (ue_rmp U) M tree pool) (enumerate 0 addresses)) (\<lambda>proofs.
                         Inr \<lparr>mb_proofs = map_of (rev proofs), mb_chunk_count = length addresses\<rparr>))), cl2)))))"

fun merkle_sub_batches ::
  "'br upload_env \<Rightarrow> ('br, 't) merkle_env \<Rightarrow> u32 \<Rightarrow> u64 \<Rightarrow> 'c Client \<Rightarrow> xorname list list \<Rightarrow> (xorname \<rightharpoonup> bytes) \<Rightarrow>
   (data_error + (xorname \<rightharpoonup> bytes)) \<times> 'c Client" where
  "merkle_sub_batches U M data_type data_size cl [] all_proofs = (Inr all_proofs, cl)"
| "merkle_sub_batches U M data_type data_size cl (b # bs) all_proofs =
     (case pay_for_merkle_single_batch U M cl b data_type data_size of
        (Inl e, cl1) \<Rightarrow> (Inl e, cl1)
      | (Inr sub_result, cl1) \<Rightarrow>
          merkle_sub_batches U M data_type data_size cl1 bs (all_proofs ++ mb_proofs sub_result))"

definition pay_for_merkle_multi_batch ::
  "'br upload_env \<Rightarrow> ('br, 't) merkle_env \<Rightarrow> 'c Client \<Rightarrow> xorname list \<Rightarrow> u32 \<Rightarrow> u64 \<Rightarrow>
   (data_error + MerkleBatchPaymentResult) \<times> 'c Client" where
  "pay_for_merkle_multi_batch U M cl addresses data_type data_size =
     (let (r, cl1) = merkle_sub_batches U M data_type data_size cl (slice_chunks (me_max_leaves M) addresses) Map.empty
      in (try_bind r (\<lambda>all_proofs. Inr \<lparr>mb_proofs = all_proofs, mb_chunk_count = length addresses\<rparr>), cl1))"

definition pay_for_merkle_batch ::
  "'br upload_env \<Rightarrow> ('br, 't) merkle_env \<Rightarrow> 'c Client \<Rightarrow> xorname list \<Rightarrow> u32 \<Rightarrow> u64 \<Rightarrow>
   (data_error + MerkleBatchPaymentResult) \<times> 'c Client" where
  "pay_for_merkle_batch U M cl addresses data_type data_size =
     (if length addresses < 2 then (Inl (PaymentErr TooFewForMerkle), cl)
      else if me_max_leaves M < length addresses
      then pay_for_merkle_multi_batch U M cl addresses data_type data_size
      else pay_for_merkle_single_batch U M cl addresses data_type data_size)"

section \<open>Storing with merkle proofs\<close>

definition merkle_put ::
  "'br upload_env \<Rightarrow> MerkleBatchPaymentResult \<Rightarrow> 'c Client \<Rightarrow> bytes \<times> xorname \<Rightarrow> (data_error + xorname) \<times> 'c Client" where
  "merkle_put U batch cl = (\<lambda>(data, addr).
     case mb_proofs batch addr of
       None \<Rightarrow> (Inl (PaymentErr (MissingMerkleProof addr)), cl)
     | Some payment \<Rightarrow>
         (case close_group_peers (ue_net U) cl addr of
            Inl e \<Rightarrow> (Inl e, cl)
          | Inr peers \<Rightarrow> chunk_put_to_close_group (ue_net U) (ue_pick U) cl data payment peers))"

definition merkle_upload_chunks ::
  "'br upload_env \<Rightarrow> 'c Client \<Rightarrow> bytes list \<Rightarrow> xorname list \<Rightarrow> MerkleBatchPaymentResult \<Rightarrow> (data_error + nat) \<times> 'c Client" where
  "merkle_upload_chunks U cl contents addresses batch =
     (let (results, cl1) = run_all (merkle_put U batch) cl (zip contents addresses)
      in (try_bind (traverse id (reorder (ue_schedule U) results)) (\<lambda>stored. Inr (length stored)), cl1))"

end
