(* ===== verification/Merkle_Upload_Correct.thy ===== *)
theory Merkle_Upload_Correct
  imports Merkle_Upload Client_Node
begin

text \<open>
  What merkle batch payments achieve: the proofs of a batch are accepted by the payment verification
  of the nodes, and a batch whose last sub-batch is a single chunk can never be paid for.
\<close>

section \<open>Candidates\<close>

definition valid_candidate :: "('br, 't) merkle_env \<Rightarrow> u64 \<Rightarrow> u32 \<Rightarrow> MerklePaymentCandidateNode \<Rightarrow> bool" where
  "valid_candidate M ts ty c \<longleftrightarrow>
     verify_merkle_candidate_signature (me_quote_ops M) c \<and> cn_merkle_payment_timestamp c = ts \<and>
     qm_data_type (cn_quoting_metrics c) = ty"

lemma collect_validated_candidates_step:
  "collect_validated_candidates M ts ty ((p, r) # rs) acc failed =
     (case r of
        Inl e \<Rightarrow> collect_validated_candidates M ts ty rs acc (failed + 1)
      | Inr c \<Rightarrow>
          if \<not> valid_candidate M ts ty c then collect_validated_candidates M ts ty rs acc (failed + 1)
          else if me_candidates_per_pool M \<le> Suc (length acc) then Inr (take (me_candidates_per_pool M) (acc @ [c]))
          else collect_validated_candidates M ts ty rs (acc @ [c]) failed)"
  by (simp add: valid_candidate_def split: sum.splits)

lemma collect_validated_candidates_valid:
  "collect_validated_candidates M ts ty rs acc failed = Inr cs \<Longrightarrow> (\<forall>c \<in> set acc. valid_candidate M ts ty c) \<Longrightarrow>
   length cs = me_candidates_per_pool M \<and> (\<forall>c \<in> set cs. valid_candidate M ts ty c)"
proof (induction rs arbitrary: acc failed)
  case Nil
  then show ?case by (auto split: if_splits dest: in_set_takeD)
next
  case (Cons x rs)
  obtain p r where x: "x = (p, r)" by fastforce
  note eq = Cons.prems(1) [unfolded x collect_validated_candidates_step]
  consider (fail) e where "r = Inl e" | (bad) c where "r = Inr c" "\<not> valid_candidate M ts ty c"
    | (last) c where "r = Inr c" "valid_candidate M ts ty c" "me_candidates_per_pool M \<le> Suc (length acc)"
    | (more) c where "r = Inr c" "valid_candidate M ts ty c" "\<not> me_candidates_per_pool M \<le> Suc (length acc)"
    by (cases r) auto
  then show ?case
  proof cases
    case fail
    then show ?thesis using eq Cons.IH Cons.prems(2) by simp
  next
    case bad
    then show ?thesis using eq Cons.IH Cons.prems(2) by simp
  next
    case last
    then have "cs = take (me_candidates_per_pool M) (acc @ [c])" using eq by (simp del: take_append)
    then show ?thesis using last Cons.prems(2) by (auto simp del: take_append dest!: in_set_takeD)
  next
    case more
    then show ?thesis using eq Cons.IH [of "acc @ [c]"] Cons.prems(2) by simp
  qed
qed

lemma run_all_source: "r \<in> set (fst (run_all f s xs)) \<Longrightarrow> \<exists>c x. x \<in> set xs \<and> r = fst (f c x)"
proof (induction xs arbitrary: s)
  case (Cons x xs)
  then have "r = fst (f s x) \<or> r \<in> set (fst (run_all f (snd (f s x)) xs))" by (simp add: Let_def split_def)
  then show ?case using Cons.IH by fastforce
qed simp

lemma build_candidate_pools_valid:
  fixes cl :: "'c Client"
  assumes "build_candidate_pools U M cl mps ty sz ts = (Inr pools, cl')" "valid_schedule (ue_schedule U)"
    and "pool \<in> set pools"
  shows "midpoint_proof pool \<in> set mps" "\<forall>c \<in> set (candidate_nodes pool). valid_candidate M ts ty c"
proof -
  let ?f = "\<lambda>c mp. let (r, c') = get_merkle_candidate_pool U M c (me_midpoint_address M mp) ty sz ts
            in (try_bind r (\<lambda>nodes. Inr \<lparr>midpoint_proof = mp, candidate_nodes = nodes\<rparr>), c')"
  let ?rs = "fst (run_all ?f cl mps)"
  have "traverse id (reorder (ue_schedule U) ?rs) = Inr pools"
    using assms(1) by (simp add: build_candidate_pools_def split_def Let_def)
  then have "Inr pool \<in> set (reorder (ue_schedule U) ?rs)"
    using assms(3) by (auto simp: traverse_Inr_iff list_all2_conv_all_nth in_set_conv_nth)
  then have "Inr pool \<in> set ?rs" using mset_eq_setD [OF mset_reorder [OF assms(2), of ?rs]] by simp
  from run_all_source [OF this] obtain c :: "'c Client" and mp where mp: "mp \<in> set mps" "Inr pool = fst (?f c mp)"
    by blast
  then obtain nodes where n: "fst (get_merkle_candidate_pool U M c (me_midpoint_address M mp) ty sz ts) = Inr nodes"
      "pool = \<lparr>midpoint_proof = mp, candidate_nodes = nodes\<rparr>"
    using mp(2) by (auto simp: split_def Let_def try_bind_def split: sum.splits)
  then have "\<exists>rs. collect_validated_candidates M ts ty rs [] 0 = Inr nodes"
    by (auto simp: get_merkle_candidate_pool_def Let_def split_def split: sum.splits if_splits)
  then have "\<forall>c \<in> set nodes. valid_candidate M ts ty c" using collect_validated_candidates_valid by fastforce
  then show "midpoint_proof pool \<in> set mps" "\<forall>c \<in> set (candidate_nodes pool). valid_candidate M ts ty c"
    using n mp by simp_all
qed

section \<open>What a batch changes\<close>

definition pays_nothing :: "'c Client \<Rightarrow> 'c Client \<Rightarrow> bool" where
  "pays_nothing cl cl' \<longleftrightarrow> cl_wallet cl' = cl_wallet cl \<and> cl_merkle_payments cl' = cl_merkle_payments cl"

lemma pays_nothing_refl [simp]: "pays_nothing cl cl" by (simp add: pays_nothing_def)

lemma pays_nothing_trans: "pays_nothing a b \<Longrightarrow> pays_nothing b c \<Longrightarrow> pays_nothing a c"
  by (simp add: pays_nothing_def)

lemma spawn_requests_pays_nothing: "pays_nothing cl (snd (spawn_requests ask ps cl))"
  by (induction ps arbitrary: cl) (auto simp: Let_def split_def client_request_id_def pays_nothing_def)

lemma candidate_pool_pays_nothing: "pays_nothing cl (snd (get_merkle_candidate_pool U M cl a ty sz ts))"
  by (simp add: get_merkle_candidate_pool_def Let_def split_def spawn_requests_pays_nothing split: sum.splits)

lemma build_pools_pays_nothing: "pays_nothing cl (snd (build_candidate_pools U M cl mps ty sz ts))"
proof -
  let ?f = "\<lambda>c mp. let (r, c') = get_merkle_candidate_pool U M c (me_midpoint_address M mp) ty sz ts
            in (try_bind r (\<lambda>nodes. Inr \<lparr>midpoint_proof = mp, candidate_nodes = nodes\<rparr>), c')"
  have step: "pays_nothing cl c \<Longrightarrow> pays_nothing cl (snd (?f c mp)) \<and> True" for c :: "'a Client" and mp
    using candidate_pool_pays_nothing [of c U M "me_midpoint_address M mp" ty sz ts] pays_nothing_trans
    by (auto simp: split_def Let_def)
  have "pays_nothing cl (snd (run_all ?f cl mps))"
    using run_all_inv [where I = "pays_nothing cl" and R = "\<lambda>x y. True" and f = ?f, OF step pays_nothing_refl] by blast
  then show ?thesis by (simp add: build_candidate_pools_def split_def Let_def)
qed

section \<open>The proofs of a batch\<close>

text \<open>
  What a proof \<open>b\<close> for the address \<open>a\<close> consists of: the address proof of a leaf of a tree the
  wallet paid for, and the pool the contract chose among those of the tree.
\<close>

definition merkle_proof_for ::
  "'br rmp \<Rightarrow> ('br, 't) merkle_env \<Rightarrow> wallet_ops \<Rightarrow> (byte \<times> bytes list \<times> u64) set \<Rightarrow> u32 \<Rightarrow> xorname \<Rightarrow> bytes \<Rightarrow> bool" where
  "merkle_proof_for R M w paid ty a b \<longleftrightarrow>
     (\<exists>xs i tree ts mps pool ap.
        me_from_xornames M xs = Inr tree \<and> me_reward_candidates M tree ts = Inr mps \<and> midpoint_proof pool \<in> set mps \<and>
        (\<forall>c \<in> set (candidate_nodes pool). valid_candidate M ts ty c) \<and>
        (\<exists>commitments. (me_depth M tree, commitments, ts) \<in> paid \<and> me_to_commitment M pool \<in> set commitments \<and>
           me_pay_for_merkle_tree M w (me_depth M tree) commitments ts = Inr (me_pool_hash M pool)) \<and>
        i < length xs \<and> xs ! i = a \<and> me_address_proof M tree i a = Inr ap \<and>
        serialize_merkle_proof R \<lparr>mp_address = a, data_proof = ap, winner_pool = pool\<rparr> = Inr b)"

lemma merkle_proof_for_mono:
  "merkle_proof_for R M w paid ty a b \<Longrightarrow> paid \<subseteq> paid' \<Longrightarrow> merkle_proof_for R M w paid' ty a b"
  unfolding merkle_proof_for_def by blast

definition proofs_ok ::
  "'br rmp \<Rightarrow> ('br, 't) merkle_env \<Rightarrow> wallet_ops \<Rightarrow> (byte \<times> bytes list \<times> u64) set \<Rightarrow> u32 \<Rightarrow> (xorname \<rightharpoonup> bytes) \<Rightarrow> bool" where
  "proofs_ok R M w paid ty m \<longleftrightarrow> (\<forall>a b. m a = Some b \<longrightarrow> merkle_proof_for R M w paid ty a b)"

lemma find_some: "List.find P xs = Some x \<Longrightarrow> x \<in> set xs \<and> P x"
  by (auto simp: find_Some_iff)

lemma single_batch_proofs:
  fixes cl :: "'c Client"
  assumes "pay_for_merkle_single_batch U M cl xs ty sz = (Inr res, cl')" "valid_schedule (ue_schedule U)"
    and "cl_wallet cl = Some w"
  shows "dom (mb_proofs res) = set xs \<and> cl_wallet cl' = Some w \<and>
    (\<exists>t. cl_merkle_payments cl' = t # cl_merkle_payments cl) \<and>
    proofs_ok (ue_rmp U) M w (set (cl_merkle_payments cl')) ty (mb_proofs res)"
proof -
  have w: "require_wallet cl = Inr w" using assms(3) by (simp add: require_wallet_def)
  obtain tree ts mps where plan: "merkle_plan M (me_now M (cl_next_request_id cl)) xs = Inr (tree, ts, mps)"
    using assms(1) w by (auto simp: pay_for_merkle_single_batch_def split: sum.splits prod.splits)
  obtain pools cl1 where pools: "build_candidate_pools U M cl mps ty sz ts = (Inr pools, cl1)"
    using assms(1) w plan by (auto simp: pay_for_merkle_single_batch_def split: sum.splits prod.splits)
  let ?cs = "map (me_to_commitment M) pools"
  obtain pool proofs where p: "me_pay_for_merkle_tree M w (me_depth M tree) ?cs ts = Inr (me_pool_hash M pool)"
      "pool \<in> set pools" "traverse (merkle_chunk_proof (ue_rmp U) M tree pool) (enumerate 0 xs) = Inr proofs"
      "res = \<lparr>mb_proofs = map_of (rev proofs), mb_chunk_count = length xs\<rparr>"
    and cl': "cl' = cl1\<lparr>cl_merkle_payments := (me_depth M tree, ?cs, ts) # cl_merkle_payments cl1\<rparr>"
    using assms(1) w plan pools
    by (auto simp: pay_for_merkle_single_batch_def Let_def result_simps dest!: find_some)
  have tree: "me_from_xornames M xs = Inr tree" "me_reward_candidates M tree ts = Inr mps"
    using plan by (auto simp: merkle_plan_def Let_def result_simps)
  have same: "cl_wallet cl1 = cl_wallet cl" "cl_merkle_payments cl1 = cl_merkle_payments cl"
    using build_pools_pays_nothing [of cl U M mps ty sz ts] pools by (simp_all add: pays_nothing_def)
  have entry: "length proofs = length xs \<and> (\<forall>i < length xs. fst (proofs ! i) = xs ! i \<and>
      (\<exists>ap. me_address_proof M tree i (xs ! i) = Inr ap \<and>
        serialize_merkle_proof (ue_rmp U) \<lparr>mp_address = xs ! i, data_proof = ap, winner_pool = pool\<rparr> = Inr (snd (proofs ! i))))"
  proof (intro conjI allI impI)
    show "length proofs = length xs" using traverse_length [OF p(3)] by simp
    fix i assume i: "i < length xs"
    then have "merkle_chunk_proof (ue_rmp U) M tree pool (i, xs ! i) = Inr (proofs ! i)"
      using traverse_nth [OF p(3), of i] by (simp add: nth_enumerate_eq)
    then show "fst (proofs ! i) = xs ! i" "\<exists>ap. me_address_proof M tree i (xs ! i) = Inr ap \<and>
        serialize_merkle_proof (ue_rmp U) \<lparr>mp_address = xs ! i, data_proof = ap, winner_pool = pool\<rparr> = Inr (snd (proofs ! i))"
      by (cases "proofs ! i"; auto simp: merkle_chunk_proof_def result_simps)+
  qed
  have "map fst proofs = xs" using entry by (intro nth_equalityI) auto
  then have "dom (mb_proofs res) = set xs" by (simp add: p(4) dom_map_of_conv_image_fst) (metis image_set)
  moreover have "proofs_ok (ue_rmp U) M w (set (cl_merkle_payments cl')) ty (mb_proofs res)"
    unfolding proofs_ok_def
  proof (intro allI impI)
    fix a b assume "mb_proofs res a = Some b"
    then have "(a, b) \<in> set proofs" using p(4) by (auto dest: map_of_SomeD)
    then obtain i where i: "i < length xs" "proofs ! i = (a, b)" using entry by (metis in_set_conv_nth)
    with entry obtain ap where "xs ! i = a" "me_address_proof M tree i a = Inr ap"
        "serialize_merkle_proof (ue_rmp U) \<lparr>mp_address = a, data_proof = ap, winner_pool = pool\<rparr> = Inr b"
      by force
    moreover have "(me_depth M tree, ?cs, ts) \<in> set (cl_merkle_payments cl')" by (simp add: cl')
    moreover have "me_to_commitment M pool \<in> set ?cs" using p(2) by simp
    ultimately show "merkle_proof_for (ue_rmp U) M w (set (cl_merkle_payments cl')) ty a b"
      unfolding merkle_proof_for_def using tree i(1) p(1) build_candidate_pools_valid [OF pools assms(2) p(2)] by blast
  qed
  ultimately show ?thesis using same assms(3) by (simp add: cl')
qed

lemma sub_batches_proofs:
  fixes cl :: "'c Client"
  assumes "merkle_sub_batches U M ty sz cl bs acc = (Inr proofs, cl')" "valid_schedule (ue_schedule U)"
    and "cl_wallet cl = Some w" "proofs_ok (ue_rmp U) M w (set (cl_merkle_payments cl)) ty acc"
  shows "dom proofs = dom acc \<union> set (concat bs) \<and> length (cl_merkle_payments cl') = length (cl_merkle_payments cl) + length bs \<and>
    set (cl_merkle_payments cl) \<subseteq> set (cl_merkle_payments cl') \<and> cl_wallet cl' = Some w \<and>
    proofs_ok (ue_rmp U) M w (set (cl_merkle_payments cl')) ty proofs"
  using assms(1,3,4)
proof (induction bs arbitrary: cl acc)
  case (Cons b bs)
  obtain sub cl1 where sub: "pay_for_merkle_single_batch U M cl b ty sz = (Inr sub, cl1)"
    using Cons.prems(1) by (auto split: prod.splits sum.splits)
  note s = single_batch_proofs [OF sub assms(2) Cons.prems(2)]
  have rest: "merkle_sub_batches U M ty sz cl1 bs (acc ++ mb_proofs sub) = (Inr proofs, cl')" using Cons.prems(1) sub by simp
  have sup: "set (cl_merkle_payments cl) \<subseteq> set (cl_merkle_payments cl1)" using s by auto
  then have "proofs_ok (ue_rmp U) M w (set (cl_merkle_payments cl1)) ty (acc ++ mb_proofs sub)"
    using s Cons.prems(3) merkle_proof_for_mono unfolding proofs_ok_def by (fastforce simp: map_add_Some_iff)
  from Cons.IH [OF rest _ this] show ?case using s sup by (auto simp: dom_map_add)
qed simp

lemma merkle_batch_proofs:
  assumes "pay_for_merkle_batch U M cl xs ty sz = (Inr res, cl')" "valid_schedule (ue_schedule U)"
    and "cl_wallet cl = Some w" "0 < me_max_leaves M"
  shows "dom (mb_proofs res) = set xs \<and> proofs_ok (ue_rmp U) M w (set (cl_merkle_payments cl')) ty (mb_proofs res)"
proof (cases "me_max_leaves M < length xs")
  case True
  let ?bs = "slice_chunks (me_max_leaves M) xs"
  have multi: "pay_for_merkle_multi_batch U M cl xs ty sz = (Inr res, cl')"
    using assms(1) True by (simp add: pay_for_merkle_batch_def split: if_splits)
  obtain r c where r: "merkle_sub_batches U M ty sz cl ?bs Map.empty = (r, c)" by fastforce
  then obtain proofs where p: "r = Inr proofs" "c = cl'" "mb_proofs res = proofs"
    using multi by (cases r) (auto simp: pay_for_merkle_multi_batch_def)
  have "proofs_ok (ue_rmp U) M w (set (cl_merkle_payments cl)) ty Map.empty" by (simp add: proofs_ok_def)
  from sub_batches_proofs [OF r [unfolded p(1,2)] assms(2,3) this] show ?thesis
    by (simp add: p(3) concat_slice_chunks [OF assms(4)])
next
  case False
  then have "pay_for_merkle_single_batch U M cl xs ty sz = (Inr res, cl')"
    using assms(1) by (simp add: pay_for_merkle_batch_def split: if_splits)
  from single_batch_proofs [OF this assms(2,3)] show ?thesis by simp
qed

section \<open>The proofs are accepted\<close>

text \<open>
  What the client and the node rely on about the merkle trees of \<open>evmlib\<close>: both use the same hash of
  a winner pool, and a proof made from a tree verifies against the root of its midpoint, its depth
  and its timestamp. The verification of \<open>evmlib\<close> may also look at the clock, which is not an
  argument of \<open>verify_merkle_proof\<close> in the code: the last law speaks of a time at which the timestamp
  is accepted.
\<close>

definition merkle_laws :: "('br, 'g) pay_env \<Rightarrow> ('br, 't) merkle_env \<Rightarrow> bool" where
  "merkle_laws E M \<longleftrightarrow>
     quote_ops E = me_quote_ops M \<and> (\<forall>m. winner_pool_hash E m = me_pool_hash M (winner_pool m)) \<and>
     (\<forall>xs tree ts mps mp i ap.
        me_from_xornames M xs = Inr tree \<longrightarrow> me_reward_candidates M tree ts = Inr mps \<longrightarrow> mp \<in> set mps \<longrightarrow> i < length xs \<longrightarrow>
        me_address_proof M tree i (xs ! i) = Inr ap \<longrightarrow>
        verify_merkle_proof E (xs ! i) ap mp (me_depth M tree) (midpoint_root E mp) ts = Inr ())"

text \<open>The contract records what it was paid: one candidate of the winner pool for every level of the tree.\<close>

definition contract_records ::
  "('br, 't) merkle_env \<Rightarrow> 'g chain \<Rightarrow> PaymentVerifierConfig \<Rightarrow> wallet_ops \<Rightarrow> (byte \<times> bytes list \<times> u64) set \<Rightarrow> bool" where
  "contract_records M ch cfg w paid \<longleftrightarrow>
     (\<forall>(d, commitments, ts) \<in> paid. \<forall>pool.
        me_to_commitment M pool \<in> set commitments \<longrightarrow>
        me_pay_for_merkle_tree M w d commitments ts = Inr (me_pool_hash M pool) \<longrightarrow>
        (\<exists>raw. merkle_payment_info ch (network (evm cfg)) (me_pool_hash M pool) = Inr raw \<and>
           raw_depth raw = d \<and> raw_timestamp raw = ts \<and> length (raw_paid raw) = unat d \<and>
           (\<forall>(a, i) \<in> set (raw_paid raw). unat i < length (candidate_nodes pool) \<and>
              cn_reward_address (candidate_nodes pool ! unat i) = a)))"

definition pool_cache_current :: "'g chain \<Rightarrow> ('c, 'p) PaymentVerifier \<Rightarrow> bool" where
  "pool_cache_current ch v \<longleftrightarrow> lru_laws (pool_lru v) \<and>
     (\<forall>h info. lru_view (pool_lru v) (pool_cache v) h = Some info \<longrightarrow>
        (\<exists>raw. merkle_payment_info ch (network (evm (pv_config v))) h = Inr raw \<and> info = on_chain_info raw))"

lemma pool_payment_info_current:
  assumes "pool_cache_current ch v" "merkle_payment_info ch (network (evm (pv_config v))) h = Inr raw"
  shows "fst (pool_payment_info ch h v) = Inr (on_chain_info raw)"
proof (cases "fst (lru_get (pool_lru v) (pool_cache v) h)")
  case None
  then show ?thesis using assms(2) by (simp add: pool_payment_info_def Let_def split_def)
next
  case (Some info)
  then have "lru_view (pool_lru v) (pool_cache v) h = Some info" using assms(1) by (simp add: pool_cache_current_def lru_laws_def)
  then have "info = on_chain_info raw" using assms unfolding pool_cache_current_def by fastforce
  then show ?thesis using Some by (simp add: pool_payment_info_def Let_def split_def)
qed

lemma merkle_proof_accepted:
  assumes "merkle_proof_for (rmp_serde E) M w paid ty a b" "rmp_laws (rmp_serde E)" "merkle_laws E M"
    and "contract_records M ch (pv_config v) w paid" "pool_cache_current ch v"
    and "MIN_PAYMENT_PROOF_SIZE_BYTES \<le> length b" "length b \<le> MAX_PAYMENT_PROOF_SIZE_BYTES"
  shows "\<exists>s. fst (verify_payment E ch v a (Some b)) = Inr s \<and> can_store s"
proof -
  obtain xs i tree ts mps pool ap commitments where p: "me_from_xornames M xs = Inr tree"
      "me_reward_candidates M tree ts = Inr mps" "midpoint_proof pool \<in> set mps"
      "\<forall>c \<in> set (candidate_nodes pool). valid_candidate M ts ty c" "i < length xs" "xs ! i = a"
      "me_address_proof M tree i a = Inr ap"
    and b: "serialize_merkle_proof (rmp_serde E) \<lparr>mp_address = a, data_proof = ap, winner_pool = pool\<rparr> = Inr b"
    and c: "(me_depth M tree, commitments, ts) \<in> paid" "me_to_commitment M pool \<in> set commitments"
      "me_pay_for_merkle_tree M w (me_depth M tree) commitments ts = Inr (me_pool_hash M pool)"
    using assms(1) unfolding merkle_proof_for_def by blast
  let ?m = "\<lparr>mp_address = a, data_proof = ap, winner_pool = pool\<rparr>"
  obtain raw where raw: "merkle_payment_info ch (network (evm (pv_config v))) (me_pool_hash M pool) = Inr raw"
      "raw_depth raw = me_depth M tree" "raw_timestamp raw = ts" "length (raw_paid raw) = unat (me_depth M tree)"
      "\<forall>(a, i) \<in> set (raw_paid raw). unat i < length (candidate_nodes pool) \<and> cn_reward_address (candidate_nodes pool ! unat i) = a"
    using bspec [OF assms(4) [unfolded contract_records_def] c(1)] c(2,3) by auto
  have "merkle_paid E a ?m (on_chain_info raw)"
    using p assms(3) raw(2-5)
    by (auto simp: merkle_paid_def on_chain_info_def valid_candidate_def merkle_laws_def)
  then have valid: "validate_merkle_proof E a ?m (on_chain_info raw) = Inr ()" using validate_merkle_proof_iff [of ?m a E] by simp
  have d: "deserialize_merkle_proof (rmp_serde E) b = Inr ?m" "detect_proof_type b = Some Merkle"
    using b assms(2)
    by (auto simp: serialize_merkle_proof_def rmp_laws_def result_simps deserialize_merkle_proof_def detect_proof_type_def)
  let ?v = "snd (check_payment_required v a)"
  have v: "pv_config ?v = pv_config v" "pool_lru ?v = pool_lru v" "pool_cache ?v = pool_cache v"
    by (simp_all add: check_payment_required_def split_def Let_def)
  then have cur: "pool_cache_current ch ?v" using assms(5) by (simp add: pool_cache_current_def)
  have "fst (pool_payment_info ch (winner_pool_hash E ?m) ?v) = Inr (on_chain_info raw)"
    using pool_payment_info_current [OF cur] raw(1) v(1) assms(3) by (simp add: merkle_laws_def)
  then have "fst (verify_merkle_payment E ch ?v a b) = Inr ()"
    using d(1) valid by (auto simp: verify_merkle_payment_def split: prod.splits sum.splits)
  then have "fst (verify_proof E ch ?v a b) = Inr ()" using d(2) assms(6,7) by (simp add: verify_proof_def)
  moreover have "fst (check_payment_required v a) \<noteq> PaymentVerified"
    by (auto simp: check_payment_required_def Let_def split_def)
  ultimately show ?thesis
    by (auto simp: verify_payment_def can_store_def split: prod.splits PaymentStatus.splits sum.splits)
qed

text \<open>
  C9: a merkle batch that is paid for gives every chunk a proof that the nodes accept. When
  \<open>pay_for_merkle_batch\<close> succeeds, also for more chunks than one tree holds, there is a proof for
  each address and for no other, and a node that sees the contract's record of the payment permits
  the chunk to be stored, whether or not the record of the pool is in its cache.
\<close>

theorem merkle_batch_accepted:
  assumes "pay_for_merkle_batch U M cl addresses ty sz = (Inr res, cl')" "valid_schedule (ue_schedule U)"
    and "cl_wallet cl = Some w" "0 < me_max_leaves M" "ue_rmp U = rmp_serde E" "rmp_laws (rmp_serde E)"
    and "merkle_laws E M" "contract_records M ch (pv_config v) w (set (cl_merkle_payments cl'))" "pool_cache_current ch v"
  shows "dom (mb_proofs res) = set addresses \<and>
    (\<forall>a b. mb_proofs res a = Some b \<longrightarrow> MIN_PAYMENT_PROOF_SIZE_BYTES \<le> length b \<longrightarrow> length b \<le> MAX_PAYMENT_PROOF_SIZE_BYTES \<longrightarrow>
       (\<exists>s. fst (verify_payment E ch v a (Some b)) = Inr s \<and> can_store s))"
  using merkle_batch_proofs [OF assms(1-4)] merkle_proof_accepted [OF _ assms(6-9)]
  unfolding proofs_ok_def assms(5) by blast

section \<open>A remainder of one chunk\<close>

lemma merkle_sub_batches_append:
  "merkle_sub_batches U M ty sz cl (bs @ [b]) acc =
     (case merkle_sub_batches U M ty sz cl bs acc of
        (Inl e, c) \<Rightarrow> (Inl e, c)
      | (Inr proofs, c) \<Rightarrow>
          (case pay_for_merkle_single_batch U M c b ty sz of
             (Inl e, c') \<Rightarrow> (Inl e, c')
           | (Inr sub, c') \<Rightarrow> (Inr (proofs ++ mb_proofs sub), c')))"
  by (induction bs arbitrary: cl acc) (auto split: sum.splits prod.splits)

lemma slice_chunks_append:
  assumes "0 < n"
  shows "length xs = k * n \<Longrightarrow> slice_chunks n (xs @ ys) = slice_chunks n xs @ slice_chunks n ys"
proof (induction k arbitrary: xs)
  case 0
  then show ?case by (simp add: slice_chunks.simps [of n "[]"])
next
  case (Suc k)
  then have xs: "xs \<noteq> []" "n \<le> length xs" using assms by auto
  then have "slice_chunks n (xs @ ys) = take n xs # slice_chunks n (drop n xs @ ys)"
    using assms by (subst slice_chunks.simps) simp
  also have "\<dots> = take n xs # slice_chunks n (drop n xs) @ slice_chunks n ys" using Suc.IH [of "drop n xs"] Suc.prems by simp
  also have "\<dots> = slice_chunks n xs @ slice_chunks n ys" using assms xs by (subst (3) slice_chunks.simps) simp
  finally show ?case .
qed

text \<open>
  C38: a batch that leaves a remainder of one chunk is never paid for completely. A merkle tree needs two
  leaves; when the number of chunks is one more than a multiple of \<open>MAX_LEAVES\<close>, the client pays
  for all full trees, then fails on the last chunk and returns none of the proofs it paid for.
\<close>

theorem merkle_remainder_fails:
  assumes "\<And>x. \<exists>e. me_from_xornames M [x] = Inl e" "valid_schedule (ue_schedule U)"
    and "1 < me_max_leaves M" "me_max_leaves M < length addresses" "length addresses mod me_max_leaves M = 1"
  shows "case merkle_sub_batches U M ty sz cl (slice_chunks (me_max_leaves M) (butlast addresses)) Map.empty of
      (Inl e, c) \<Rightarrow> pay_for_merkle_batch U M cl addresses ty sz = (Inl e, c)
    | (Inr proofs, c) \<Rightarrow>
        (\<exists>e. pay_for_merkle_batch U M cl addresses ty sz = (Inl (PaymentErr (MerkleTreeFailed e)), c)) \<and>
        length (cl_merkle_payments c) = length (cl_merkle_payments cl) + length addresses div me_max_leaves M"
proof -
  let ?n = "me_max_leaves M"
  have ne: "addresses \<noteq> []" using assms(4) by auto
  have len: "length (butlast addresses) = length addresses div ?n * ?n"
    using assms(5) by (metis add_diff_cancel_right' div_mult_mod_eq length_butlast)
  have n: "0 < ?n" using assms(3) by simp
  have "slice_chunks ?n [last addresses] = [[last addresses]]"
    using n by (simp add: slice_chunks.simps [of ?n "[last addresses]"] slice_chunks.simps [of ?n "[]"])
  then have slices: "slice_chunks ?n addresses = slice_chunks ?n (butlast addresses) @ [[last addresses]]"
    using slice_chunks_append [OF n len, of "[last addresses]"] ne by simp
  have pay: "pay_for_merkle_batch U M cl addresses ty sz = pay_for_merkle_multi_batch U M cl addresses ty sz"
    using assms(3,4) by (simp add: pay_for_merkle_batch_def)
  obtain r c where first: "merkle_sub_batches U M ty sz cl (slice_chunks ?n (butlast addresses)) Map.empty = (r, c)" by fastforce
  show ?thesis
  proof (cases r)
    case (Inl e)
    then show ?thesis using first by (simp add: pay pay_for_merkle_multi_batch_def slices merkle_sub_batches_append)
  next
    case (Inr proofs)
    have "butlast addresses \<noteq> []" using assms(3,4) length_butlast [of addresses] by (metis diff_is_0_eq list.size(3) not_le less_trans)
    then have "slice_chunks ?n (butlast addresses) \<noteq> []" using n by (subst slice_chunks.simps) simp
    then obtain w where w: "cl_wallet cl = Some w"
      using first Inr by (cases "slice_chunks ?n (butlast addresses)"; cases "cl_wallet cl")
        (auto simp: pay_for_merkle_single_batch_def require_wallet_def)
    have "proofs_ok (ue_rmp U) M w (set (cl_merkle_payments cl)) ty Map.empty" by (simp add: proofs_ok_def)
    note sub = sub_batches_proofs [OF first [unfolded Inr] assms(2) w this]
    have "length (slice_chunks ?n (butlast addresses)) = length addresses div ?n"
    proof -
      let ?k = "length addresses div ?n"
      have "?k * ?n + ?n - 1 = ?k * ?n + (?n - 1)" using n by simp
      also have "\<dots> div ?n = ?k" using n by (simp only: div_mult_self3) simp
      finally show ?thesis using n by (simp only: length_slice_chunks len)
    qed
    moreover obtain e where "me_from_xornames M [last addresses] = Inl e" using assms(1) by blast
    then have "pay_for_merkle_single_batch U M c [last addresses] ty sz = (Inl (PaymentErr (MerkleTreeFailed e)), c)"
      using sub by (simp add: pay_for_merkle_single_batch_def require_wallet_def merkle_plan_def)
    ultimately show ?thesis
      using first Inr sub by (simp add: pay pay_for_merkle_multi_batch_def slices merkle_sub_batches_append)
  qed
qed

section \<open>A sample batch\<close>

definition sample_pool :: "bytes MerklePaymentCandidatePool" where
  "sample_pool = \<lparr>midpoint_proof = [], candidate_nodes = [sample_candidate]\<rparr>"

definition sample_merkle_env :: "(bytes, xorname list) merkle_env" where
  "sample_merkle_env =
     \<lparr>me_candidates_per_pool = 1, me_max_leaves = 2,
      me_from_xornames = \<lambda>xs. if length xs < 2 then Inl ''too few leaves'' else Inr xs, me_depth = \<lambda>t. 1,
      me_reward_candidates = \<lambda>t ts. Inr [[]], me_midpoint_address = id, me_address_proof = \<lambda>t i a. Inr [],
      me_pool_hash = \<lambda>p. if p = sample_pool then [1] else [0],
      me_to_commitment = \<lambda>p. if p = sample_pool then [1] else [0],
      me_pay_for_merkle_tree = \<lambda>w d cs ts. Inr [1], me_candidate_from_slice = \<lambda>b. Inr sample_candidate,
      me_quote_ops = sample_quote_env, me_now = \<lambda>n. 7000000000\<rparr>"

definition merkle_paying_env :: "bytes upload_env" where
  "merkle_paying_env = paying_env\<lparr>ue_rmp := sample_rmp,
     ue_net := (ue_net paying_env)\<lparr>ce_codec :=
       \<lparr>to_stdvec = \<lambda>m. Inr (le_bytes 8 (unat (request_id m))),
        from_postcard = \<lambda>b. Inr \<lparr>request_id = word_of_nat (le_value (tl b)), body = MerkleQuoteResponse (CandidateSuccess [])\<rparr>,
        blake3 = \<lambda>b. b\<rparr>\<rparr>\<rparr>"

lemma merkle_paying_schedule: "valid_schedule (ue_schedule merkle_paying_env)" "reorder (ue_schedule merkle_paying_env) xs = xs"
  by (simp_all add: valid_schedule_def merkle_paying_env_def paying_env_def reorder_def map_nth)

lemma sample_candidates:
  "request_candidate merkle_paying_env sample_merkle_env a 0 sz 7 rid p = Some (Inr sample_candidate)"
  by (simp add: request_candidate_def merkle_paying_env_def paying_env_def msg_encode_def msg_decode_def
      send_and_await_chunk_response_def candidate_response_handler_def rid_round_trip MAX_WIRE_MESSAGE_SIZE_def sample_merkle_env_def)

lemma sample_pools:
  "fst (build_candidate_pools merkle_paying_env sample_merkle_env cl [[]] 0 sz 7) = Inr [sample_pool]"
proof -
  have find: "find_closest_peers (ue_net merkle_paying_env) a 2 = Inr [([1], []), ([2], [])]" for a
    by (simp add: find_closest_peers_def merkle_paying_env_def paying_env_def)
  have "fst (spawn_requests (request_candidate merkle_paying_env sample_merkle_env a 0 sz 7) [([1], []), ([2], [])] c) =
      [(([1], []), Inr sample_candidate), (([2], []), Inr sample_candidate)]" for a and c :: "'a Client"
    by (simp add: sample_candidates Let_def split_def)
  moreover have "verify_merkle_candidate_signature sample_quote_env sample_candidate"
    "cn_merkle_payment_timestamp sample_candidate = 7" "qm_data_type (cn_quoting_metrics sample_candidate) = 0"
    by (simp_all add: verify_merkle_candidate_signature_def sample_quote_env_def sample_candidate_def sample_metrics_def)
  ultimately have "fst (get_merkle_candidate_pool merkle_paying_env sample_merkle_env c a 0 sz 7) = Inr [sample_candidate]"
    for a and c :: "'a Client"
    using find [of a]
    by (simp add: get_merkle_candidate_pool_def sample_merkle_env_def Let_def split_def merkle_paying_schedule(2)
        del: spawn_requests.simps)
  then show ?thesis
    by (simp add: build_candidate_pools_def Let_def split_def merkle_paying_schedule(2) sample_pool_def)
qed

lemma sample_single_batch:
  fixes cl :: "'c Client"
  assumes "cl_wallet cl = Some w" "2 \<le> length xs"
  shows "\<exists>c. pay_for_merkle_single_batch merkle_paying_env sample_merkle_env cl xs 0 sz =
    (Inr \<lparr>mb_proofs = map_of (rev (map (\<lambda>a. (a, PROOF_TAG_MERKLE # a)) xs)), mb_chunk_count = length xs\<rparr>, c) \<and>
    set (cl_merkle_payments c) = insert (1, [[1]], 7) (set (cl_merkle_payments cl))"
proof -
  have plan: "merkle_plan sample_merkle_env (me_now sample_merkle_env n) xs = Inr (xs, 7, [[]])" for n
    using assms(2) by (simp add: merkle_plan_def sample_merkle_env_def duration_since_def as_secs_def)
  obtain c where c: "build_candidate_pools merkle_paying_env sample_merkle_env cl [[]] 0 sz 7 = (Inr [sample_pool], c)"
    using sample_pools by (metis prod.collapse)
  then have same: "cl_merkle_payments c = cl_merkle_payments cl"
    using build_pools_pays_nothing [of cl merkle_paying_env sample_merkle_env "[[]]" 0 sz 7] by (simp add: pays_nothing_def)
  have "merkle_chunk_proof sample_rmp sample_merkle_env xs sample_pool (i, a) = Inr (a, PROOF_TAG_MERKLE # a)" for i a
    by (simp add: merkle_chunk_proof_def sample_merkle_env_def serialize_merkle_proof_def sample_rmp_def sample_merkle_def
        sample_pool_def)
  then have "traverse (merkle_chunk_proof sample_rmp sample_merkle_env xs sample_pool) (enumerate 0 xs) =
      Inr (map ((\<lambda>a. (a, PROOF_TAG_MERKLE # a)) \<circ> snd) (enumerate 0 xs))"
    by (intro traverse_pure) (auto simp: comp_def)
  moreover have "map ((\<lambda>a. (a, PROOF_TAG_MERKLE # a)) \<circ> snd) (enumerate 0 xs) = map (\<lambda>a. (a, PROOF_TAG_MERKLE # a)) xs"
    by (simp only: map_snd_enumerate flip: map_map)
  ultimately have proofs: "traverse (merkle_chunk_proof sample_rmp sample_merkle_env xs sample_pool) (enumerate 0 xs) =
      Inr (map (\<lambda>a. (a, PROOF_TAG_MERKLE # a)) xs)" by simp
  have env: "ue_rmp merkle_paying_env = sample_rmp" by (simp add: merkle_paying_env_def)
  have ops: "me_depth sample_merkle_env t = 1" "me_to_commitment sample_merkle_env sample_pool = [1]"
    "me_pay_for_merkle_tree sample_merkle_env w 1 [[1]] 7 = Inr [1]" "me_pool_hash sample_merkle_env sample_pool = [1]" for t
    by (simp_all add: sample_merkle_env_def)
  show ?thesis using c same assms(1) by (simp add: pay_for_merkle_single_batch_def require_wallet_def plan env ops proofs)
qed

lemma merkle_batch_accepted_witness:
  "\<exists>res cl'. pay_for_merkle_batch merkle_paying_env sample_merkle_env paying_client [replicate 32 9, replicate 32 8] 0 100 = (Inr res, cl') \<and>
     (\<forall>a \<in> {replicate 32 9, replicate 32 8}. \<exists>s. fst (verify_payment
        (sample_pay_env\<lparr>winner_pool_hash := \<lambda>m. me_pool_hash sample_merkle_env (winner_pool m)\<rparr>) sample_chain
        (PaymentVerifier_new list_lru list_lru sample_pay_config) a (mb_proofs res a)) = Inr s \<and> can_store s)"
proof -
  let ?E = "sample_pay_env\<lparr>winner_pool_hash := \<lambda>m. me_pool_hash sample_merkle_env (winner_pool m)\<rparr>"
  let ?v = "PaymentVerifier_new list_lru list_lru sample_pay_config" and ?xs = "[replicate 32 9, replicate 32 8] :: xorname list"
  let ?p = "map_of (rev (map (\<lambda>a. (a, PROOF_TAG_MERKLE # a)) ?xs))"
  obtain w where w: "cl_wallet paying_client = Some w" by (simp add: paying_client_def with_wallet_def)
  obtain c where c: "pay_for_merkle_single_batch merkle_paying_env sample_merkle_env paying_client ?xs 0 100 =
      (Inr \<lparr>mb_proofs = ?p, mb_chunk_count = length ?xs\<rparr>, c)"
      "set (cl_merkle_payments c) = insert (1, [[1]], 7) (set (cl_merkle_payments paying_client))"
    using sample_single_batch [OF w, of ?xs 100] by auto
  have paid: "set (cl_merkle_payments c) = {(1, [[1]], 7)}"
    using c(2) by (simp add: paying_client_def with_wallet_def Client_from_node_def)
  have batch: "pay_for_merkle_batch merkle_paying_env sample_merkle_env paying_client ?xs 0 100 =
      (Inr \<lparr>mb_proofs = ?p, mb_chunk_count = length ?xs\<rparr>, c)"
    using c(1) by (simp add: pay_for_merkle_batch_def sample_merkle_env_def)
  have laws: "0 < me_max_leaves sample_merkle_env" "ue_rmp merkle_paying_env = rmp_serde ?E" "rmp_laws (rmp_serde ?E)"
      "merkle_laws ?E sample_merkle_env"
    by (simp_all add: sample_merkle_env_def merkle_paying_env_def sample_pay_env_def merkle_laws_def)
  have chain: "contract_records sample_merkle_env sample_chain (pv_config ?v) w (set (cl_merkle_payments c))"
    by (simp add: paid contract_records_def sample_merkle_env_def sample_chain_def sample_pool_def sample_candidate_def)
  have cache: "pool_cache_current sample_chain ?v"
    by (simp add: pool_cache_current_def PaymentVerifier_new_def lru_lawsD(1) [OF list_lru_laws] DEFAULT_POOL_CACHE_CAPACITY_def)
  note accepted = merkle_batch_accepted [OF batch merkle_paying_schedule(1) w laws chain cache]
  have "?p a = Some (PROOF_TAG_MERKLE # a)" if "a \<in> set ?xs" for a using that by auto
  then show ?thesis
    using batch accepted by (fastforce simp: MIN_PAYMENT_PROOF_SIZE_BYTES_def MAX_PAYMENT_PROOF_SIZE_BYTES_def)
qed

lemma merkle_remainder_fails_witness:
  "(\<exists>e c. pay_for_merkle_batch merkle_paying_env sample_merkle_env paying_client [[1], [2], [3]] 0 100 =
       (Inl (PaymentErr (MerkleTreeFailed e)), c) \<and> length (cl_merkle_payments c) = 1)"
proof -
  obtain w where w: "cl_wallet paying_client = Some w" by (simp add: paying_client_def with_wallet_def)
  have "slice_chunks 2 [[1], [2] :: xorname] = [[[1], [2]]]" by (simp add: slice_chunks.simps)
  moreover obtain res c where "pay_for_merkle_single_batch merkle_paying_env sample_merkle_env paying_client [[1], [2]] 0 100 = (Inr res, c)"
    using sample_single_batch [OF w, of "[[1], [2]]" 100] by auto
  ultimately have "merkle_sub_batches merkle_paying_env sample_merkle_env 0 100 paying_client (slice_chunks 2 [[1], [2]]) Map.empty =
      (Inr (Map.empty ++ mb_proofs res), c)"
    by simp
  moreover have "cl_merkle_payments paying_client = []" by (simp add: paying_client_def with_wallet_def Client_from_node_def)
  moreover have "me_max_leaves sample_merkle_env = 2" "\<And>x. \<exists>e. me_from_xornames sample_merkle_env [x] = Inl e"
    by (simp_all add: sample_merkle_env_def)
  ultimately show ?thesis
    using merkle_remainder_fails [where M = sample_merkle_env and U = merkle_paying_env and addresses = "[[1], [2], [3]]"
          and ty = 0 and sz = 100 and cl = paying_client]
      merkle_paying_schedule(1) by auto
qed

end
