(* ===== verification/Data_Client.thy ===== *)
theory Data_Client
  imports Merkle_Upload Own_Chunks
begin

text \<open>
  Data in memory: \<open>src/ant-client/ant-core/src/data/client/data.rs\<close>. Uploads encrypt the data and
  store the chunks, paid for singly or with a merkle tree; downloads fetch the chunks of a data map
  and decrypt them.

  \<open>data_env\<close> collects the layers below. \<open>encrypt\<close> takes fuel; when it runs out, so that the code
  would still be running, the result of an upload is \<open>None\<close>. Chunks of a download are fetched one
  after the other; the code keeps \<open>chunk_concurrency\<close> requests running but keeps their order.
\<close>

section \<open>Environment and results\<close>

record ('br, 't) data_env =
  de_upload :: "'br upload_env"
  de_merkle :: "('br, 't) merkle_env"
  de_crypt :: se_env
  de_max_chunk_size :: nat
  de_map_to_vec :: "DataMap \<Rightarrow> string + bytes"
  de_map_from_slice :: "bytes \<Rightarrow> string + DataMap"

record DataUploadResult =
  du_data_map :: DataMap
  du_chunks_stored :: nat
  du_payment_mode_used :: PaymentMode

record PreparedUpload =
  pu_data_map :: DataMap
  pu_prepared_chunks :: "PreparedChunk list"
  pu_payment_intent :: PaymentIntent

section \<open>Uploads\<close>

definition encrypt_data :: "('br, 't) data_env \<Rightarrow> nat \<Rightarrow> bytes \<Rightarrow> (data_error + DataMap \<times> bytes list) option" where
  "encrypt_data D fuel data =
     map_option (map_err (\<lambda>e. EncryptionErr EncryptFailed)) (encrypt (de_crypt D) (de_max_chunk_size D) fuel data)"

text \<open>The payment per wave, which ends every upload that does not use a merkle tree.\<close>

definition upload_single ::
  "('br, 't) data_env \<Rightarrow> 'c Client \<Rightarrow> DataMap \<Rightarrow> bytes list \<Rightarrow> (data_error + DataUploadResult) \<times> 'c Client" where
  "upload_single D cl dm chunks =
     (let (r, cl1) = batch_upload_chunks (de_upload D) cl chunks
      in (try_bind r (\<lambda>addresses. Inr \<lparr>du_data_map = dm, du_chunks_stored = length addresses,
                                        du_payment_mode_used = SingleMode\<rparr>), cl1))"

definition data_upload ::
  "('br, 't) data_env \<Rightarrow> nat \<Rightarrow> 'c Client \<Rightarrow> bytes \<Rightarrow> ((data_error + DataUploadResult) \<times> 'c Client) option" where
  "data_upload D fuel cl data =
     map_option (\<lambda>r. case r of Inl e \<Rightarrow> (Inl e, cl) | Inr (dm, chunks) \<Rightarrow> upload_single D cl dm chunks)
       (encrypt_data D fuel data)"

definition upload_with_merkle ::
  "('br, 't) data_env \<Rightarrow> PaymentMode \<Rightarrow> 'c Client \<Rightarrow> DataMap \<Rightarrow> bytes list \<Rightarrow> (data_error + DataUploadResult) \<times> 'c Client" where
  "upload_with_merkle D mode cl dm chunks =
     (let addresses = map (compute_address (ce_codec (ue_net (de_upload D)))) chunks;
          avg_size = sum_list (map length chunks) div max (length chunks) 1;
          avg_size_u64 = (if avg_size < 2 ^ 64 then word_of_nat avg_size else 0)
      in case pay_for_merkle_batch (de_upload D) (de_merkle D) cl addresses DATA_TYPE_CHUNK avg_size_u64 of
           (Inl (InsufficientPeers m), cl1) \<Rightarrow>
             if mode = AutoMode then upload_single D cl1 dm chunks else (Inl (InsufficientPeers m), cl1)
         | (Inl e, cl1) \<Rightarrow> (Inl e, cl1)
         | (Inr batch_result, cl1) \<Rightarrow>
             (let (r, cl2) = merkle_upload_chunks (de_upload D) cl1 chunks addresses batch_result
              in (try_bind r (\<lambda>stored. Inr \<lparr>du_data_map = dm, du_chunks_stored = stored,
                                            du_payment_mode_used = MerkleMode\<rparr>), cl2)))"

definition data_upload_with_mode ::
  "('br, 't) data_env \<Rightarrow> nat \<Rightarrow> 'c Client \<Rightarrow> bytes \<Rightarrow> PaymentMode \<Rightarrow> ((data_error + DataUploadResult) \<times> 'c Client) option" where
  "data_upload_with_mode D fuel cl data mode =
     map_option (\<lambda>r. case r of
         Inl e \<Rightarrow> (Inl e, cl)
       | Inr (dm, chunks) \<Rightarrow>
           if should_use_merkle (length chunks) mode then upload_with_merkle D mode cl dm chunks
           else upload_single D cl dm chunks)
       (encrypt_data D fuel data)"

text \<open>Quotes for one chunk after the other; the first error ends the preparation.\<close>

fun prepare_chunks ::
  "'br upload_env \<Rightarrow> 'c Client \<Rightarrow> bytes list \<Rightarrow> (data_error + PreparedChunk list) \<times> 'c Client" where
  "prepare_chunks U cl [] = (Inr [], cl)"
| "prepare_chunks U cl (c # cs) =
     (case prepare_chunk_payment U cl c of
        (Inl e, cl1) \<Rightarrow> (Inl e, cl1)
      | (Inr prepared, cl1) \<Rightarrow>
          (let (r, cl2) = prepare_chunks U cl1 cs
           in (try_bind r (\<lambda>ps. Inr (case prepared of Some p \<Rightarrow> p # ps | None \<Rightarrow> ps)), cl2)))"

definition data_prepare_upload ::
  "('br, 't) data_env \<Rightarrow> nat \<Rightarrow> 'c Client \<Rightarrow> bytes \<Rightarrow> ((data_error + PreparedUpload) \<times> 'c Client) option" where
  "data_prepare_upload D fuel cl data =
     map_option (\<lambda>r. case r of
         Inl e \<Rightarrow> (Inl e, cl)
       | Inr (dm, chunks) \<Rightarrow>
           (let (p, cl1) = prepare_chunks (de_upload D) cl chunks
            in (try_bind p (\<lambda>prepared. Inr \<lparr>pu_data_map = dm, pu_prepared_chunks = prepared,
                                            pu_payment_intent = from_prepared_chunks prepared\<rparr>), cl1)))
       (encrypt_data D fuel data)"

section \<open>Public data maps\<close>

definition data_map_store :: "('br, 't) data_env \<Rightarrow> 'c Client \<Rightarrow> DataMap \<Rightarrow> (data_error + xorname) \<times> 'c Client" where
  "data_map_store D cl dm =
     (case map_err (\<lambda>e. SerializationErr (DataMapMalformed e)) (de_map_to_vec D dm) of
        Inl e \<Rightarrow> (Inl e, cl)
      | Inr serialized \<Rightarrow> chunk_put (de_upload D) cl serialized)"

definition data_map_fetch :: "('br, 't) data_env \<Rightarrow> 'c Client \<Rightarrow> xorname \<Rightarrow> (data_error + DataMap) \<times> 'c Client" where
  "data_map_fetch D cl addr =
     (let (r, cl1) = client_chunk_get (ue_net (de_upload D)) cl addr
      in (try_bind r (\<lambda>found. try_bind (ok_or (InvalidData (MissingChunkAt addr)) found) (\<lambda>chunk.
          map_err (\<lambda>e. SerializationErr (DataMapMalformed e)) (de_map_from_slice D (content chunk)))), cl1))"

section \<open>Downloads\<close>

fun download_chunks :: "client_env \<Rightarrow> 'c Client \<Rightarrow> xorname list \<Rightarrow> (data_error + bytes list) \<times> 'c Client" where
  "download_chunks N cl [] = (Inr [], cl)"
| "download_chunks N cl (a # as) =
     (case client_chunk_get N cl a of
        (Inl e, cl1) \<Rightarrow> (Inl e, cl1)
      | (Inr None, cl1) \<Rightarrow> (Inl (InvalidData (MissingChunkAt a)), cl1)
      | (Inr (Some chunk), cl1) \<Rightarrow>
          (let (r, cl2) = download_chunks N cl1 as in (try_bind r (\<lambda>cs. Inr (content chunk # cs)), cl2)))"

definition data_download :: "('br, 't) data_env \<Rightarrow> 'c Client \<Rightarrow> DataMap \<Rightarrow> (data_error + bytes) \<times> 'c Client" where
  "data_download D cl dm =
     (let (r, cl1) = download_chunks (ue_net (de_upload D)) cl (map dst_hash (infos dm))
      in (try_bind r (\<lambda>encrypted_chunks.
            map_err (\<lambda>e. EncryptionErr DecryptFailed) (decrypt (de_crypt D) dm encrypted_chunks)), cl1))"

section \<open>What a chunk request returns\<close>

text \<open>The content of a chunk hashes to the requested address, from the cache or from any peer.\<close>

lemma get_response_handler_hash:
  "get_response_handler P a b = Some (Inr (Some c)) \<Longrightarrow> compute_address P (content c) = a"
  by (auto simp: get_response_handler_def DataChunk_new_def split: ChunkMessageBody.splits ChunkGetResponse.splits if_splits)

lemma chunk_get_from_peer_hash:
  assumes "chunk_get_from_peer N cl a p = (Inr (Some c), cl')"
  shows "compute_address (ce_codec N) (content c) = a"
proof -
  obtain rid bs where "send_and_await_chunk_response (ce_codec N) (p2p_send_message (ce_p2p N)) (fst p) bs rid
      (get_response_handler (ce_codec N) a) (\<lambda>e. NetworkErr (SendFailed e)) (TimeoutErr ResponseTimeout) = Inr (Some c)"
    using assms by (auto simp: chunk_get_from_peer_def result_simps split: prod.splits)
  from send_and_await_source [OF this] show ?thesis by (auto dest: get_response_handler_hash)
qed

lemma chunk_get_from_peers_hash:
  "chunk_get_from_peers N cl a ps = (Inr (Some c), cl') \<Longrightarrow> compute_address (ce_codec N) (content c) = a"
  by (induction N cl a ps rule: chunk_get_from_peers.induct)
    (auto dest: chunk_get_from_peer_hash split: prod.splits sum.splits option.splits data_error.splits)

lemma client_chunk_get_hash:
  assumes "client_chunk_get N cl a = (Inr (Some c), cl')"
  shows "compute_address (ce_codec N) (content c) = a"
proof -
  have network: "compute_address (ce_codec N) (content c) = a" if "chunk_get_network N k a = (Inr (Some c), cl')" for k
    using that by (auto simp: chunk_get_network_def dest: chunk_get_from_peers_hash split: sum.splits)
  show ?thesis using assms
    by (auto simp: client_chunk_get_def Let_def DataChunk_new_def dest: network split: prod.splits option.splits if_splits)
qed

lemma download_chunks_hashes:
  "download_chunks N cl as = (Inr cs, cl') \<Longrightarrow> list_all2 (\<lambda>a c. compute_address (ce_codec N) c = a) as cs"
proof (induction as arbitrary: cl cs)
  case (Cons a as)
  then show ?case
    by (auto simp: result_simps dest: client_chunk_get_hash split: prod.splits sum.splits option.splits)
qed simp

lemma data_download_own_chunks:
  assumes "compute_address (ce_codec (ue_net (de_upload D))) = content_hash (de_crypt D)"
    and "data_download D cl dm = (Inr found, cl')"
  obtains cs where "own_chunks (de_crypt D) dm cs" "decrypt (de_crypt D) dm cs = Inr found"
proof -
  obtain cs cl1 where "download_chunks (ue_net (de_upload D)) cl (map dst_hash (infos dm)) = (Inr cs, cl1)"
    "decrypt (de_crypt D) dm cs = Inr found"
    using assms(2) by (auto simp: data_download_def result_simps split: prod.splits)
  with download_chunks_hashes [OF this(1)] that show thesis
    by (simp add: own_chunks_def list_all2_map1 assms(1))
qed

end
