(* ===== verification/Disk.thy ===== *)
theory Disk
  imports Prelude
begin

text \<open>
  The operations of \<open>std::fs\<close> that \<open>src/ant-client/ant-core/src/data/client/file.rs\<close> and
  \<open>src/ant-node/src/upgrade\<close> use, on a disk with a tree of paths. Every operation may fail:
  \<open>os_fault\<close> says which ones do and with what error; a failing write has changed nothing or left the
  prefix of the content that \<open>os_written\<close> tells. \<open>hex::encode\<close>, the free
  space of \<open>fs2\<close> and the names of the temporary directory are fields of \<open>os\<close> as well.
\<close>

type_synonym path = "string list"

datatype fs_op =
    CreateDir path
  | RemoveDirAll path
  | WriteFile path
  | ReadFile path
  | CreateFile path
  | AppendFile path nat
  | FlushFile path
  | RemoveFile path
  | RenameFile path path
  | CopyFile path path
  | SetPermissions path
  | SyncFile path

record os =
  os_fault :: "fs_op \<Rightarrow> string option"
  os_written :: "path \<Rightarrow> nat option"
  os_temp_dir :: path
  os_pid :: string
  os_show_u64 :: "u64 \<Rightarrow> string"
  os_hex_encode :: "bytes \<Rightarrow> string"
  os_available_space :: "path \<Rightarrow> string + nat"

record disk =
  dk_files :: "path \<rightharpoonup> bytes"
  dk_dirs :: "path set"

definition below :: "path \<Rightarrow> path \<Rightarrow> bool" where
  "below p q \<longleftrightarrow> take (length p) q = p"

definition fs_create_dir :: "os \<Rightarrow> path \<Rightarrow> disk \<Rightarrow> (string + unit) \<times> disk" where
  "fs_create_dir OS p d =
     (case os_fault OS (CreateDir p) of
        Some e \<Rightarrow> (Inl e, d)
      | None \<Rightarrow>
          if p \<in> dk_dirs d \<or> dk_files d p \<noteq> None then (Inl ''already exists'', d)
          else (Inr (), d\<lparr>dk_dirs := insert p (dk_dirs d)\<rparr>))"

definition fs_remove_dir_all :: "os \<Rightarrow> path \<Rightarrow> disk \<Rightarrow> disk" where
  "fs_remove_dir_all OS p d =
     (case os_fault OS (RemoveDirAll p) of
        Some e \<Rightarrow> d
      | None \<Rightarrow> d\<lparr>dk_files := (\<lambda>q. if below p q then None else dk_files d q), dk_dirs := {q \<in> dk_dirs d. \<not> below p q}\<rparr>)"

definition partial_write :: "os \<Rightarrow> path \<Rightarrow> bytes \<Rightarrow> bytes \<Rightarrow> disk \<Rightarrow> disk" where
  "partial_write OS p old content d =
     (case os_written OS p of None \<Rightarrow> d | Some n \<Rightarrow> d\<lparr>dk_files := (dk_files d)(p \<mapsto> old @ take n content)\<rparr>)"

definition fs_write :: "os \<Rightarrow> path \<Rightarrow> bytes \<Rightarrow> disk \<Rightarrow> (string + unit) \<times> disk" where
  "fs_write OS p content d =
     (case os_fault OS (WriteFile p) of
        Some e \<Rightarrow> (Inl e, partial_write OS p [] content d)
      | None \<Rightarrow> (Inr (), d\<lparr>dk_files := (dk_files d)(p \<mapsto> content)\<rparr>))"

definition fs_read :: "os \<Rightarrow> path \<Rightarrow> disk \<Rightarrow> string + bytes" where
  "fs_read OS p d =
     (case os_fault OS (ReadFile p) of Some e \<Rightarrow> Inl e | None \<Rightarrow> ok_or ''not found'' (dk_files d p))"

definition fs_create :: "os \<Rightarrow> path \<Rightarrow> disk \<Rightarrow> (string + unit) \<times> disk" where
  "fs_create OS p d =
     (case os_fault OS (CreateFile p) of
        Some e \<Rightarrow> (Inl e, d)
      | None \<Rightarrow> (Inr (), d\<lparr>dk_files := (dk_files d)(p \<mapsto> [])\<rparr>))"

text \<open>\<open>write_all\<close> on an open file, of which so many bytes are written already.\<close>

definition fs_append :: "os \<Rightarrow> path \<Rightarrow> nat \<Rightarrow> bytes \<Rightarrow> disk \<Rightarrow> (string + unit) \<times> disk" where
  "fs_append OS p pos content d =
     (let old = (case dk_files d p of Some c \<Rightarrow> c | None \<Rightarrow> [])
      in case os_fault OS (AppendFile p pos) of
           Some e \<Rightarrow> (Inl e, partial_write OS p old content d)
         | None \<Rightarrow> (Inr (), d\<lparr>dk_files := (dk_files d)(p \<mapsto> old @ content)\<rparr>))"

definition fs_flush :: "os \<Rightarrow> path \<Rightarrow> string + unit" where
  "fs_flush OS p = (case os_fault OS (FlushFile p) of Some e \<Rightarrow> Inl e | None \<Rightarrow> Inr ())"

definition fs_remove_file :: "os \<Rightarrow> path \<Rightarrow> disk \<Rightarrow> disk" where
  "fs_remove_file OS p d =
     (case os_fault OS (RemoveFile p) of Some e \<Rightarrow> d | None \<Rightarrow> d\<lparr>dk_files := (dk_files d)(p := None)\<rparr>)"

definition fs_rename :: "os \<Rightarrow> path \<Rightarrow> path \<Rightarrow> disk \<Rightarrow> (string + unit) \<times> disk" where
  "fs_rename OS p q d =
     (case os_fault OS (RenameFile p q) of
        Some e \<Rightarrow> (Inl e, d)
      | None \<Rightarrow>
          (case dk_files d p of
             None \<Rightarrow> (Inl ''not found'', d)
           | Some c \<Rightarrow> (Inr (), d\<lparr>dk_files := (dk_files d)(p := None, q \<mapsto> c)\<rparr>)))"

definition fs_copy :: "os \<Rightarrow> path \<Rightarrow> path \<Rightarrow> disk \<Rightarrow> (string + unit) \<times> disk" where
  "fs_copy OS p q d =
     (case dk_files d p of
        None \<Rightarrow> (Inl ''not found'', d)
      | Some c \<Rightarrow>
          (case os_fault OS (CopyFile p q) of
             Some e \<Rightarrow> (Inl e, partial_write OS q [] c d)
           | None \<Rightarrow> (Inr (), d\<lparr>dk_files := (dk_files d)(q \<mapsto> c)\<rparr>)))"

definition fs_exists :: "path \<Rightarrow> disk \<Rightarrow> bool" where
  "fs_exists p d \<longleftrightarrow> dk_files d p \<noteq> None \<or> p \<in> dk_dirs d"

definition fs_set_permissions :: "os \<Rightarrow> path \<Rightarrow> string + unit" where
  "fs_set_permissions OS p = (case os_fault OS (SetPermissions p) of Some e \<Rightarrow> Inl e | None \<Rightarrow> Inr ())"

definition fs_sync :: "os \<Rightarrow> path \<Rightarrow> string + unit" where
  "fs_sync OS p = (case os_fault OS (SyncFile p) of Some e \<Rightarrow> Inl e | None \<Rightarrow> Inr ())"

text \<open>Writing a temporary file, forcing it to the disk and renaming it over the destination.\<close>

definition fs_replace :: "os \<Rightarrow> path \<Rightarrow> path \<Rightarrow> bytes \<Rightarrow> disk \<Rightarrow> (string + unit) \<times> disk" where
  "fs_replace OS tmp dest content d =
     (case fs_create OS tmp d of
        (Inl e, d1) \<Rightarrow> (Inl e, d1)
      | (Inr u, d1) \<Rightarrow>
          (case fs_append OS tmp 0 content d1 of
             (Inl e, d2) \<Rightarrow> (Inl e, d2)
           | (Inr u, d2) \<Rightarrow>
               (case fs_sync OS tmp of
                  Inl e \<Rightarrow> (Inl e, d2)
                | Inr u \<Rightarrow> fs_rename OS tmp dest (fs_remove_file OS dest d2))))"

text \<open>Replacing a file: all of the new content on success, none of it otherwise, and no other file changes.\<close>

lemma fs_replace_content:
  assumes "fs_replace OS tmp dest content d = (r, d')" "tmp \<noteq> dest"
  shows "case r of Inr u \<Rightarrow> dk_files d' dest = Some content | Inl e \<Rightarrow> dk_files d' dest \<in> {None, dk_files d dest}"
proof -
  obtain c1 d1 where create: "fs_create OS tmp d = (c1, d1)" by fastforce
  obtain c2 d2 where app: "fs_append OS tmp 0 content d1 = (c2, d2)" by fastforce
  have "dk_files d1 dest = dk_files d dest" "is_ok c1 \<Longrightarrow> dk_files d1 tmp = Some []"
    using create assms(2) by (auto simp: fs_create_def split: option.splits)
  then have d2: "dk_files d1 dest = dk_files d dest" "dk_files d2 dest = dk_files d dest" "is_ok c1 \<Longrightarrow> is_ok c2 \<Longrightarrow> dk_files d2 tmp = Some content"
    using app assms(2) by (auto simp: fs_append_def partial_write_def Let_def split: option.splits)
  let ?d3 = "fs_remove_file OS dest d2"
  have d3: "dk_files ?d3 dest \<in> {None, dk_files d2 dest}" "dk_files ?d3 tmp = dk_files d2 tmp"
    using assms(2) by (auto simp: fs_remove_file_def split: option.splits)
  obtain c4 d4 where ren: "fs_rename OS tmp dest ?d3 = (c4, d4)" by fastforce
  have "is_ok c4 \<Longrightarrow> dk_files d4 dest = dk_files ?d3 tmp" "\<not> is_ok c4 \<Longrightarrow> d4 = ?d3"
    using ren by (auto simp: fs_rename_def split: option.splits)
  then show ?thesis
    using assms(1) d2 d3 by (auto simp: fs_replace_def create app ren split: sum.splits)
qed

lemmas fs_replace_ok = fs_replace_content [where r = "Inr u" for u, simplified]
lemmas fs_replace_error = fs_replace_content [where r = "Inl e" for e, simplified]

lemma fs_replace_other:
  "fs_replace OS tmp dest content d = (r, d') \<Longrightarrow> q \<noteq> tmp \<Longrightarrow> q \<noteq> dest \<Longrightarrow> dk_files d' q = dk_files d q"
  by (auto simp: fs_replace_def fs_create_def fs_append_def fs_rename_def fs_remove_file_def partial_write_def Let_def
      split: option.splits sum.splits prod.splits if_splits)

lemma below_refl [simp]: "below p p" "below p (p @ q)"
  by (simp_all add: below_def)

text \<open>What every operation on a path below \<open>p\<close> leaves alone.\<close>

definition same_outside :: "path \<Rightarrow> disk \<Rightarrow> disk \<Rightarrow> bool" where
  "same_outside p d d' \<longleftrightarrow>
     (\<forall>q. \<not> below p q \<longrightarrow> dk_files d' q = dk_files d q \<and> (q \<in> dk_dirs d' \<longleftrightarrow> q \<in> dk_dirs d))"

lemma same_outside_refl [simp]: "same_outside p d d"
  by (simp add: same_outside_def)

lemma same_outside_trans: "same_outside p d d1 \<Longrightarrow> same_outside p d1 d2 \<Longrightarrow> same_outside p d d2"
  by (simp add: same_outside_def)

lemma same_outside_ops:
  "same_outside p d (snd (fs_create_dir OS p d))"
  "same_outside p d (snd (fs_write OS (p @ q) c d))"
  "same_outside p d (fs_remove_dir_all OS p d)"
  by (auto simp: same_outside_def fs_create_dir_def fs_write_def fs_remove_dir_all_def partial_write_def split: option.splits)

text \<open>Removing a directory that did not exist before restores the disk.\<close>

definition fresh_dir :: "path \<Rightarrow> disk \<Rightarrow> bool" where
  "fresh_dir p d \<longleftrightarrow> (\<forall>q. below p q \<longrightarrow> dk_files d q = None \<and> q \<notin> dk_dirs d)"

lemma remove_fresh_dir:
  assumes "fresh_dir p d" "same_outside p d d'" "os_fault OS (RemoveDirAll p) = None"
  shows "fs_remove_dir_all OS p d' = d"
proof (rule disk.equality)
  show "dk_files (fs_remove_dir_all OS p d') = dk_files d" "dk_dirs (fs_remove_dir_all OS p d') = dk_dirs d"
    using assms by (auto simp: fresh_dir_def same_outside_def fs_remove_dir_all_def)
qed simp

end
