(* ===== verification/File_Client.thy ===== *)
theory File_Client
  imports Data_Client Disk Stream_Encrypt Stream_Decrypt
begin

text \<open>
  Files: \<open>src/ant-client/ant-core/src/data/client/file.rs\<close>. An upload encrypts a file as a stream,
  spills the encrypted chunks to a temporary directory and stores them in waves; a download decrypts
  a stream into a temporary file and renames it.

  The file to upload is what \<open>metadata\<close>, \<open>open\<close> and the successive calls of \<open>read\<close> on it return. The
  encryption runs in a thread of its own and sends its chunks through a channel; \<open>encrypt_task\<close> is
  that thread, its result the chunks that it sent and how it ended. \<open>None\<close> as the result of an upload
  means that the fuel of the shrinking of the data map, or the number of calls of the stream, ran out.
\<close>

section \<open>The spill\<close>

definition UPLOAD_WAVE_SIZE :: nat where "UPLOAD_WAVE_SIZE = 64"
definition DISK_SPACE_HEADROOM_PERCENT :: nat where "DISK_SPACE_HEADROOM_PERCENT = 10"

record ChunkSpill =
  sp_dir :: path
  sp_addresses :: "xorname list"
  sp_seen :: "xorname set"
  sp_total_bytes :: nat

definition io_err :: "string + 'a \<Rightarrow> data_error + 'a" where
  "io_err r = map_err (\<lambda>e. IoErr (FileIo e)) r"

definition spill_dir :: "os \<Rightarrow> u64 \<Rightarrow> path" where
  "spill_dir OS unique = os_temp_dir OS @ [''.ant_spill_'' @ os_pid OS @ ''_'' @ os_show_u64 OS unique]"

definition ChunkSpill_new :: "os \<Rightarrow> u64 \<Rightarrow> disk \<Rightarrow> (data_error + ChunkSpill) \<times> disk" where
  "ChunkSpill_new OS unique d =
     (let (r, d1) = fs_create_dir OS (spill_dir OS unique) d
      in (try_bind (io_err r) (\<lambda>u. Inr \<lparr>sp_dir = spill_dir OS unique, sp_addresses = [], sp_seen = {}, sp_total_bytes = 0\<rparr>), d1))"

definition spill_path :: "os \<Rightarrow> ChunkSpill \<Rightarrow> xorname \<Rightarrow> path" where
  "spill_path OS sp a = sp_dir sp @ [os_hex_encode OS a]"

definition spill_push ::
  "os \<Rightarrow> postcard \<Rightarrow> bytes \<Rightarrow> ChunkSpill \<times> disk \<Rightarrow> (data_error + unit) \<times> ChunkSpill \<times> disk" where
  "spill_push OS P data = (\<lambda>(sp, d).
     (let a = compute_address P data
      in if a \<in> sp_seen sp then (Inr (), sp, d)
         else
           (let sp1 = sp\<lparr>sp_seen := insert a (sp_seen sp)\<rparr>
            in case fs_write OS (spill_path OS sp a) data d of
                 (Inl e, d1) \<Rightarrow> (Inl (IoErr (FileIo e)), sp1, d1)
               | (Inr u, d1) \<Rightarrow>
                   (Inr (), sp1\<lparr>sp_total_bytes := sp_total_bytes sp + length data,
                                sp_addresses := sp_addresses sp @ [a]\<rparr>, d1))))"

definition spill_len :: "ChunkSpill \<Rightarrow> nat" where
  "spill_len sp = length (sp_addresses sp)"

definition avg_chunk_size :: "ChunkSpill \<Rightarrow> nat" where
  "avg_chunk_size sp =
     (if sp_addresses sp = [] then 0 else sp_total_bytes sp div length (sp_addresses sp))"

definition read_chunk :: "os \<Rightarrow> disk \<Rightarrow> ChunkSpill \<Rightarrow> xorname \<Rightarrow> data_error + bytes" where
  "read_chunk OS d sp a = io_err (fs_read OS (spill_path OS sp a) d)"

definition waves :: "ChunkSpill \<Rightarrow> xorname list list" where
  "waves sp = slice_chunks UPLOAD_WAVE_SIZE (sp_addresses sp)"

definition read_wave :: "os \<Rightarrow> disk \<Rightarrow> ChunkSpill \<Rightarrow> xorname list \<Rightarrow> data_error + (bytes \<times> xorname) list" where
  "read_wave OS d sp wave_addrs =
     traverse (\<lambda>a. try_bind (read_chunk OS d sp a) (\<lambda>data. Inr (data, a))) wave_addrs"

definition spill_cleanup :: "os \<Rightarrow> ChunkSpill \<Rightarrow> disk \<Rightarrow> disk" where
  "spill_cleanup OS sp d = fs_remove_dir_all OS (sp_dir sp) d"

definition check_disk_space_for_spill :: "os \<Rightarrow> nat \<Rightarrow> data_error + unit" where
  "check_disk_space_for_spill OS fsize =
     try_bind (map_err (\<lambda>e. IoErr AvailableSpaceUnknown) (os_available_space OS (os_temp_dir OS))) (\<lambda>available.
     let headroom = fsize div DISK_SPACE_HEADROOM_PERCENT;
         required = min (fsize + headroom) (2 ^ 64 - 1)
     in if available < required
        then Inl (InsufficientDiskSpace (DiskSpaceShort (required div (1024 * 1024)) (available div (1024 * 1024))))
        else Inr ())"

section \<open>Encrypting a file\<close>

record source_file =
  sf_metadata :: "string + nat"
  sf_open :: "string + unit"
  sf_reads :: "(string + bytes) list"

text \<open>The items of \<open>data_iter\<close>, up to the end of the file or the first error, and that error.\<close>

fun read_items :: "(string + bytes) list \<Rightarrow> bytes list \<times> string option" where
  "read_items [] = ([], None)"
| "read_items (Inl e # rs) = ([], Some e)"
| "read_items (Inr b # rs) = (if b = [] then ([], None) else (let (bs, err) = read_items rs in (b # bs, err)))"

text \<open>
  The error is in \<open>read_error\<close> from the moment on at which \<open>data_iter\<close> returned \<open>None\<close>, that is when the
  stream has seen the end of its input.
\<close>

definition read_error :: "string option \<Rightarrow> EncryptionStream \<Rightarrow> data_error + unit" where
  "read_error err st =
     (case (if input_complete st then err else None) of Some e \<Rightarrow> Inl (IoErr (FileIo e)) | None \<Rightarrow> Inr ())"

fun stream_chunks ::
  "se_env \<Rightarrow> nat \<Rightarrow> nat \<Rightarrow> string option \<Rightarrow> nat \<Rightarrow> EncryptionStream \<Rightarrow> (bytes list \<times> (data_error + EncryptionStream)) option" where
  "stream_chunks C mcs fuel err 0 st = None"
| "stream_chunks C mcs fuel err (Suc calls) st =
     (case ChunkStream_next C mcs fuel st of
        None \<Rightarrow> None
      | Some (None, st1) \<Rightarrow> Some ([], Inr st1)
      | Some (Some chunk_result, st1) \<Rightarrow>
          (case read_error err st1 of
             Inl e \<Rightarrow> Some ([], Inl e)
           | Inr u \<Rightarrow>
               (case chunk_result of
                  Inl e \<Rightarrow> Some ([], Inl (EncryptionErr EncryptFailed))
                | Inr (h, data) \<Rightarrow>
                    map_option (\<lambda>(cs, r). (data # cs, r)) (stream_chunks C mcs fuel err calls st1))))"

definition encrypt_task ::
  "se_env \<Rightarrow> nat \<Rightarrow> nat \<Rightarrow> nat \<Rightarrow> source_file \<Rightarrow> nat \<Rightarrow> (bytes list \<times> (data_error + DataMap)) option" where
  "encrypt_task C mcs fuel calls src fsize =
     (case io_err (sf_open src) of
        Inl e \<Rightarrow> Some ([], Inl e)
      | Inr u \<Rightarrow>
          (let (items, err) = read_items (sf_reads src)
           in case stream_encrypt mcs fsize items of
                Inl e \<Rightarrow> Some ([], Inl (EncryptionErr EncryptFailed))
              | Inr st \<Rightarrow>
                  map_option (\<lambda>(cs, r). (cs, try_bind r (\<lambda>st1. try_bind (read_error err st1) (\<lambda>u.
                                               ok_or (EncryptionErr NoDataMap) (into_datamap st1)))))
                    (stream_chunks C mcs fuel err calls st)))"

fun push_all ::
  "os \<Rightarrow> postcard \<Rightarrow> bytes list \<Rightarrow> ChunkSpill \<times> disk \<Rightarrow> (data_error + unit) \<times> ChunkSpill \<times> disk" where
  "push_all OS P [] s = (Inr (), s)"
| "push_all OS P (c # cs) s =
     (case spill_push OS P c s of (Inl e, s1) \<Rightarrow> (Inl e, s1) | (Inr u, s1) \<Rightarrow> push_all OS P cs s1)"

text \<open>A spill that is not returned is dropped, which removes its directory.\<close>

definition encrypt_file_to_spill ::
  "os \<Rightarrow> ('br, 't) data_env \<Rightarrow> nat \<Rightarrow> nat \<Rightarrow> source_file \<Rightarrow> u64 \<Rightarrow> disk \<Rightarrow>
   ((data_error + ChunkSpill \<times> DataMap) \<times> disk) option" where
  "encrypt_file_to_spill OS D fuel calls src unique d =
     (case io_err (sf_metadata src) of
        Inl e \<Rightarrow> Some (Inl e, d)
      | Inr fsize \<Rightarrow>
          (case ChunkSpill_new OS unique d of
             (Inl e, d1) \<Rightarrow> Some (Inl e, d1)
           | (Inr sp, d1) \<Rightarrow>
               map_option (\<lambda>(cs, r).
                   case push_all OS (ce_codec (ue_net (de_upload D))) cs (sp, d1) of
                     (Inl e, sp2, d2) \<Rightarrow> (Inl e, spill_cleanup OS sp2 d2)
                   | (Inr u, sp2, d2) \<Rightarrow>
                       (case r of
                          Inl e \<Rightarrow> (Inl (EncryptionErr EncryptionTaskFailed), spill_cleanup OS sp2 d2)
                        | Inr dm \<Rightarrow> (Inr (sp2, dm), d2)))
                 (encrypt_task (de_crypt D) (de_max_chunk_size D) fuel calls src fsize)))"

section \<open>Uploads\<close>

record FileUploadResult =
  fu_data_map :: DataMap
  fu_chunks_stored :: nat
  fu_payment_mode_used :: PaymentMode

fun upload_waves_single ::
  "os \<Rightarrow> 'br upload_env \<Rightarrow> disk \<Rightarrow> ChunkSpill \<Rightarrow> nat \<Rightarrow> 'c Client \<Rightarrow> xorname list list \<Rightarrow> (data_error + nat) \<times> 'c Client" where
  "upload_waves_single OS U d sp total_stored cl [] = (Inr total_stored, cl)"
| "upload_waves_single OS U d sp total_stored cl (w # ws) =
     (case traverse (read_chunk OS d sp) w of
        Inl e \<Rightarrow> (Inl e, cl)
      | Inr wave_data \<Rightarrow>
          (case batch_upload_chunks U cl wave_data of
             (Inl e, cl1) \<Rightarrow> (Inl e, cl1)
           | (Inr addresses, cl1) \<Rightarrow> upload_waves_single OS U d sp (total_stored + length addresses) cl1 ws))"

fun upload_waves_merkle ::
  "os \<Rightarrow> 'br upload_env \<Rightarrow> MerkleBatchPaymentResult \<Rightarrow> disk \<Rightarrow> ChunkSpill \<Rightarrow> nat \<Rightarrow> 'c Client \<Rightarrow> xorname list list \<Rightarrow>
   (data_error + nat) \<times> 'c Client" where
  "upload_waves_merkle OS U batch d sp total_stored cl [] = (Inr total_stored, cl)"
| "upload_waves_merkle OS U batch d sp total_stored cl (w # ws) =
     (case read_wave OS d sp w of
        Inl e \<Rightarrow> (Inl e, cl)
      | Inr wave \<Rightarrow>
          (let (results, cl1) = run_all (merkle_put U batch) cl wave
           in case traverse id (reorder (ue_schedule U) results) of
                Inl e \<Rightarrow> (Inl e, cl1)
              | Inr stored \<Rightarrow> upload_waves_merkle OS U batch d sp (total_stored + length stored) cl1 ws))"

definition file_result :: "DataMap \<Rightarrow> PaymentMode \<Rightarrow> (data_error + nat) \<times> 'c Client \<Rightarrow> (data_error + FileUploadResult) \<times> 'c Client" where
  "file_result dm mode = (\<lambda>(r, cl).
     (try_bind r (\<lambda>stored. Inr \<lparr>fu_data_map = dm, fu_chunks_stored = stored, fu_payment_mode_used = mode\<rparr>), cl))"

definition upload_spill ::
  "os \<Rightarrow> ('br, 't) data_env \<Rightarrow> PaymentMode \<Rightarrow> disk \<Rightarrow> ChunkSpill \<Rightarrow> DataMap \<Rightarrow> 'c Client \<Rightarrow>
   (data_error + FileUploadResult) \<times> 'c Client" where
  "upload_spill OS D mode d sp dm cl =
     (if should_use_merkle (spill_len sp) mode
      then
        (case pay_for_merkle_batch (de_upload D) (de_merkle D) cl (sp_addresses sp) DATA_TYPE_CHUNK
                (word_of_nat (avg_chunk_size sp)) of
           (Inl (InsufficientPeers m), cl1) \<Rightarrow>
             if mode = AutoMode
             then file_result dm SingleMode (upload_waves_single OS (de_upload D) d sp 0 cl1 (waves sp))
             else (Inl (InsufficientPeers m), cl1)
         | (Inl e, cl1) \<Rightarrow> (Inl e, cl1)
         | (Inr batch, cl1) \<Rightarrow>
             file_result dm MerkleMode (upload_waves_merkle OS (de_upload D) batch d sp 0 cl1 (waves sp)))
      else file_result dm SingleMode (upload_waves_single OS (de_upload D) d sp 0 cl (waves sp)))"

text \<open>The start of both uploads: the size of the file, the check of the free space, the spill.\<close>

definition spill_file ::
  "os \<Rightarrow> ('br, 't) data_env \<Rightarrow> nat \<Rightarrow> nat \<Rightarrow> source_file \<Rightarrow> u64 \<Rightarrow> disk \<Rightarrow>
   ((data_error + ChunkSpill \<times> DataMap) \<times> disk) option" where
  "spill_file OS D fuel calls src unique d =
     (case try_bind (io_err (sf_metadata src)) (check_disk_space_for_spill OS) of
        Inl e \<Rightarrow> Some (Inl e, d)
      | Inr u \<Rightarrow> encrypt_file_to_spill OS D fuel calls src unique d)"

definition file_upload_with_mode ::
  "os \<Rightarrow> ('br, 't) data_env \<Rightarrow> nat \<Rightarrow> nat \<Rightarrow> source_file \<Rightarrow> PaymentMode \<Rightarrow> u64 \<Rightarrow> 'c Client \<Rightarrow> disk \<Rightarrow>
   ((data_error + FileUploadResult) \<times> 'c Client \<times> disk) option" where
  "file_upload_with_mode OS D fuel calls src mode unique cl d =
     map_option (\<lambda>(r, d1). case r of
         Inl e \<Rightarrow> (Inl e, cl, d1)
       | Inr (sp, dm) \<Rightarrow>
           (let (result, cl1) = upload_spill OS D mode d1 sp dm cl in (result, cl1, spill_cleanup OS sp d1)))
       (spill_file OS D fuel calls src unique d)"

definition file_upload ::
  "os \<Rightarrow> ('br, 't) data_env \<Rightarrow> nat \<Rightarrow> nat \<Rightarrow> source_file \<Rightarrow> u64 \<Rightarrow> 'c Client \<Rightarrow> disk \<Rightarrow>
   ((data_error + FileUploadResult) \<times> 'c Client \<times> disk) option" where
  "file_upload OS D fuel calls src unique cl d = file_upload_with_mode OS D fuel calls src AutoMode unique cl d"

section \<open>Uploads paid by an external signer\<close>

fun prepare_spilled ::
  "os \<Rightarrow> 'br upload_env \<Rightarrow> disk \<Rightarrow> ChunkSpill \<Rightarrow> 'c Client \<Rightarrow> xorname list \<Rightarrow> (data_error + PreparedChunk list) \<times> 'c Client" where
  "prepare_spilled OS U d sp cl [] = (Inr [], cl)"
| "prepare_spilled OS U d sp cl (a # as) =
     (case read_chunk OS d sp a of
        Inl e \<Rightarrow> (Inl e, cl)
      | Inr data \<Rightarrow>
          (case prepare_chunk_payment U cl data of
             (Inl e, cl1) \<Rightarrow> (Inl e, cl1)
           | (Inr prepared, cl1) \<Rightarrow>
               (let (r, cl2) = prepare_spilled OS U d sp cl1 as
                in (try_bind r (\<lambda>ps. Inr (case prepared of Some p \<Rightarrow> p # ps | None \<Rightarrow> ps)), cl2))))"

definition file_prepare_upload ::
  "os \<Rightarrow> ('br, 't) data_env \<Rightarrow> nat \<Rightarrow> nat \<Rightarrow> source_file \<Rightarrow> u64 \<Rightarrow> 'c Client \<Rightarrow> disk \<Rightarrow>
   ((data_error + PreparedUpload) \<times> 'c Client \<times> disk) option" where
  "file_prepare_upload OS D fuel calls src unique cl d =
     map_option (\<lambda>(r, d1). case r of
         Inl e \<Rightarrow> (Inl e, cl, d1)
       | Inr (sp, dm) \<Rightarrow>
           (let (p, cl1) = prepare_spilled OS (de_upload D) d1 sp cl (sp_addresses sp)
            in (try_bind p (\<lambda>prepared. Inr \<lparr>pu_data_map = dm, pu_prepared_chunks = prepared,
                                            pu_payment_intent = from_prepared_chunks prepared\<rparr>),
                cl1, spill_cleanup OS sp d1)))
       (spill_file OS D fuel calls src unique d)"

definition finalize_upload ::
  "'br upload_env \<Rightarrow> 'c Client \<Rightarrow> PreparedUpload \<Rightarrow> (bytes \<rightharpoonup> bytes) \<Rightarrow> (data_error + FileUploadResult) \<times> 'c Client" where
  "finalize_upload U cl prepared tx_hash_map =
     (case finalize_batch_payment (ue_rmp U) (pu_prepared_chunks prepared) tx_hash_map of
        Inl e \<Rightarrow> (Inl e, cl)
      | Inr paid_chunks \<Rightarrow>
          (let (r, cl1) = store_paid_chunks U cl paid_chunks
           in file_result (pu_data_map prepared) SingleMode (try_bind r (\<lambda>stored. Inr (length stored)), cl1)))"

section \<open>Downloads\<close>

text \<open>
  The closure of \<open>streaming_decrypt\<close>. The cache of the client is shared with other tasks, so the state
  that the client is in when a batch is requested is an argument, \<open>state batch\<close>. The chunks of a batch
  arrive in the order of the schedule, and the first failure among them in that order is returned.
\<close>

definition fetch_indexed ::
  "client_env \<Rightarrow> 'c Client \<Rightarrow> nat \<times> xorname \<Rightarrow> (nat \<times> xorname \<times> (data_error + DataChunk option)) \<times> 'c Client" where
  "fetch_indexed N cl q = (let (r, cl1) = client_chunk_get N cl (snd q) in ((fst q, snd q, r), cl1))"

definition download_batch ::
  "client_env \<Rightarrow> schedule \<Rightarrow> ((nat \<times> xorname) list \<Rightarrow> 'c Client) \<Rightarrow> chunk_getter" where
  "download_batch N s state batch =
     (let (results, cl') = run_all (fetch_indexed N) (state batch) batch
      in traverse (\<lambda>(i, h, r).
             try_bind (map_err (\<lambda>e. Generic (NetworkFetchFailed h)) r) (\<lambda>found.
             try_bind (ok_or (Generic (ChunkNotFound h)) found) (\<lambda>chunk. Inr (i, content chunk))))
           (reorder s results))"

text \<open>
  The loop that writes the decrypted chunks. It ends because every call of \<open>ds_next\<close> that yields a
  chunk takes it from the current batch or starts a later batch.
\<close>

definition chunks_left :: "DecryptionStream \<Rightarrow> nat" where
  "chunks_left ds =
     (length (chunk_infos ds) - current_batch_start ds) + (length (current_batch_chunks ds) - current_batch_index ds)"

lemma decrypt_batch_length: "length (fst (decrypt_batch C hs l xs acc)) \<le> length acc + length xs"
  by (induction C hs l xs acc rule: decrypt_batch.induct) (auto split: sum.splits)

lemma fetch_next_batch_left:
  assumes "fetch_next_batch C batch ds = (Inr True, ds')" "length (current_batch_chunks ds) \<le> current_batch_index ds"
  shows "chunks_left ds' \<le> chunks_left ds"
proof -
  let ?n = "length (chunk_infos ds)" and ?s = "current_batch_start ds"
  let ?e = "min (?s + batch) ?n"
  obtain xs chunks where d: "decrypt_batch C (ds_src_hashes ds) (child_level ds) (zip (slice_of ?s ?e (chunk_infos ds)) xs) [] = (chunks, None)"
    "ds' = ds\<lparr>current_batch_chunks := chunks, current_batch_start := ?e, current_batch_index := 0\<rparr>" "?s < ?n"
    using assms(1) by (auto simp: fetch_next_batch_def Let_def split: if_splits sum.splits prod.splits option.splits)
  have "length chunks \<le> ?e - ?s"
    using decrypt_batch_length [of C "ds_src_hashes ds" "child_level ds" "zip (slice_of ?s ?e (chunk_infos ds)) xs" "[]"] d(1)
    by simp
  then show ?thesis using d(2,3) by (auto simp: chunks_left_def)
qed

lemma ds_next_left: "ds_next C batch ds = (Some (Inr c), ds') \<Longrightarrow> chunks_left ds' < chunks_left ds"
proof -
  have yield: "chunks_left e' < chunks_left e" if "yield_current e = (Some (Inr c), e')" for e e'
    using that by (auto simp: yield_current_def chunks_left_def split: option.splits)
  show "ds_next C batch ds = (Some (Inr c), ds') \<Longrightarrow> chunks_left ds' < chunks_left ds"
    by (auto simp: ds_next_def split: if_splits prod.splits sum.splits dest!: yield dest: fetch_next_batch_left)
qed

function write_chunks ::
  "os \<Rightarrow> se_env \<Rightarrow> nat \<Rightarrow> path \<Rightarrow> nat \<Rightarrow> DecryptionStream \<Rightarrow> disk \<Rightarrow> (data_error + nat) \<times> disk" where
  "write_chunks OS C batch tmp bytes_written ds d =
     (case ds_next C batch ds of
        (None, ds1) \<Rightarrow> (try_bind (io_err (fs_flush OS tmp)) (\<lambda>u. Inr bytes_written), d)
      | (Some (Inl e), ds1) \<Rightarrow> (Inl (EncryptionErr DecryptFailed), d)
      | (Some (Inr chunk_bytes), ds1) \<Rightarrow>
          (case fs_append OS tmp bytes_written chunk_bytes d of
             (Inl e, d1) \<Rightarrow> (Inl (IoErr (FileIo e)), d1)
           | (Inr u, d1) \<Rightarrow> write_chunks OS C batch tmp (bytes_written + length chunk_bytes) ds1 d1))"
  by pat_completeness auto
termination
  by (relation "measure (\<lambda>(OS, C, batch, tmp, n, ds, d). chunks_left ds)") (auto dest: ds_next_left [OF sym])

declare write_chunks.simps [simp del]

definition download_path :: "os \<Rightarrow> u64 \<Rightarrow> path \<Rightarrow> path" where
  "download_path OS unique output =
     (if output = [] then [''.''] else butlast output) @ [''.ant_download_'' @ os_pid OS @ ''_'' @ os_show_u64 OS unique @ ''.tmp'']"

definition write_download ::
  "os \<Rightarrow> se_env \<Rightarrow> nat \<Rightarrow> path \<Rightarrow> DecryptionStream \<Rightarrow> disk \<Rightarrow> (data_error + nat) \<times> disk" where
  "write_download OS C batch tmp ds d =
     (case fs_create OS tmp d of
        (Inl e, d1) \<Rightarrow> (Inl (IoErr (FileIo e)), d1)
      | (Inr u, d1) \<Rightarrow> write_chunks OS C batch tmp 0 ds d1)"

definition file_download ::
  "os \<Rightarrow> se_env \<Rightarrow> nat \<Rightarrow> client_env \<Rightarrow> schedule \<Rightarrow> ((nat \<times> xorname) list \<Rightarrow> 'c Client) \<Rightarrow> DataMap \<Rightarrow> path \<Rightarrow> u64 \<Rightarrow> disk \<Rightarrow> (data_error + nat) \<times> disk" where
  "file_download OS C batch N s state dm output unique d =
     (case streaming_decrypt C dm (download_batch N s state) of
        Inl e \<Rightarrow> (Inl (EncryptionErr DecryptFailed), d)
      | Inr stream \<Rightarrow>
          (let tmp = download_path OS unique output
           in case write_download OS C batch tmp stream d of
                (Inl e, d1) \<Rightarrow> (Inl e, fs_remove_file OS tmp d1)
              | (Inr bytes_written, d1) \<Rightarrow>
                  (case fs_rename OS tmp output d1 of
                     (Inr u, d2) \<Rightarrow> (Inr bytes_written, d2)
                   | (Inl e, d2) \<Rightarrow> (Inl (IoErr (FileIo e)), fs_remove_file OS tmp d2))))"

end
