(* ===== verification/Data_Client_Correct.thy ===== *)
theory Data_Client_Correct
  imports Data_Client Wasm_Client Merkle_Upload_Correct
begin

text \<open>
  What a download of data in memory returns: the uploaded data or an error, and always an error when
  the data map was shrunk.
\<close>

section \<open>Downloads\<close>

lemma data_download_decrypts:
  assumes "0 < mcs" "bincode_size (de_crypt D)" "18 + 80 * get_num_chunks mcs (length data) < 3 * mcs"
    and "encrypt (de_crypt D) mcs fuel data = Some (Inr (dm, chunks))"
    and "no_second_preimage (de_crypt D) (set chunks)"
    and "compute_address (ce_codec (ue_net (de_upload D))) = content_hash (de_crypt D)"
    and "fst (data_download D cl dm) = Inr found"
  obtains cs where "own_chunks (de_crypt D) dm cs" "set cs \<subseteq> set chunks" "decrypt (de_crypt D) dm cs = Inr found"
proof -
  obtain cl' where "data_download D cl dm = (Inr found, cl')" using assms(7) by (metis prod.collapse)
  then obtain cs where cs: "own_chunks (de_crypt D) dm cs" "decrypt (de_crypt D) dm cs = Inr found"
    using data_download_own_chunks [OF assms(6)] by metis
  with own_chunks_mem [OF cs(1) encrypt_dst_hashes [OF assms(4,1,2,3)] assms(5)] that show thesis by blast
qed

text \<open>
  C22: A download in memory never returns wrong data, and never succeeds for a shrunk data map.
  Whatever the peers answer and whatever the cache holds, when \<open>data_download\<close> returns bytes for the
  data map of an upload, the bytes are the uploaded data and the map was not shrunk: for data of more
  than three chunks, whose map \<open>encrypt\<close> shrinks, the chunks of the data are never requested, so that
  every download fails.
\<close>

theorem data_download_authentic:
  assumes "se_laws (de_crypt D)" "bincode_size (de_crypt D)" "0 < mcs"
    and "18 + 80 * get_num_chunks mcs (length data) < 3 * mcs"
    and "encrypt (de_crypt D) mcs fuel data = Some (Inr (dm, chunks))"
    and "no_second_preimage (de_crypt D) (set chunks)"
    and "is_child dm \<Longrightarrow> content_hash (de_crypt D) (hd chunks) \<notin> dst_hash ` set (infos dm)"
    and "compute_address (ce_codec (ue_net (de_upload D))) = content_hash (de_crypt D)"
    and "fst (data_download D cl dm) = Inr found"
  shows "found = data \<and> \<not> is_child dm"
proof -
  obtain cs where cs: "own_chunks (de_crypt D) dm cs" "set cs \<subseteq> set chunks" "decrypt (de_crypt D) dm cs = Inr found"
    using data_download_decrypts [OF assms(3,2,4,5,6,8,9)] by blast
  note inj = no_second_preimage_inj [OF assms(6)]
  have single: "\<not> is_child dm"
    using shrunk_own_chunks_missing [OF assms(1-5) _ inj _ cs(1,2)] assms(7) cs(3) by fastforce
  with own_chunks_decrypt [OF assms(1-5) _ inj cs(1,2)] cs(3) show ?thesis by simp
qed

definition pinned_data_env :: "(bytes, xorname list) data_env" where
  "pinned_data_env =
     \<lparr>de_upload = merkle_paying_env\<lparr>ue_net := put_net\<lparr>ce_codec := codec pinned_env\<rparr>\<rparr>, de_merkle = sample_merkle_env,
      de_crypt = crypt pinned_env, de_max_chunk_size = 160, de_map_to_vec = \<lambda>m. Inl ''unused'',
      de_map_from_slice = \<lambda>b. Inl ''unused''\<rparr>"

definition pinned_cache_client :: "(xorname, bytes) lru_list Client" where
  "pinned_cache_client =
     (Client_from_node list_lru (ClientConfig_default None))
       \<lparr>cl_chunk_cache := \<lparr>cc_lru = list_lru, cc_inner = (4, map (\<lambda>x. (0 # x # replicate 30 0, [x])) [1, 2, 3])\<rparr>\<rparr>"

lemma pinned_data_download: "is_ok (fst (data_download pinned_data_env pinned_cache_client pinned_map))"
proof -
  have hashes: "map dst_hash (infos pinned_map) = map (\<lambda>x. 0 # x # replicate 30 0) [1, 2, 3]" by code_simp
  have "compute_address (codec pinned_env) [x] = 0 # x # replicate 30 0" for x
    by (simp only: pinned_hashes) (simp add: pinned_hash_def)
  then have "fst (download_chunks (ue_net (de_upload pinned_data_env)) pinned_cache_client (map dst_hash (infos pinned_map))) =
      Inr [[1], [2], [3]]"
    unfolding hashes
    by (simp add: pinned_data_env_def pinned_cache_client_def client_chunk_get_def ccache_get_def list_lru_def DataChunk_new_def
        Client_from_node_def entries_def list_get_def list_put_def Let_def)
  moreover have "is_ok (decrypt (crypt pinned_env) pinned_map [[1], [2], [3]])" by code_simp
  ultimately show ?thesis
    by (auto simp: data_download_def pinned_data_env_def is_ok_iff result_simps split: prod.splits)
qed

lemma pinned_second_preimage: "no_second_preimage (crypt pinned_env) (set [[1], [2], [3]])"
  unfolding no_second_preimage_def pinned_hashes
proof (intro ballI allI impI)
  fix x y
  assume "y \<in> set [[1], [2], [3]]" "pinned_hash pinned_bytes x = pinned_hash pinned_bytes y"
  then show "x = y" by (intro pinned_collisions [of y x]) auto
qed

lemma data_download_authentic_witness:
  "fst (data_download pinned_data_env pinned_cache_client pinned_map) = Inr [1, 2, 3]"
proof -
  obtain found where found: "fst (data_download pinned_data_env pinned_cache_client pinned_map) = Inr found"
    using pinned_data_download by (auto simp: is_ok_iff)
  have env: "de_crypt pinned_data_env = crypt pinned_env"
    "ce_codec (ue_net (de_upload pinned_data_env)) = codec pinned_env"
    by (simp_all add: pinned_data_env_def)
  have small: "18 + 80 * get_num_chunks 160 (length [1, 2, 3 :: byte]) < 3 * 160" "\<not> is_child pinned_map"
    by code_simp+
  have "no_second_preimage (crypt pinned_env) (set [[1], [2], [3]])" by (rule pinned_second_preimage)
  moreover have "compute_address (codec pinned_env) = content_hash (crypt pinned_env)"
    by (rule ext) (simp only: pinned_hashes)
  ultimately have "found = [1, 2, 3] \<and> \<not> is_child pinned_map"
    using data_download_authentic [of pinned_data_env 160 "[1, 2, 3]" 8 pinned_map "[[1], [2], [3]]" pinned_cache_client found,
        unfolded env, OF pinned_laws _ small(1) pinned_encrypt _ _ _ found] small(2)
    by simp
  with found show ?thesis by simp
qed

end
