(* ===== verification/File_Download_Correct.thy ===== *)
theory File_Download_Correct
  imports File_Client Stream_Decrypt_Correct Data_Client_Correct
begin

text \<open>
  Downloads to a file: whatever the network and the disk do, the output file is either untouched or
  holds exactly the uploaded data.
\<close>

section \<open>The root map\<close>

text \<open>A closure cannot make decryption of a set of chunks return anything but the encrypted data.\<close>

lemma chunk_map_hash: "chunk_map C cs h = Some c \<Longrightarrow> content_hash C c = h"
  by (auto simp: chunk_map_def dest: hash_map_of_Some_mem)

lemma decrypt_full_set_only:
  assumes "se_laws C" "0 < mcs" "encrypt_one_level C mcs data l = Inr (dm, ecs)" "no_second_preimage C (set ecs)"
    and "infos dm' = infos dm" "child_level_of dm' = l" "decrypt_full_set C dm' cs = Inr out"
  shows "out = data"
proof (rule one_level_okE [OF assms(3,2)])
  assume dm: "dm = map_of_chunks C mcs data ecs" and n: "length ecs = get_num_chunks mcs (length data)"
  obtain found where found: "list_all2 (\<lambda>info c. chunk_map C cs (dst_hash info) = Some c) (infos dm') found"
    "decrypt_sorted_set C (extract_hashes dm') found (child_level_of dm') = Inr out"
    using assms(7) by (auto simp: decrypt_full_set_def result_simps traverse_Inr_iff)
  have infos: "length (infos dm') = length ecs" "\<And>i. i < length ecs \<Longrightarrow> dst_hash (infos dm' ! i) = content_hash C (ecs ! i)"
    by (simp_all add: assms(5) dm nth_enumerate_eq info_nth_def)
  have "found = ecs"
  proof (rule nth_equalityI)
    show len: "length found = length ecs" using list_all2_lengthD [OF found(1)] infos(1) by simp
    fix i assume "i < length found"
    then have i: "i < length ecs" using len by simp
    then have "content_hash C (found ! i) = content_hash C (ecs ! i)"
      using list_all2_nthD [OF found(1), of i] infos by (auto dest: chunk_map_hash)
    then show "found ! i = ecs ! i" using assms(4) i unfolding no_second_preimage_def by (meson nth_mem)
  qed
  moreover have "extract_hashes dm' = src_hashes C mcs data"
    using extract_hashes_map_of_chunks n assms(5) dm by metis
  ultimately show ?thesis using found(2) decrypt_sorted_set_ok [OF assms(1-3)] assms(6) by simp
qed

lemma root_parallel_only:
  assumes "se_laws C" "0 < mcs" "encrypt_one_level C mcs bs l = Inr (dm, ecs)" "no_second_preimage C (set ecs)"
    and "from_bytes (bincode_deserialize C) bs = Inr parent" "\<not> is_child parent"
    and "get_root_data_map_parallel C getter (with_child (infos dm) l) = Inr root"
  shows "root = parent"
proof -
  let ?m = "with_child (infos dm) l"
  have "dm = map_of_chunks C mcs bs ecs" using assms(2,3) by (auto elim!: one_level_okE)
  then have m: "is_child ?m" "infos ?m = infos dm" "child_level_of ?m = l"
    using infos_with_child_sorted [of dm C mcs bs ecs l] by (simp_all add: is_child_def with_child_def child_level_of_def)
  obtain cache cs bs' where step: "decrypt_full_set C ?m cs = Inr bs'"
    "try_bind (map_err (\<lambda>e. Generic (DeserializeDataMapFailed e)) (from_bytes (bincode_deserialize C) bs'))
       (\<lambda>p. inner_get_root_map_parallel C getter cache p 1) = Inr root"
    using assms(7) m(1) by (auto simp: get_root_data_map_parallel_def inner_get_root_map_parallel.simps [of _ _ _ ?m] result_simps)
  have "bs' = bs" by (rule decrypt_full_set_only [OF assms(1-4) m(2,3) step(1)])
  then show ?thesis
    using step(2) assms(5,6) by (simp add: inner_get_root_map_parallel.simps [of _ _ _ parent])
qed

section \<open>The closure of the client\<close>

text \<open>\<open>honest\<close>: what the closure answers to requests for chunks of the data is these chunks, in any order.\<close>

definition honest :: "se_env \<Rightarrow> bytes list \<Rightarrow> chunk_getter \<Rightarrow> bool" where
  "honest C ecs getter \<longleftrightarrow>
     (\<forall>is rs. (\<forall>i \<in> set is. i < length ecs) \<longrightarrow>
        getter (map (\<lambda>i. (i, content_hash C (ecs ! i))) is) = Inr rs \<longrightarrow> mset rs = mset (map (\<lambda>i. (i, ecs ! i)) is))"

lemma run_all_results:
  assumes "run_all (fetch_indexed N) cl reqs = (results, cl')"
  shows "map (\<lambda>x. (fst x, fst (snd x))) results = reqs \<and>
     (\<forall>(i, h, r) \<in> set results. \<forall>c. r = Inr (Some c) \<longrightarrow> compute_address (ce_codec N) (content c) = h)"
  using assms
proof (induction reqs arbitrary: cl results cl')
  case (Cons q reqs)
  obtain r cl1 where r: "client_chunk_get N cl (snd q) = (r, cl1)" by fastforce
  obtain rs cl2 where rs: "run_all (fetch_indexed N) cl1 reqs = (rs, cl2)" by fastforce
  have "fetch_indexed N cl q = ((fst q, snd q, r), cl1)" by (simp add: fetch_indexed_def r)
  then have results: "results = (fst q, snd q, r) # rs" using Cons.prems rs by simp
  show ?case using Cons.IH [OF rs] r unfolding results by (auto dest: client_chunk_get_hash)
qed simp

lemma list_all2_function: "list_all2 (\<lambda>x y. y = f x) xs ys \<Longrightarrow> ys = map f xs"
  by (induction rule: list_all2_induct) auto

lemma download_batch_honest:
  assumes "valid_schedule s" "no_second_preimage C (set ecs)" "compute_address (ce_codec N) = content_hash C"
  shows "honest C ecs (download_batch N s state)"
  unfolding honest_def
proof (intro allI impI)
  fix js rs
  let ?reqs = "map (\<lambda>i. (i, content_hash C (ecs ! i))) js"
  assume js: "\<forall>i \<in> set js. i < length ecs" and getter: "download_batch N s state ?reqs = Inr rs"
  obtain results cl' where run: "run_all (fetch_indexed N) (state ?reqs) ?reqs = (results, cl')" by fastforce
  note res = run_all_results [OF run]
  let ?answer = "\<lambda>x :: nat \<times> xorname \<times> (data_error + DataChunk option). (fst x, ecs ! fst x)"
  have perm: "mset (reorder s results) = mset results" by (rule mset_reorder [OF assms(1)])
  have found: "list_all2 (\<lambda>x y. \<exists>c. snd (snd x) = Inr (Some c) \<and> y = (fst x, content c)) (reorder s results) rs"
    using getter unfolding download_batch_def run traverse_Inr_iff prod.case Let_def
    by (rule list_all2_mono) (auto simp: result_simps)
  have "list_all2 (\<lambda>x y. y = ?answer x) (reorder s results) rs"
    using found
  proof (rule list.rel_mono_strong)
    fix x y
    assume x: "x \<in> set (reorder s results)" and y: "\<exists>c. snd (snd x) = Inr (Some c) \<and> y = (fst x, content c)"
    obtain i h r where xi: "x = (i, h, r)" by (cases x)
    have mem: "x \<in> set results" using x perm by (metis set_mset_mset)
    then have "(fst x, fst (snd x)) \<in> set (map (\<lambda>x. (fst x, fst (snd x))) results)" unfolding set_map by (rule imageI)
    then have "(i, h) \<in> set ?reqs" unfolding res [THEN conjunct1] xi by (simp only: fst_conv snd_conv)
    then have i: "i < length ecs" "h = content_hash C (ecs ! i)" using js by auto
    obtain c where c: "r = Inr (Some c)" "y = (i, content c)" using y xi by auto
    then have "content_hash C (content c) = content_hash C (ecs ! i)" using res mem xi i assms(3) by auto
    then show "y = ?answer x" using assms(2) i c xi unfolding no_second_preimage_def by auto
  qed
  then have "rs = map ?answer (reorder s results)" by (rule list_all2_function)
  then have "mset rs = mset (map ?answer results)" by (simp only: mset_map perm)
  also have "map ?answer results = map (\<lambda>x. (fst x, ecs ! fst x)) (map (\<lambda>x. (fst x, fst (snd x))) results)"
    by simp
  also have "\<dots> = map (\<lambda>i. (i, ecs ! i)) js" unfolding res [THEN conjunct1] by (simp add: comp_def)
  finally show "mset rs = mset (map (\<lambda>i. (i, ecs ! i)) js)" .
qed

text \<open>An honest closure behaves, while it answers, like one that always answers.\<close>

definition always :: "bytes list \<Rightarrow> chunk_getter \<Rightarrow> chunk_getter" where
  "always ecs getter reqs =
     (case getter reqs of Inr rs \<Rightarrow> Inr rs | Inl e \<Rightarrow> Inr (map (\<lambda>(i, h). (i, ecs ! i)) reqs))"

definition always_stream :: "bytes list \<Rightarrow> DecryptionStream \<Rightarrow> DecryptionStream" where
  "always_stream ecs ds = ds\<lparr>get_chunk_parallel := always ecs (get_chunk_parallel ds)\<rparr>"

lemma serves_always: "honest C ecs getter \<Longrightarrow> serves C ecs (always ecs getter)"
  unfolding serves_def honest_def always_def by (auto simp: comp_def split: sum.splits)

lemma ds_next_always:
  assumes "ds_next C batch ds = (r, ds')" "\<And>e. r \<noteq> Some (Inl e)"
  shows "ds_next C batch (always_stream ecs ds) = (r, always_stream ecs ds')"
proof -
  have yield: "yield_current (always_stream ecs e) = (q, always_stream ecs e')" if "yield_current e = (q, e')" for e e' q
    using that by (auto simp: yield_current_def always_stream_def split: option.splits)
  have fetch: "fetch_next_batch C batch (always_stream ecs ds) = (Inr b, always_stream ecs e')"
    if "fetch_next_batch C batch ds = (Inr b, e')" for b e'
  proof (cases "length (chunk_infos ds) \<le> current_batch_start ds")
    case False
    let ?infos = "slice_of (current_batch_start ds) (min (current_batch_start ds + batch) (length (chunk_infos ds))) (chunk_infos ds)"
    let ?reqs = "map (\<lambda>info. (index info, dst_hash info)) ?infos"
    note fetched = that
    obtain rs where rs: "get_chunk_parallel ds ?reqs = Inr rs"
      using fetched False by (cases "get_chunk_parallel ds ?reqs") (simp_all add: fetch_next_batch_def Let_def)
    then have "always ecs (get_chunk_parallel ds) ?reqs = Inr rs" by (simp add: always_def)
    then show ?thesis using that False rs
      by (cases "decrypt_batch C (ds_src_hashes ds) (child_level ds) (zip ?infos (sort_key fst rs)) []")
        (auto simp: fetch_next_batch_def always_stream_def Let_def split: option.splits)
  qed (use that in \<open>auto simp: fetch_next_batch_def always_stream_def\<close>)
  have "current_batch_chunks (always_stream ecs ds) = current_batch_chunks ds"
    "current_batch_index (always_stream ecs ds) = current_batch_index ds"
    by (simp_all add: always_stream_def)
  note same = this
  show ?thesis
  proof (cases "length (current_batch_chunks ds) \<le> current_batch_index ds")
    case True
    obtain f e' where f: "fetch_next_batch C batch ds = (f, e')" by fastforce
    with True assms obtain b where b: "f = Inr b" by (cases f) (auto simp: ds_next_def)
    show ?thesis
      using True assms(1) f fetch [OF f [unfolded b]] by (cases b) (simp_all add: ds_next_def b same yield)
  next
    case False
    then show ?thesis using assms(1) by (simp add: ds_next_def same yield)
  qed
qed

section \<open>Writing the chunks\<close>

lemma write_chunks_ok:
  assumes "write_chunks OS C batch tmp n ds d = (Inr m, d')"
    and "stream_over C mcs data l ecs (always_stream ecs ds)" "stream_at mcs data k (always_stream ecs ds)"
    and "k \<le> length ecs" "dk_files d tmp = Some old" "0 < batch"
  shows "m = n + length (concat (map (file_chunk mcs data) [k..<length ecs])) \<and>
     d' = d\<lparr>dk_files := (dk_files d)(tmp \<mapsto> old @ concat (map (file_chunk mcs data) [k..<length ecs]))\<rparr>"
  using assms
proof (induction OS C batch tmp n ds d arbitrary: k old rule: write_chunks.induct)
  case (1 OS C batch tmp n ds d)
  obtain r ds1 where r: "ds_next C batch ds = (r, ds1)" by fastforce
  have noerr: "r \<noteq> Some (Inl e)" for e using "1.prems"(1) r by (subst (asm) write_chunks.simps) auto
  note step = ds_next_always [OF r noerr, of ecs]
  show ?case
  proof (cases "k = length ecs")
    case True
    then have "r = None" using step ds_next_end [OF "1.prems"(2), of batch] "1.prems"(3) by simp
    then have "m = n" "d' = d"
      using "1.prems"(1) r by (subst (asm) write_chunks.simps; simp add: result_simps)+
    moreover have "d\<lparr>dk_files := (dk_files d)(tmp \<mapsto> old)\<rparr> = d" using "1.prems"(5) by (simp add: fun_upd_idem)
    moreover have "concat (map (file_chunk mcs data) [k..<length ecs]) = []" using True by simp
    ultimately show ?thesis by (simp only: append_Nil2 list.size add_0_right simp_thms)
  next
    case False
    then have k: "k < length ecs" using "1.prems"(4) by simp
    obtain ds2 where ds2: "ds_next C batch (always_stream ecs ds) = (Some (Inr (file_chunk mcs data k)), ds2)"
      "stream_over C mcs data l ecs ds2" "stream_at mcs data (Suc k) ds2"
      using ds_next_at [OF "1.prems"(2,3) k "1.prems"(6)] by blast
    then have ds1: "r = Some (Inr (file_chunk mcs data k))" "ds2 = always_stream ecs ds1" using step by simp_all
    obtain a d1 where app: "fs_append OS tmp n (file_chunk mcs data k) d = (a, d1)" by fastforce
    have ok: "a = Inr ()" "d1 = d\<lparr>dk_files := (dk_files d)(tmp \<mapsto> old @ file_chunk mcs data k)\<rparr>"
      "write_chunks OS C batch tmp (n + length (file_chunk mcs data k)) ds1 d1 = (Inr m, d')"
      using "1.prems"(1,5) r ds1 app
      by (subst (asm) write_chunks.simps, auto simp: fs_append_def split: sum.splits option.splits)+
    have "m = n + length (file_chunk mcs data k) + length (concat (map (file_chunk mcs data) [Suc k..<length ecs])) \<and>
       d' = d1\<lparr>dk_files := (dk_files d1)(tmp \<mapsto> (old @ file_chunk mcs data k) @ concat (map (file_chunk mcs data) [Suc k..<length ecs]))\<rparr>"
      using "1.IH" [OF r [symmetric] ds1(1) refl app [symmetric] ok(1,3), of "Suc k" "old @ file_chunk mcs data k"]
        ok(2) ds2(2,3) k "1.prems"(6) by (simp add: ds1(2) fun_upd_same del: fun_upd_apply)
    moreover have "[k..<length ecs] = k # [Suc k..<length ecs]" using k by (simp add: upt_conv_Cons)
    ultimately show ?thesis using ok(2) by (simp del: fun_upd_apply)
  qed
qed

text \<open>Files other than the temporary one stay as they are, also when writing fails.\<close>

definition only_file :: "path \<Rightarrow> disk \<Rightarrow> disk \<Rightarrow> bool" where
  "only_file p d d' \<longleftrightarrow> (\<forall>q. q \<noteq> p \<longrightarrow> dk_files d' q = dk_files d q) \<and> dk_dirs d' = dk_dirs d \<and>
     (dk_files d p \<noteq> None \<longrightarrow> dk_files d' p \<noteq> None)"

lemma only_file_append: "only_file p d (snd (fs_append OS p n c d))"
  by (simp add: only_file_def fs_append_def partial_write_def Let_def split: option.splits)

lemma write_chunks_only_file: "only_file tmp d (snd (write_chunks OS C batch tmp n ds d))"
proof (induction OS C batch tmp n ds d rule: write_chunks.induct)
  case (1 OS C batch tmp n ds d)
  obtain r ds1 where r: "ds_next C batch ds = (r, ds1)" by fastforce
  show ?case
  proof (cases "\<exists>c. r = Some (Inr c)")
    case True
    then obtain c where c: "r = Some (Inr c)" ..
    obtain a d1 where a: "fs_append OS tmp n c d = (a, d1)" by fastforce
    have only: "only_file tmp d d1" using only_file_append [of tmp d OS n c] a by simp
    then show ?thesis
      using "1.IH" [OF r [symmetric] c refl a [symmetric]] r c a
      by (cases a) (simp_all add: write_chunks.simps [of OS C batch tmp n ds d] only_file_def)
  next
    case False
    then show ?thesis using r
      by (subst write_chunks.simps) (auto simp: only_file_def split: option.splits sum.splits)
  qed
qed

lemma write_download_only_file: "only_file tmp d (snd (write_download OS C batch tmp ds d))"
  using write_chunks_only_file [of tmp "d\<lparr>dk_files := (dk_files d)(tmp \<mapsto> [])\<rparr>" OS C batch 0 ds]
  by (auto simp: write_download_def fs_create_def only_file_def split: prod.splits option.splits sum.splits)

section \<open>Downloads\<close>

text \<open>A stream over the map of uploaded data, if it opens at all, is a stream over the data.\<close>

lemma stream_of_upload:
  assumes "se_laws C" "bincode_size C" "0 < mcs" "18 + 80 * get_num_chunks mcs (length data) < 3 * mcs"
    and "encrypt C mcs fuel data = Some (Inr (dm, chunks))" "no_second_preimage C (set chunks)"
    and "\<And>ecs. set ecs \<subseteq> set chunks \<Longrightarrow> honest C ecs getter" "streaming_decrypt C dm getter = Inr ds"
  obtains ecs where "stream_over C mcs data 0 ecs (always_stream ecs ds)" "stream_at mcs data 0 (always_stream ecs ds)"
    "set ecs \<subseteq> set chunks" "length ecs = get_num_chunks mcs (length data)" "3 \<le> length data"
proof -
  obtain root ecs where lvl: "encrypt_one_level C mcs data 0 = Inr (root, ecs)" "set ecs \<subseteq> set chunks"
    and opened: "if is_child dm then get_root_data_map_parallel C getter dm = Inr root else dm = root"
    using assms(5,3,2,4)
  proof (cases rule: encrypt_single_levelE)
    case (root ecs)
    then show ?thesis using that by (simp add: is_child_def)
  next
    case (shrunk root ecs bs dm1 ecs1)
    obtain r where r: "get_root_data_map_parallel C getter dm = Inr r"
      using assms(8) shrunk(4) by (auto simp: streaming_decrypt_def DecryptionStream_new_def is_child_def with_child_def result_simps)
    have "from_bytes (bincode_deserialize C) bs = Inr root"
      using shrunk(2) assms(1) by (auto intro: from_bytes_to_bytes simp: se_laws_def)
    moreover have "no_second_preimage C (set ecs1)" using assms(6) shrunk(5) by (auto simp: no_second_preimage_def)
    ultimately have "r = root"
      using root_parallel_only [OF assms(1,3) shrunk(3)] shrunk(4,6) r by (simp add: is_child_def)
    then show ?thesis using that [OF shrunk(1)] shrunk(4,5) r by (simp add: is_child_def with_child_def)
  qed
  have "if is_child dm then get_root_data_map_parallel C getter dm = Inr root else dm = root" by (rule opened)
  moreover have "\<not> is_child root" using lvl(1) assms(3) by (auto simp: is_child_def elim!: one_level_okE)
  ultimately have "streaming_decrypt C root getter = Inr ds"
    using assms(8) by (auto simp: streaming_decrypt_def DecryptionStream_new_def split: if_splits)
  moreover obtain ds' where ds': "streaming_decrypt C root (always ecs getter) = Inr ds'"
    "stream_over C mcs data 0 ecs ds'" "stream_at mcs data 0 ds'"
    using stream_over_new [OF assms(1,3) lvl(1) serves_always [OF assms(7) [OF lvl(2)]], of root] \<open>\<not> is_child root\<close> by auto
  ultimately have "ds' = always_stream ecs ds"
    using \<open>\<not> is_child root\<close> by (auto simp: streaming_decrypt_def DecryptionStream_new_def always_stream_def)
  moreover have "length ecs = get_num_chunks mcs (length data)" "3 \<le> length data"
    using ds'(2) unfolding stream_over_def by blast+
  ultimately show thesis using that ds'(2,3) lvl(2) by blast
qed

lemma write_download_ok:
  assumes "write_download OS C batch tmp ds d = (Inr n, d')" "0 < mcs" "0 < batch"
    and "stream_over C mcs data 0 ecs (always_stream ecs ds)" "stream_at mcs data 0 (always_stream ecs ds)"
    and "length ecs = get_num_chunks mcs (length data)" "3 \<le> length data"
  shows "n = length data \<and> d' = d\<lparr>dk_files := (dk_files d)(tmp \<mapsto> data)\<rparr>"
proof -
  have parts: "concat (map (file_chunk mcs data) [0..<length ecs]) = data"
    using concat_file_chunks [OF assms(2,7)] assms(6) by (simp add: file_chunks_def)
  let ?d = "d\<lparr>dk_files := (dk_files d)(tmp \<mapsto> [])\<rparr>"
  have "write_chunks OS C batch tmp 0 ds ?d = (Inr n, d')"
    using assms(1) by (auto simp: write_download_def fs_create_def split: option.splits)
  from write_chunks_ok [OF this assms(4,5) _ _ assms(3), of "[]"] show ?thesis by (simp add: parts fun_upd_same del: fun_upd_apply)
qed

section \<open>When the chunks are at hand\<close>

lemma run_all_invariant:
  assumes "Q cl" "\<And>x cl. x \<in> set xs \<Longrightarrow> Q cl \<Longrightarrow> \<exists>cl'. f cl x = (g x, cl') \<and> Q cl'"
  shows "\<exists>cl'. run_all f cl xs = (map g xs, cl')"
  using assms
proof (induction xs arbitrary: cl)
  case (Cons x xs)
  then obtain cl1 where "f cl x = (g x, cl1)" "Q cl1" by force
  moreover obtain cl2 where "run_all f cl1 xs = (map g xs, cl2)" using Cons.IH [OF \<open>Q cl1\<close>] Cons.prems(2) by auto
  ultimately show ?case by simp
qed simp

definition holds_chunks :: "client_env \<Rightarrow> bytes set \<Rightarrow> 'c Client \<Rightarrow> bool" where
  "holds_chunks N S cl \<longleftrightarrow>
     lru_laws (cc_lru (cl_chunk_cache cl)) \<and>
     (\<forall>e \<in> S. lru_view (cc_lru (cl_chunk_cache cl)) (cc_inner (cl_chunk_cache cl)) (compute_address (ce_codec N) e) = Some e)"

lemma client_chunk_get_held:
  assumes "holds_chunks N S cl" "e \<in> S"
  shows "\<exists>cl'. client_chunk_get N cl (compute_address (ce_codec N) e) = (Inr (Some (DataChunk_new (compute_address (ce_codec N) e) e)), cl') \<and>
     holds_chunks N S cl'"
proof -
  let ?L = "cc_lru (cl_chunk_cache cl)" and ?i = "cc_inner (cl_chunk_cache cl)" and ?h = "compute_address (ce_codec N) e"
  have laws: "lru_laws ?L" and view: "lru_view ?L ?i ?h = Some e" using assms by (auto simp: holds_chunks_def)
  obtain i where i: "lru_get ?L ?i ?h = (Some e, i)" "lru_view ?L i = lru_view ?L ?i"
    using lru_lawsD(3,4) [OF laws, of ?i ?h] view by (metis prod.collapse)
  then show ?thesis using assms(1)
    by (simp add: holds_chunks_def client_chunk_get_def ccache_get_def Let_def)
qed

lemma download_batch_serves:
  assumes "valid_schedule s" "compute_address (ce_codec N) = content_hash C" "set ecs \<subseteq> S"
    and "\<And>b. holds_chunks N S (state b)"
  shows "serves C ecs (download_batch N s state)"
  unfolding serves_def
proof (intro allI impI)
  fix js
  let ?reqs = "map (\<lambda>i. (i, content_hash C (ecs ! i))) js"
  let ?g = "\<lambda>q. (fst q, snd q, Inr (Some (DataChunk_new (snd q) (ecs ! fst q)))) :: nat \<times> xorname \<times> (data_error + DataChunk option)"
  assume js: "\<forall>i \<in> set js. i < length ecs"
  have one: "\<exists>cl'. fetch_indexed N cl q = (?g q, cl') \<and> holds_chunks N S cl'"
    if q: "q \<in> set ?reqs" and cl: "holds_chunks N S cl" for q and cl :: "'a Client"
  proof -
    have "ecs ! fst q \<in> S" "snd q = compute_address (ce_codec N) (ecs ! fst q)" using q js assms(2,3) by auto
    from client_chunk_get_held [OF cl this(1)] this(2) show ?thesis by (auto simp: fetch_indexed_def)
  qed
  obtain cl' where run: "run_all (fetch_indexed N) (state ?reqs) ?reqs = (map ?g ?reqs, cl')"
    using run_all_invariant [of "holds_chunks N S" "state ?reqs" ?reqs "fetch_indexed N" ?g] assms(4) one by blast
  have perm: "mset (reorder s (map ?g ?reqs)) = mset (map ?g ?reqs)" by (rule mset_reorder [OF assms(1)])
  have "x \<in> set (reorder s (map ?g ?reqs)) \<Longrightarrow> x \<in> ?g ` set ?reqs" for x
    using mset_eq_setD [OF perm] by (simp only: set_map)
  then have "download_batch N s state ?reqs = Inr (map (\<lambda>x. (fst x, ecs ! fst x)) (reorder s (map ?g ?reqs)))"
    unfolding download_batch_def run Let_def prod.case
  proof (intro traverse_pure)
    fix x assume "x \<in> set (reorder s (map ?g ?reqs))"
    then obtain q where "x = ?g q" using \<open>\<And>x. x \<in> set (reorder s (map ?g ?reqs)) \<Longrightarrow> x \<in> ?g ` set ?reqs\<close> by blast
    then show "(case x of (i, h, r) \<Rightarrow> try_bind (map_err (\<lambda>e. Generic (NetworkFetchFailed h)) r) (\<lambda>found.
        try_bind (ok_or (Generic (ChunkNotFound h)) found) (\<lambda>chunk. Inr (i, content chunk)))) = Inr (fst x, ecs ! fst x)"
      by (simp add: DataChunk_new_def)
  qed
  moreover have "mset (map (\<lambda>x. (fst x, ecs ! fst x)) (reorder s (map ?g ?reqs))) = mset (map (\<lambda>i. (i, ecs ! i)) js)"
    by (simp only: mset_map perm) (simp add: image_mset.compositionality comp_def)
  ultimately show "\<exists>rs. download_batch N s state ?reqs = Inr rs \<and> mset rs = mset (map (\<lambda>i. (i, ecs ! i)) js)"
    by blast
qed

text \<open>The chunks of a shrunk map may arrive in any order: decryption finds them by their hashes.\<close>

lemma cache_insert_all_nth:
  assumes "distinct (map snd ms)" "length rs = length ms" "i < length ms"
  shows "cache_insert_all ms rs m0 (snd (ms ! i)) = Some (snd (rs ! i))"
proof -
  have keep: "cache_insert_all xs ys c h = c h" if "h \<notin> snd ` set xs" for xs :: "(nat \<times> xorname) list" and ys c h
    using that unfolding cache_insert_all_def
    by (induction xs ys arbitrary: c rule: list_induct2') (auto split: prod.splits)
  show ?thesis using assms
  proof (induction ms arbitrary: rs i m0)
    case (Cons m ms)
    obtain r rs' where rs: "rs = r # rs'" using Cons.prems(2) by (cases rs) auto
    have step: "cache_insert_all (m # ms) rs m0 = cache_insert_all ms rs' (m0(snd m \<mapsto> snd r))"
      by (simp add: rs cache_insert_all_def case_prod_unfold)
    show ?case
      using Cons rs step keep by (cases i) auto
  qed simp
qed

lemma root_parallel_serves:
  assumes "se_laws C" "0 < mcs" "encrypt_one_level C mcs bs l = Inr (dm, ecs)" "serves C ecs getter"
    and "distinct (map (content_hash C) ecs)" "from_bytes (bincode_deserialize C) bs = Inr parent" "\<not> is_child parent"
  shows "get_root_data_map_parallel C getter (with_child (infos dm) l) = Inr parent"
proof -
  let ?m = "with_child (infos dm) l"
  have dm: "dm = map_of_chunks C mcs bs ecs" "3 \<le> length bs" "length ecs = get_num_chunks mcs (length bs)"
    using assms(2,3) by (auto elim!: one_level_okE)
  have infos: "infos ?m = map (\<lambda>i. info_nth C mcs bs i (ecs ! i)) [0..<length ecs]"
    using infos_with_child_sorted [of dm C mcs bs ecs l] dm(1) by (simp only: infos_map_of_chunks_upt)
  let ?ms = "missing_hashes Map.empty ?m"
  have ms: "?ms = map (\<lambda>i. (i, content_hash C (ecs ! i))) [0..<length ecs]"
    by (simp add: missing_hashes_def infos comp_def)
  obtain rs where rs: "getter ?ms = Inr rs" "mset rs = mset (map (\<lambda>i. (i, ecs ! i)) [0..<length ecs])"
    using servesD [OF assms(4), of "[0..<length ecs]"] unfolding ms by auto
  have len: "length rs = length ecs" using mset_eq_length [OF rs(2)] by simp
  have "map snd ?ms = map (content_hash C) ecs" by (auto simp: ms intro: nth_equalityI)
  then have dist: "distinct (map snd ?ms)" using assms(5) by simp
  have hit: "cache_insert_all ?ms rs Map.empty (content_hash C (ecs ! i)) = Some (snd (rs ! i))" if "i < length ecs" for i
    using cache_insert_all_nth [OF dist, of rs i Map.empty] that by (simp add: ms len)
  have found: "traverse (\<lambda>info. ok_or (Generic (ChunkNotFound (dst_hash info)))
      (cache_insert_all ?ms rs Map.empty (dst_hash info))) (infos ?m) = Inr (map snd rs)"
    using hit by (auto simp: traverse_Inr_iff list_all2_conv_all_nth infos len)
  have "mset (map snd rs) = mset (map snd (map (\<lambda>i. (i, ecs ! i)) [0..<length ecs]))"
    using arg_cong [OF rs(2), of "image_mset snd"] by (simp only: mset_map)
  also have "map snd (map (\<lambda>i. (i, ecs ! i)) [0..<length ecs]) = ecs" by (simp add: comp_def map_nth)
  finally have same: "set (map snd rs) = set ecs" by (rule mset_eq_setD)
  have "inj_on (content_hash C) (set ecs)" using assms(5) by (simp add: distinct_map)
  then have "decrypt_full_set C ?m (map snd rs) = Inr bs"
    using assms(1-3) infos dm(1) same by (intro decrypt_full_set_ok)
      (auto simp: child_level_of_def with_child_def infos_map_of_chunks_upt simp del: infos_map_of_chunks)
  moreover have "is_child ?m" by (simp add: is_child_def with_child_def)
  moreover have "ecs \<noteq> []" using dm(3) num_chunks_ge_3 [OF assms(2) dm(2)] by auto
  then have "?ms \<noteq> []" unfolding ms by simp
  ultimately show ?thesis using found rs(1) assms(6,7)
    by (simp add: get_root_data_map_parallel_def inner_get_root_map_parallel.simps [of _ _ _ ?m]
        inner_get_root_map_parallel.simps [of _ _ _ parent])
qed

lemma write_chunks_total:
  assumes "stream_over C mcs data l ecs ds" "stream_at mcs data k ds" "k \<le> length ecs" "0 < batch"
    and "os_fault OS = (\<lambda>x. None)"
  shows "is_ok (fst (write_chunks OS C batch tmp n ds d))"
  using assms
proof (induction OS C batch tmp n ds d arbitrary: k rule: write_chunks.induct)
  case (1 OS C batch tmp n ds d)
  have nf: "os_fault OS x = None" for x using "1.prems"(5) by simp
  show ?case
  proof (cases "k = length ecs")
    case True
    then have "ds_next C batch ds = (None, ds)" using ds_next_end "1.prems"(1,2) by blast
    then show ?thesis by (subst write_chunks.simps) (simp add: fs_flush_def nf io_err_def)
  next
    case False
    then obtain ds1 where ds1: "ds_next C batch ds = (Some (Inr (file_chunk mcs data k)), ds1)"
      "stream_over C mcs data l ecs ds1" "stream_at mcs data (Suc k) ds1"
      using ds_next_at [OF "1.prems"(1,2) _ "1.prems"(4)] "1.prems"(3) by fastforce
    obtain d1 where app: "fs_append OS tmp n (file_chunk mcs data k) d = (Inr (), d1)"
      by (simp add: fs_append_def nf Let_def)
    show ?thesis
      using "1.IH" [OF ds1(1) [symmetric] refl refl app [symmetric] refl ds1(2,3) _ "1.prems"(4,5)] "1.prems"(3) False ds1(1) app
      by (simp add: write_chunks.simps [of OS C batch tmp n ds d])
  qed
qed

lemma always_over:
  assumes "stream_over C mcs data l ecs ds" "stream_at mcs data k ds"
  shows "stream_over C mcs data l ecs (always_stream ecs ds)" "stream_at mcs data k (always_stream ecs ds)"
proof -
  have "honest C ecs (get_chunk_parallel ds)" using assms(1) by (fastforce simp: stream_over_def serves_def honest_def)
  then show "stream_over C mcs data l ecs (always_stream ecs ds)"
    using assms(1) serves_always unfolding stream_over_def always_stream_def by auto
  show "stream_at mcs data k (always_stream ecs ds)" using assms(2) by (simp add: stream_at_def always_stream_def)
qed

lemma file_download_ok:
  assumes "streaming_decrypt C dm (download_batch N s state) = Inr ds"
    and "stream_over C mcs data 0 ecs ds" "stream_at mcs data 0 ds" "0 < mcs" "0 < batch"
    and "os_fault OS = (\<lambda>x. None)" "download_path OS unique output \<noteq> output" "dk_files d (download_path OS unique output) = None"
  shows "file_download OS C batch N s state dm output unique d =
    (Inr (length data), d\<lparr>dk_files := (dk_files d)(output \<mapsto> data)\<rparr>)"
proof -
  let ?tmp = "download_path OS unique output"
  have len: "length ecs = get_num_chunks mcs (length data)" "3 \<le> length data" using assms(2) by (auto simp: stream_over_def)
  have "write_download OS C batch ?tmp ds d = write_chunks OS C batch ?tmp 0 ds (d\<lparr>dk_files := (dk_files d)(?tmp \<mapsto> [])\<rparr>)"
    by (simp add: write_download_def fs_create_def assms(6))
  then obtain n d1 where w: "write_download OS C batch ?tmp ds d = (Inr n, d1)"
    using write_chunks_total [OF assms(2,3) _ assms(5,6), of ?tmp 0 "d\<lparr>dk_files := (dk_files d)(?tmp \<mapsto> [])\<rparr>"]
    by (cases "write_chunks OS C batch ?tmp 0 ds (d\<lparr>dk_files := (dk_files d)(?tmp \<mapsto> [])\<rparr>)") (auto simp: is_ok_iff)
  note written = write_download_ok [OF w assms(4,5) always_over [OF assms(2,3)] len]
  have "(dk_files d)(?tmp \<mapsto> data, ?tmp := None, output \<mapsto> data) = (dk_files d)(output \<mapsto> data)"
    using assms(8) by (auto simp: fun_eq_iff)
  then show ?thesis
    using assms(1) w written
    by (simp add: file_download_def Let_def fs_rename_def assms(6) fun_upd_same del: fun_upd_apply)
qed

lemma upload_stream_opens:
  assumes "se_laws C" "bincode_size C" "0 < mcs" "18 + 80 * get_num_chunks mcs (length data) < 3 * mcs"
    and "encrypt C mcs fuel data = Some (Inr (dm, chunks))"
    and "distinct (map (content_hash C) (drop (get_num_chunks mcs (length data)) chunks))"
    and "\<And>ecs. set ecs \<subseteq> set chunks \<Longrightarrow> serves C ecs getter"
  obtains ecs ds where "streaming_decrypt C dm getter = Inr ds" "stream_over C mcs data 0 ecs ds" "stream_at mcs data 0 ds"
proof -
  obtain root ecs where lvl: "encrypt_one_level C mcs data 0 = Inr (root, ecs)" "set ecs \<subseteq> set chunks"
    and opened: "if is_child dm then get_root_data_map_parallel C getter dm = Inr root else dm = root"
    using assms(5,3,2,4)
  proof (cases rule: encrypt_single_levelE)
    case (root ecs)
    then show ?thesis using that by (simp add: is_child_def)
  next
    case (shrunk root ecs bs dm1 ecs1)
    have "length ecs = get_num_chunks mcs (length data)" using shrunk(1) assms(3) by (auto elim!: one_level_okE)
    then have "distinct (map (content_hash C) ecs1)" using assms(6) shrunk(5) by simp
    moreover have "from_bytes (bincode_deserialize C) bs = Inr root"
      using shrunk(2) assms(1) by (auto intro: from_bytes_to_bytes simp: se_laws_def)
    ultimately have "get_root_data_map_parallel C getter dm = Inr root"
      using root_parallel_serves [OF assms(1,3) shrunk(3) assms(7)] shrunk(4-6) by (simp add: is_child_def)
    then show ?thesis using that [OF shrunk(1)] shrunk(4,5) by (simp add: is_child_def with_child_def)
  qed
  show thesis using stream_over_new [OF assms(1,3) lvl(1) assms(7) [OF lvl(2)] opened] that by blast
qed

section \<open>Properties\<close>

text \<open>
  C10: A download to a file never leaves wrong data. Whatever the peers answer, whatever the cache
  holds, in whatever order the chunks arrive and whichever operations of the disk fail:
  \<open>file_download\<close> of the data map of an upload either returns the number of bytes of the data, and then
  the output file holds exactly the data and nothing else on the disk has changed, or it returns an
  error, and then the output file is as it was, and so is every other file unless the temporary file
  could not be removed.
\<close>

theorem file_download_atomic:
  assumes "se_laws C" "bincode_size C" "0 < mcs" "18 + 80 * get_num_chunks mcs (length data) < 3 * mcs"
    and "encrypt C mcs fuel data = Some (Inr (dm, chunks))" "no_second_preimage C (set chunks)"
    and "compute_address (ce_codec N) = content_hash C" "valid_schedule s" "0 < batch"
    and "tmp = download_path OS unique output" "tmp \<noteq> output" "dk_files d tmp = None"
  shows "case file_download OS C batch N s state dm output unique d of
      (Inr n, d') \<Rightarrow> n = length data \<and> d' = d\<lparr>dk_files := (dk_files d)(output \<mapsto> data)\<rparr>
    | (Inl e, d') \<Rightarrow> dk_files d' output = dk_files d output \<and> (os_fault OS (RemoveFile tmp) = None \<longrightarrow> d' = d)"
proof (cases "streaming_decrypt C dm (download_batch N s state)")
  case (Inl e)
  then show ?thesis by (simp add: file_download_def)
next
  case (Inr ds)
  have honest: "honest C ecs (download_batch N s state)" if "set ecs \<subseteq> set chunks" for ecs
  proof (rule download_batch_honest [OF assms(8) _ assms(7)])
    show "no_second_preimage C (set ecs)" using assms(6) that by (auto simp: no_second_preimage_def)
  qed
  obtain ecs where ecs: "stream_over C mcs data 0 ecs (always_stream ecs ds)" "stream_at mcs data 0 (always_stream ecs ds)"
      "length ecs = get_num_chunks mcs (length data)" "3 \<le> length data"
    using stream_of_upload [OF assms(1-6) honest Inr] by blast
  obtain w d1 where w: "write_download OS C batch tmp ds d = (w, d1)" by fastforce
  have only: "only_file tmp d d1" using write_download_only_file [of tmp d OS C batch ds] w by simp
  have removed: "dk_files (fs_remove_file OS tmp d1) output = dk_files d output \<and>
      (os_fault OS (RemoveFile tmp) = None \<longrightarrow> fs_remove_file OS tmp d1 = d)"
    using only assms(11,12) by (auto simp: only_file_def fs_remove_file_def split: option.splits intro!: disk.equality ext)
  show ?thesis
  proof (cases w)
    case (Inl e)
    then show ?thesis using removed w \<open>streaming_decrypt _ _ _ = Inr ds\<close> assms(10) by (simp add: file_download_def)
  next
    case (Inr n)
    then have written: "n = length data" "d1 = d\<lparr>dk_files := (dk_files d)(tmp \<mapsto> data)\<rparr>"
      using write_download_ok [OF _ assms(3,9) ecs] w by auto
    have "(dk_files d)(tmp \<mapsto> data, tmp := None, output \<mapsto> data) = (dk_files d)(output \<mapsto> data)"
      using assms(12) by (auto simp: fun_eq_iff)
    moreover have "file_download OS C batch N s state dm output unique d =
        (case fs_rename OS tmp output d1 of
           (Inr u, d2) \<Rightarrow> (Inr n, d2)
         | (Inl e, d2) \<Rightarrow> (Inl (IoErr (FileIo e)), fs_remove_file OS tmp d2))"
      using w Inr \<open>streaming_decrypt _ _ _ = Inr ds\<close> by (simp add: file_download_def Let_def assms(10) [symmetric])
    moreover have "fs_rename OS tmp output d1 =
        (case os_fault OS (RenameFile tmp output) of
           Some e \<Rightarrow> (Inl e, d1)
         | None \<Rightarrow> (Inr (), d\<lparr>dk_files := (dk_files d)(tmp \<mapsto> data, tmp := None, output \<mapsto> data)\<rparr>))"
      by (cases "os_fault OS (RenameFile tmp output)") (simp_all add: fs_rename_def written(2) fun_upd_same del: fun_upd_apply)
    ultimately show ?thesis using removed written(1)
      by (cases "os_fault OS (RenameFile tmp output)") simp_all
  qed
qed

definition sample_os :: os where
  "sample_os =
     \<lparr>os_fault = \<lambda>x. None, os_written = \<lambda>p. None, os_temp_dir = [''tmp''], os_pid = ''1'', os_show_u64 = \<lambda>n. ''2'',
      os_hex_encode = map (\<lambda>b. char_of (unat b)), os_available_space = \<lambda>p. Inr (2 ^ 30)\<rparr>"

definition pinned_net :: client_env where
  "pinned_net = put_net\<lparr>ce_codec := codec pinned_env\<rparr>"

lemma pinned_net_hash: "compute_address (ce_codec pinned_net) = content_hash (crypt pinned_env)"
proof -
  have codec: "ce_codec pinned_net = codec pinned_env" by (simp add: pinned_net_def)
  show ?thesis unfolding codec by (rule ext) (simp only: pinned_hashes)
qed

lemma pinned_holds: "holds_chunks pinned_net {[1], [2], [3]} pinned_cache_client"
proof -
  have "compute_address (codec pinned_env) [x] = 0 # x # replicate 30 0" for x
    by (simp only: pinned_hashes) (simp add: pinned_hash_def)
  then show ?thesis
    by (simp add: holds_chunks_def pinned_net_def pinned_cache_client_def list_lru_laws)
      (simp add: list_lru_def entries_def)
qed

lemma pinned_stream:
  obtains ecs ds where "streaming_decrypt (crypt pinned_env) pinned_map (download_batch pinned_net (\<lambda>n. [0..<n]) (\<lambda>b. pinned_cache_client)) = Inr ds"
    "stream_over (crypt pinned_env) 160 [1, 2, 3] 0 ecs ds" "stream_at 160 [1, 2, 3] 0 ds"
proof -
  have small: "18 + 80 * get_num_chunks 160 (length [1, 2, 3 :: byte]) < 3 * 160" "get_num_chunks 160 (length [1, 2, 3 :: byte]) = 3"
    by code_simp+
  note hash = pinned_net_hash
  have dist: "distinct (map (content_hash (crypt pinned_env)) (drop (get_num_chunks 160 (length [1, 2, 3 :: byte])) [[1], [2], [3]]))"
    unfolding small(2) by simp
  have "serves (crypt pinned_env) ecs (download_batch pinned_net (\<lambda>n. [0..<n]) (\<lambda>b. pinned_cache_client))"
    if "set ecs \<subseteq> set [[1], [2], [3]]" for ecs
    using that pinned_holds by (intro download_batch_serves [OF _ hash]) (auto simp: valid_schedule_def)
  from upload_stream_opens [OF pinned_laws _ small(1) pinned_encrypt dist this] that show thesis by auto
qed

lemma file_download_atomic_witness:
  "file_download sample_os (crypt pinned_env) 10 pinned_net (\<lambda>n. [0..<n]) (\<lambda>b. pinned_cache_client) pinned_map
     [''out''] 7 \<lparr>dk_files = Map.empty, dk_dirs = {}\<rparr> =
   (Inr 3, \<lparr>dk_files = [[''out''] \<mapsto> [1, 2, 3]], dk_dirs = {}\<rparr>)"
proof -
  let ?d = "\<lparr>dk_files = Map.empty, dk_dirs = {}\<rparr>"
  let ?run = "file_download sample_os (crypt pinned_env) 10 pinned_net (\<lambda>n. [0..<n]) (\<lambda>b. pinned_cache_client) pinned_map [''out''] 7 ?d"
  obtain ecs ds where ds: "streaming_decrypt (crypt pinned_env) pinned_map (download_batch pinned_net (\<lambda>n. [0..<n]) (\<lambda>b. pinned_cache_client)) = Inr ds"
    "stream_over (crypt pinned_env) 160 [1, 2, 3] 0 ecs ds" "stream_at 160 [1, 2, 3] 0 ds"
    by (rule pinned_stream)
  have tmp: "download_path sample_os 7 [''out''] \<noteq> [''out'']" by (simp add: download_path_def)
  obtain n d' where run: "?run = (Inr n, d')"
    using file_download_ok [OF ds _ _ _ tmp, of 10 ?d] by (simp add: sample_os_def)
  have small: "18 + 80 * get_num_chunks 160 (length [1, 2, 3 :: byte]) < 3 * 160" by code_simp
  note hash = pinned_net_hash
  have "no_second_preimage (crypt pinned_env) (set [[1], [2], [3]])" by (rule pinned_second_preimage)
  from file_download_atomic [OF pinned_laws _ small pinned_encrypt this hash _ _ refl tmp, where d = ?d and s = "\<lambda>n. [0..<n]"
      and batch = 10 and state = "\<lambda>b. pinned_cache_client"]
  show ?thesis unfolding run by (simp add: valid_schedule_def)
qed

text \<open>
  C20: Downloads to a file work for data of every size. When no operation of the disk fails and the
  client holds the chunks of an upload in its cache, \<open>file_download\<close> with the data map of the upload
  writes exactly the data, in whatever order the chunks of a batch arrive, also when \<open>encrypt\<close> shrank
  the map, where a download in memory fails. The chunks of the map itself must differ in their hashes.
\<close>

theorem file_download_complete:
  assumes "se_laws C" "bincode_size C" "0 < mcs" "18 + 80 * get_num_chunks mcs (length data) < 3 * mcs"
    and "encrypt C mcs fuel data = Some (Inr (dm, chunks))"
    and "distinct (map (content_hash C) (drop (get_num_chunks mcs (length data)) chunks))"
    and "compute_address (ce_codec N) = content_hash C" "valid_schedule s" "0 < batch"
    and "\<And>b. holds_chunks N (set chunks) (state b)" "os_fault OS = (\<lambda>x. None)"
    and "download_path OS unique output \<noteq> output" "dk_files d (download_path OS unique output) = None"
  shows "file_download OS C batch N s state dm output unique d =
    (Inr (length data), d\<lparr>dk_files := (dk_files d)(output \<mapsto> data)\<rparr>)"
proof -
  have "serves C ecs (download_batch N s state)" if "set ecs \<subseteq> set chunks" for ecs
    using download_batch_serves [OF assms(8,7) that, of state] assms(10) by blast
  then obtain ecs ds where ds: "streaming_decrypt C dm (download_batch N s state) = Inr ds"
      "stream_over C mcs data 0 ecs ds" "stream_at mcs data 0 ds"
    using upload_stream_opens [OF assms(1-6)] by blast
  show ?thesis by (rule file_download_ok [OF ds assms(3,9,11-13)])
qed

definition zeros_cache_client :: "(xorname, bytes) lru_list Client" where
  "zeros_cache_client =
     (Client_from_node list_lru (ClientConfig_default None))
       \<lparr>cl_chunk_cache := \<lparr>cc_lru = list_lru, cc_inner = (8, map (\<lambda>v. (content_hash sample_env v, v)) zeros_blobs)\<rparr>\<rparr>"

lemma file_download_complete_witness:
  "\<exists>d'. file_download sample_os sample_env 10 (put_net\<lparr>ce_codec := codec zeros_env\<rparr>) (\<lambda>n. rev [0..<n]) (\<lambda>b. zeros_cache_client)
     zeros_map [''out''] 7 \<lparr>dk_files = Map.empty, dk_dirs = {}\<rparr> = (Inr 1200, d') \<and>
   dk_files d' [''out''] = Some (replicate 1200 0) \<and> is_child zeros_map"
proof -
  let ?N = "put_net\<lparr>ce_codec := codec zeros_env\<rparr>" and ?chunks = "replicate 6 (replicate 200 (0 :: byte)) @ file_chunks 200 zeros_root"
  have n: "get_num_chunks 200 (length (replicate 1200 (0 :: byte))) = 6" by (simp add: chunking_defs)
  then have small: "18 + 80 * get_num_chunks 200 (length (replicate 1200 (0 :: byte))) < 3 * 200" by simp
  have hash: "compute_address (ce_codec ?N) = content_hash sample_env"
    by (rule ext) (simp add: zeros_env_def compute_address_def content_hash_def)
  have dist: "distinct (map (content_hash sample_env) (drop (get_num_chunks 200 (length (replicate 1200 (0 :: byte)))) ?chunks))"
    unfolding n using zeros_distinct by (simp add: zeros_blobs_def)
  have "length zeros_blobs = 5" using arg_cong [OF zeros_pieces, of length] by (simp add: zeros_blobs_def)
  then have entries: "entries (8, map (\<lambda>v. (content_hash sample_env v, v)) zeros_blobs) = map (\<lambda>v. (content_hash sample_env v, v)) zeros_blobs"
    by (simp add: entries_def)
  have "map_of (map (\<lambda>v. (content_hash sample_env v, v)) zeros_blobs) (content_hash sample_env v) = Some v" if "v \<in> set ?chunks" for v
    using zeros_distinct that by (intro map_of_is_SomeI) (auto simp: zeros_blobs_def comp_def)
  then have holds: "holds_chunks ?N (set ?chunks) zeros_cache_client"
    unfolding holds_chunks_def hash by (simp add: zeros_cache_client_def list_lru_laws entries del: set_append) (simp add: list_lru_def entries del: set_append)
  have tmp: "download_path sample_os 7 [''out''] \<noteq> [''out'']" by (simp add: download_path_def)
  have "is_child zeros_map" using zeros_map_len(3) by (simp add: is_child_def)
  moreover have "valid_schedule (\<lambda>n. rev [0..<n])" by (simp add: valid_schedule_def)
  moreover have "os_fault sample_os = (\<lambda>x. None)" by (simp add: sample_os_def)
  ultimately show ?thesis
    using file_download_complete [OF sample_env_laws sample_env_size _ small zeros_encrypt dist hash _ _ holds _ tmp,
      of "\<lambda>n. rev [0..<n]" 10 "\<lparr>dk_files = Map.empty, dk_dirs = {}\<rparr>"]
    by (simp del: replicate.simps)
qed

end
