(* ===== verification/File_Upload_Correct.thy ===== *)
theory File_Upload_Correct
  imports File_Download_Correct Stream_Encrypt_Correct
begin

text \<open>
  Uploads of files: a spill that is returned holds exactly the encryption of the file, a read error
  never goes unnoticed, and no upload leaves its spill on the disk.
\<close>

section \<open>The end of the input\<close>

















section \<open>The spill\<close>

lemma stream_chunks_collect:
  "collect_chunks C mcs fuel calls st = Some (Inr hcs, st') \<Longrightarrow>
   stream_chunks C mcs fuel None calls st = Some (map snd hcs, Inr st')"
proof (induction C mcs fuel calls st arbitrary: hcs rule: collect_chunks.induct)
  case (2 C mcs fuel calls st)
  obtain q st1 where q: "ChunkStream_next C mcs fuel st = Some (q, st1)"
    using "2.prems" by (cases "ChunkStream_next C mcs fuel st") auto
  show ?case
  proof (cases q)
    case None
    then show ?thesis using "2.prems" q by auto
  next
    case (Some r)
    then obtain c where r: "r = Inr c" using "2.prems" q by (cases r) auto
    then obtain x where x: "collect_chunks C mcs fuel calls st1 = Some (x, st')" "map_sum id ((#) c) x = Inr hcs"
      using "2.prems" q Some by auto
    then obtain hcs' where "collect_chunks C mcs fuel calls st1 = Some (Inr hcs', st')" "hcs = c # hcs'"
      by (cases x) auto
    then show ?thesis using "2.IH" [OF q [unfolded Some r] refl refl refl] q Some r
      by (cases c) (simp add: read_error_def)
  qed
qed simp




text \<open>Only files below the directory of the spill are touched.\<close>

lemma push_all_outside:
  "push_all OS P cs (sp, d) = (r, sp', d') \<Longrightarrow> sp_dir sp' = sp_dir sp \<and> same_outside (sp_dir sp) d d'"
proof (induction cs arbitrary: sp d)
  case (Cons c cs)
  obtain q sp1 d1 where p: "spill_push OS P c (sp, d) = (q, sp1, d1)" by (cases "spill_push OS P c (sp, d)")
  have "sp_dir sp1 = sp_dir sp \<and> same_outside (sp_dir sp) d d1"
    using p same_outside_ops(2) [of "sp_dir sp" d OS "[os_hex_encode OS (compute_address P c)]" c]
    by (auto simp: spill_push_def spill_path_def Let_def split: if_splits prod.splits sum.splits)
  then show ?case using Cons.prems Cons.IH [of sp1 d1] p same_outside_trans [of "sp_dir sp" d d1 d'] by (cases q) auto
qed simp

lemma encrypt_file_outside:
  assumes "encrypt_file_to_spill OS D fuel calls src unique d = Some (r, d')" "fresh_dir (spill_dir OS unique) d"
    and "os_fault OS (RemoveDirAll (spill_dir OS unique)) = None"
  shows "case r of Inl e \<Rightarrow> d' = d | Inr (sp, dm) \<Rightarrow> sp_dir sp = spill_dir OS unique \<and> same_outside (spill_dir OS unique) d d'"
proof (cases "io_err (sf_metadata src)")
  case (Inr n)
  obtain a d1 where new: "ChunkSpill_new OS unique d = (a, d1)" by fastforce
  show ?thesis
  proof (cases a)
    case (Inl e)
    then have "d1 = d" using new by (auto simp: ChunkSpill_new_def fs_create_dir_def io_err_def Let_def split: option.splits if_splits)
    then show ?thesis using assms(1) Inr new Inl by (auto simp: encrypt_file_to_spill_def)
  next
    case sp: (Inr sp)
    have dir: "sp_dir sp = spill_dir OS unique" "same_outside (spill_dir OS unique) d d1"
      using new sp same_outside_ops(1) [of "spill_dir OS unique" d OS]
      by (auto simp: ChunkSpill_new_def io_err_def result_simps Let_def split: prod.splits)
    obtain cs t where task: "encrypt_task (de_crypt D) (de_max_chunk_size D) fuel calls src n = Some (cs, t)"
      using assms(1) Inr new sp by (auto simp: encrypt_file_to_spill_def)
    obtain q sp2 d2 where push: "push_all OS (ce_codec (ue_net (de_upload D))) cs (sp, d1) = (q, sp2, d2)"
      by (cases "push_all OS (ce_codec (ue_net (de_upload D))) cs (sp, d1)")
    have out: "sp_dir sp2 = spill_dir OS unique" "same_outside (spill_dir OS unique) d d2"
      using push_all_outside [OF push] dir same_outside_trans by auto
    have "spill_cleanup OS sp2 d2 = d"
      unfolding spill_cleanup_def out(1) by (rule remove_fresh_dir [OF assms(2) out(2) assms(3)])
    then show ?thesis
      using assms(1) Inr new sp task push out by (auto simp: encrypt_file_to_spill_def split: sum.splits)
  qed
qed (use assms(1) in \<open>auto simp: encrypt_file_to_spill_def\<close>)

lemma spill_file_outside:
  assumes "spill_file OS D fuel calls src unique d = Some (r, d')" "fresh_dir (spill_dir OS unique) d"
    and "os_fault OS (RemoveDirAll (spill_dir OS unique)) = None"
  shows "case r of Inl e \<Rightarrow> d' = d | Inr (sp, dm) \<Rightarrow> spill_cleanup OS sp d' = d"
proof (cases "try_bind (io_err (sf_metadata src)) (check_disk_space_for_spill OS)")
  case (Inl e)
  then show ?thesis using assms(1) by (auto simp: spill_file_def)
next
  case (Inr u)
  then have "encrypt_file_to_spill OS D fuel calls src unique d = Some (r, d')" using assms(1) by (simp add: spill_file_def)
  from encrypt_file_outside [OF this assms(2,3)] show ?thesis
    using remove_fresh_dir [OF assms(2) _ assms(3)] by (auto simp: spill_cleanup_def split: sum.splits)
qed



section \<open>Properties\<close>


text \<open>
  C21: Uploads of files leave no spill behind. Whether \<open>file_upload_with_mode\<close> succeeds or fails, at the
  reads of the file, the writes of the spill, the payment or the network, the disk is afterwards as it
  was before, provided the directory of the spill was not there and can be removed.
\<close>

theorem file_upload_leaves_no_spill:
  assumes "file_upload_with_mode OS D fuel calls src mode unique cl d = Some (r, cl', d')"
    and "fresh_dir (spill_dir OS unique) d" "os_fault OS (RemoveDirAll (spill_dir OS unique)) = None"
  shows "d' = d"
proof -
  obtain q d1 where q: "spill_file OS D fuel calls src unique d = Some (q, d1)"
    using assms(1) by (auto simp: file_upload_with_mode_def)
  from spill_file_outside [OF this assms(2,3)] show ?thesis
    using assms(1) q by (auto simp: file_upload_with_mode_def split: sum.splits prod.splits)
qed

definition sample_file :: source_file where
  "sample_file = \<lparr>sf_metadata = Inr 3, sf_open = Inr (), sf_reads = [Inr [1, 2], Inr [3], Inr []]\<rparr>"


lemma sample_spill:
  "\<exists>sp dm d'. spill_file sample_os pinned_data_env 7 4 sample_file 7 \<lparr>dk_files = Map.empty, dk_dirs = {}\<rparr> = Some (Inr (sp, dm), d')"
proof -
  have enc: "encrypt (crypt pinned_env) 160 (Suc 7) [1, 2, 3] = Some (Inr (pinned_map, [[1], [2], [3]]))"
    using pinned_encrypt by simp
  obtain st ecs shrunk where "stream_encrypt 160 (length [1, 2, 3 :: byte]) [[1, 2], [3 :: byte]] = Inr st"
    "produces (crypt pinned_env) 160 7 (length [[1 :: byte], [2], [3]] + 1) (drop 2 ecs @ take 2 ecs @ shrunk) pinned_map st"
    by (rule stream_encrypt_produces [OF _ enc, of "[[1, 2], [3]]"]) simp_all
  moreover have "length [[1 :: byte], [2], [3]] + 1 = 4" by simp
  ultimately obtain cs st' where collect: "stream_encrypt 160 (length [1, 2, 3 :: byte]) [[1, 2], [3 :: byte]] = Inr st"
    "collect_chunks (crypt pinned_env) 160 7 4 st = Some (Inr cs, st')" "into_datamap st' = Some pinned_map"
    unfolding produces_def by (simp only:) blast
  note st = collect(1) stream_chunks_collect [OF collect(2)] collect(3)
  have task: "encrypt_task (crypt pinned_env) 160 7 4 sample_file 3 = Some (map snd cs, Inr pinned_map)"
    using st by (simp add: numeral_3_eq_3 encrypt_task_def sample_file_def io_err_def read_error_def)
  have push: "fst (push_all sample_os P xs s) = Inr ()" for P xs s
    by (induction xs arbitrary: s)
      (auto simp: spill_push_def fs_write_def sample_os_def Let_def split: prod.splits sum.splits if_splits)
  obtain sp d1 where new: "ChunkSpill_new sample_os 7 \<lparr>dk_files = Map.empty, dk_dirs = {}\<rparr> = (Inr sp, d1)"
    by (simp add: ChunkSpill_new_def fs_create_dir_def sample_os_def io_err_def)
  obtain sp2 d2 where "push_all sample_os (codec pinned_env) (map snd cs) (sp, d1) = (Inr (), sp2, d2)"
    using push [of "codec pinned_env" "map snd cs" "(sp, d1)"] by (metis prod.collapse)
  moreover have "check_disk_space_for_spill sample_os 3 = Inr ()"
    by (simp add: check_disk_space_for_spill_def sample_os_def DISK_SPACE_HEADROOM_PERCENT_def)
  moreover have "sf_metadata sample_file = Inr 3" by (simp add: sample_file_def)
  ultimately show ?thesis
    using task new by (simp add: spill_file_def encrypt_file_to_spill_def io_err_def pinned_data_env_def)
qed


lemma file_upload_leaves_no_spill_witness:
  "\<exists>r cl'. file_upload_with_mode sample_os pinned_data_env 7 4 sample_file SingleMode 7 pinned_cache_client
     \<lparr>dk_files = Map.empty, dk_dirs = {}\<rparr> = Some (r, cl', \<lparr>dk_files = Map.empty, dk_dirs = {}\<rparr>)"
proof -
  obtain sp dm d' where "spill_file sample_os pinned_data_env 7 4 sample_file 7 \<lparr>dk_files = Map.empty, dk_dirs = {}\<rparr> = Some (Inr (sp, dm), d')"
    using sample_spill by blast
  moreover obtain result cl1 where "upload_spill sample_os pinned_data_env SingleMode d' sp dm pinned_cache_client = (result, cl1)"
    by fastforce
  ultimately obtain r cl' d2 where run: "file_upload_with_mode sample_os pinned_data_env 7 4 sample_file SingleMode 7 pinned_cache_client
     \<lparr>dk_files = Map.empty, dk_dirs = {}\<rparr> = Some (r, cl', d2)"
    by (auto simp: file_upload_with_mode_def)
  have "fresh_dir (spill_dir sample_os 7) \<lparr>dk_files = Map.empty, dk_dirs = {}\<rparr>" by (simp add: fresh_dir_def)
  from file_upload_leaves_no_spill [OF run this] run show ?thesis by (auto simp: sample_os_def)
qed

end
