(* ===== verification/Upgrade_Monitor.thy ===== *)
theory Upgrade_Monitor
  imports Node_Error Disk
begin

text \<open>
  Finding upgrades: \<open>monitor.rs\<close>, \<open>rollout.rs\<close> and \<open>release_cache.rs\<close> in \<open>src/ant-node/src/upgrade\<close>.

  Versions are of any linearly ordered type \<open>'v\<close>; how the crate \<open>semver\<close> parses and prints them is the
  record \<open>semver\<close>. What the GitHub API answers, \<open>serde_json\<close>, BLAKE3 and the clocks are arguments, and so
  is the multiplication of the rollout window by a fraction, which the code does with \<open>f64\<close>. Instants
  and durations are in nanoseconds. While a node waits for the lock of the cache, other nodes may change
  the disk; \<open>others\<close> is that change.
\<close>

section \<open>Releases\<close>

datatype UpgradeChannel = Stable | Beta

record Asset =
  as_name :: string
  browser_download_url :: string

record GitHubRelease =
  tag_name :: string
  rel_name :: string
  rel_body :: string
  prerelease :: bool
  assets :: "Asset list"

record 'v UpgradeInfo =
  ui_version :: 'v
  download_url :: string
  signature_url :: string
  release_notes :: string

record 'v semver =
  sv_parse :: "string \<Rightarrow> 'v option"
  sv_pre :: "'v \<Rightarrow> string"
  sv_show :: "'v \<Rightarrow> string"

record platform =
  pf_arch :: string
  pf_os :: string

text \<open>Lower case of ASCII letters; no other letter has a lower case that occurs in a suffix below.\<close>

definition lower_char :: "char \<Rightarrow> char" where
  "lower_char c = (let n = of_char c :: nat in if 65 \<le> n \<and> n \<le> 90 then char_of (n + 32) else c)"

definition ends_with :: "string \<Rightarrow> string \<Rightarrow> bool" where
  "ends_with s suffix \<longleftrightarrow> length suffix \<le> length s \<and> drop (length s - length suffix) s = suffix"

definition contains_pattern :: "string \<Rightarrow> string \<Rightarrow> bool" where
  "contains_pattern s pat \<longleftrightarrow> list_ex (\<lambda>i. take (length pat) (drop i s) = pat) [0..<Suc (length s)]"

definition is_binary_asset :: "string \<Rightarrow> bool" where
  "is_binary_asset name =
     (let lower = map lower_char name
      in if list_ex (ends_with lower) [''.sig'', ''.sha256'', ''.md5'', ''.txt'', ''.md'', ''.deb'', ''.rpm'', ''.msi''] then False
         else if ends_with lower ''.tar.gz'' \<or> ends_with lower ''.zip'' then True
         else True)"

definition build_platform_patterns :: "string \<Rightarrow> string \<Rightarrow> string list" where
  "build_platform_patterns arch osname =
     (let arch_patterns =
            (if arch = ''x86_64'' then [''x86_64'', ''amd64'', ''x64'']
             else if arch = ''aarch64'' then [''aarch64'', ''arm64'']
             else if arch = ''x86'' then [''i686'', ''i386'', ''x86''] else [arch]);
          os_patterns =
            (if osname = ''linux'' then [''linux'', ''unknown-linux-gnu'', ''linux-gnu'']
             else if osname = ''macos'' then [''darwin'', ''macos'', ''apple-darwin'']
             else if osname = ''windows'' then [''windows'', ''pc-windows-msvc'', ''win64''] else [osname])
      in concat (map (\<lambda>a. concat (map (\<lambda>p. [a @ ''-'' @ p, p @ ''-'' @ a]) os_patterns)) arch_patterns) @ arch_patterns)"

fun find_by_patterns :: "string list \<Rightarrow> Asset list \<Rightarrow> Asset option" where
  "find_by_patterns [] as = None"
| "find_by_patterns (pattern # rest) as =
     (case find (\<lambda>a. contains_pattern (as_name a) pattern \<and> is_binary_asset (as_name a)) as of
        Some a \<Rightarrow> Some a
      | None \<Rightarrow> find_by_patterns rest as)"

definition find_platform_asset :: "platform \<Rightarrow> Asset list \<Rightarrow> Asset option" where
  "find_platform_asset pf as = find_by_patterns (build_platform_patterns (pf_arch pf) (pf_os pf)) as"

definition version_from_tag :: "'v semver \<Rightarrow> string \<Rightarrow> 'v option" where
  "version_from_tag V tag = sv_parse V (case tag of CHR ''v'' # rest \<Rightarrow> rest | _ \<Rightarrow> tag)"

text \<open>The body of the loop over the releases, up to the candidate.\<close>

definition release_candidate ::
  "'v semver \<Rightarrow> platform \<Rightarrow> 'v::linorder \<Rightarrow> UpgradeChannel \<Rightarrow> GitHubRelease \<Rightarrow> 'v UpgradeInfo option" where
  "release_candidate V pf current channel release =
     (case version_from_tag V (tag_name release) of
        None \<Rightarrow> None
      | Some version \<Rightarrow>
          if version \<le> current then None
          else if channel = Stable \<and> sv_pre V version \<noteq> '''' then None
          else
            (case find_platform_asset pf (assets release) of
               None \<Rightarrow> None
             | Some binary_asset \<Rightarrow>
                 (case find (\<lambda>a. as_name a = as_name binary_asset @ ''.sig'') (assets release) of
                    None \<Rightarrow> None
                  | Some sig_asset \<Rightarrow>
                      Some \<lparr>ui_version = version, download_url = browser_download_url binary_asset,
                            signature_url = browser_download_url sig_asset, release_notes = rel_body release\<rparr>)))"

definition consider_release ::
  "'v semver \<Rightarrow> platform \<Rightarrow> 'v::linorder \<Rightarrow> UpgradeChannel \<Rightarrow> GitHubRelease \<Rightarrow> 'v UpgradeInfo option \<Rightarrow> 'v UpgradeInfo option" where
  "consider_release V pf current channel release best =
     (case release_candidate V pf current channel release of
        None \<Rightarrow> best
      | Some candidate \<Rightarrow>
          (case best of
             None \<Rightarrow> Some candidate
           | Some b \<Rightarrow> if ui_version b < ui_version candidate then Some candidate else best))"

definition select_upgrade_from_releases ::
  "'v semver \<Rightarrow> platform \<Rightarrow> GitHubRelease list \<Rightarrow> 'v::linorder \<Rightarrow> UpgradeChannel \<Rightarrow> 'v UpgradeInfo option" where
  "select_upgrade_from_releases V pf releases current channel =
     fold (consider_release V pf current channel) releases None"

section \<open>Staged rollout\<close>

record StagedRollout =
  max_delay_hours :: nat
  node_id_hash :: bytes

record rollout_env =
  re_blake3 :: "bytes \<Rightarrow> bytes"
  re_utf8 :: "string \<Rightarrow> bytes"
  re_scale :: "nat \<Rightarrow> nat \<Rightarrow> nat"

definition nanos_of_secs :: "nat \<Rightarrow> nat" where "nanos_of_secs s = s * 10 ^ 9"

definition StagedRollout_new :: "rollout_env \<Rightarrow> bytes \<Rightarrow> nat \<Rightarrow> StagedRollout" where
  "StagedRollout_new R node_id hours = \<lparr>max_delay_hours = hours, node_id_hash = re_blake3 R node_id\<rparr>"

definition is_enabled :: "StagedRollout \<Rightarrow> bool" where
  "is_enabled ro \<longleftrightarrow> 0 < max_delay_hours ro"

definition calculate_delay :: "rollout_env \<Rightarrow> StagedRollout \<Rightarrow> nat" where
  "calculate_delay R ro =
     (if max_delay_hours ro = 0 then 0
      else
        (let hash_value = le_value (take 8 (node_id_hash ro));
             max_delay_secs = max_delay_hours ro * 3600 mod 2 ^ 64
         in nanos_of_secs (re_scale R hash_value max_delay_secs)))"

definition calculate_delay_for_version :: "'v semver \<Rightarrow> rollout_env \<Rightarrow> StagedRollout \<Rightarrow> 'v \<Rightarrow> nat" where
  "calculate_delay_for_version V R ro version =
     (if max_delay_hours ro = 0 then 0
      else
        (let hash_result = re_blake3 R (node_id_hash ro @ re_utf8 R (sv_show V version));
             hash_value = le_value (take 8 hash_result);
             max_delay_secs = max_delay_hours ro * 3600 mod 2 ^ 64
         in nanos_of_secs (re_scale R hash_value max_delay_secs)))"

section \<open>The cache of releases\<close>

record ReleaseCache =
  rc_cache_dir :: path
  rc_ttl :: nat

record CachedAsset =
  ca_name :: string
  ca_browser_download_url :: string

record CachedRelease =
  cr_tag_name :: string
  cr_name :: string
  cr_body :: string
  cr_prerelease :: bool
  cr_assets :: "CachedAsset list"

record CachedReleases =
  cs_repo :: string
  fetched_at_epoch_secs :: nat
  cs_releases :: "CachedRelease list"

definition cached_asset_of :: "Asset \<Rightarrow> CachedAsset" where
  "cached_asset_of a = \<lparr>ca_name = as_name a, ca_browser_download_url = browser_download_url a\<rparr>"

definition asset_of :: "CachedAsset \<Rightarrow> Asset" where
  "asset_of c = \<lparr>as_name = ca_name c, browser_download_url = ca_browser_download_url c\<rparr>"

definition cached_release_of :: "GitHubRelease \<Rightarrow> CachedRelease" where
  "cached_release_of r =
     \<lparr>cr_tag_name = tag_name r, cr_name = rel_name r, cr_body = rel_body r, cr_prerelease = prerelease r,
      cr_assets = map cached_asset_of (assets r)\<rparr>"

definition release_of :: "CachedRelease \<Rightarrow> GitHubRelease" where
  "release_of c =
     \<lparr>tag_name = cr_tag_name c, rel_name = cr_name c, rel_body = cr_body c, prerelease = cr_prerelease c,
      assets = map asset_of (cr_assets c)\<rparr>"

record json_cache =
  releases_to_json :: "CachedReleases \<Rightarrow> string + bytes"
  releases_from_json :: "bytes \<Rightarrow> string + CachedReleases"

definition ReleaseCache_new :: "path \<Rightarrow> nat \<Rightarrow> ReleaseCache" where
  "ReleaseCache_new dir ttl = \<lparr>rc_cache_dir = dir, rc_ttl = ttl\<rparr>"

definition cache_file :: "ReleaseCache \<Rightarrow> path" where
  "cache_file rc = rc_cache_dir rc @ [''releases.json'']"

definition lock_file :: "ReleaseCache \<Rightarrow> path" where
  "lock_file rc = rc_cache_dir rc @ [''releases.lock'']"

text \<open>\<open>now\<close> is the system clock in seconds since the epoch, or the error that it is before the epoch.\<close>

definition read_if_valid ::
  "os \<Rightarrow> json_cache \<Rightarrow> ReleaseCache \<Rightarrow> string \<Rightarrow> string + nat \<Rightarrow> disk \<Rightarrow> GitHubRelease list option" where
  "read_if_valid OS J rc repo now d =
     (case fs_read OS (cache_file rc) d of
        Inl e \<Rightarrow> None
      | Inr bs \<Rightarrow>
          (case releases_from_json J bs of
             Inl e \<Rightarrow> None
           | Inr cached \<Rightarrow>
               if cs_repo cached \<noteq> repo then None
               else
                 (case now of
                    Inl e \<Rightarrow> None
                  | Inr n \<Rightarrow>
                      if rc_ttl rc \<le> n - fetched_at_epoch_secs cached then None
                      else Some (map release_of (cs_releases cached)))))"

definition lock_and_recheck ::
  "os \<Rightarrow> json_cache \<Rightarrow> (disk \<Rightarrow> disk) \<Rightarrow> ReleaseCache \<Rightarrow> string \<Rightarrow> string + nat \<Rightarrow> disk \<Rightarrow>
   (node_error + GitHubRelease list option) \<times> disk" where
  "lock_and_recheck OS J others rc repo now d =
     (case fs_create OS (lock_file rc) d of
        (Inl e, d1) \<Rightarrow> (Inl (Upgrade e), d1)
      | (Inr u, d1) \<Rightarrow> (let d2 = others d1 in (Inr (read_if_valid OS J rc repo now d2), d2)))"

definition write_inner ::
  "os \<Rightarrow> json_cache \<Rightarrow> ReleaseCache \<Rightarrow> string \<Rightarrow> GitHubRelease list \<Rightarrow> string + nat \<Rightarrow> disk \<Rightarrow> (node_error + unit) \<times> disk" where
  "write_inner OS J rc repo releases now d =
     (case try_bind (map_err Upgrade now) (\<lambda>n. map_err Upgrade (releases_to_json J
             \<lparr>cs_repo = repo, fetched_at_epoch_secs = n, cs_releases = map cached_release_of releases\<rparr>)) of
        Inl e \<Rightarrow> (Inl e, d)
      | Inr json \<Rightarrow>
          (let (r, d1) = fs_replace OS (rc_cache_dir rc @ [''releases.json.tmp'']) (cache_file rc) json d
           in (map_err NodeIo r, d1)))"

definition release_cache_write ::
  "os \<Rightarrow> json_cache \<Rightarrow> (disk \<Rightarrow> disk) \<Rightarrow> ReleaseCache \<Rightarrow> string \<Rightarrow> GitHubRelease list \<Rightarrow> string + nat \<Rightarrow> disk \<Rightarrow>
   (node_error + unit) \<times> disk" where
  "release_cache_write OS J others rc repo releases now d =
     (case fs_create OS (lock_file rc) d of
        (Inl e, d1) \<Rightarrow> (Inl (Upgrade e), d1)
      | (Inr u, d1) \<Rightarrow> write_inner OS J rc repo releases now (others d1))"

section \<open>The monitor\<close>

record 'v UpgradeMonitor =
  um_repo :: string
  um_channel :: UpgradeChannel
  check_interval :: nat
  current_version :: 'v
  staged_rollout :: "StagedRollout option"
  release_cache :: "ReleaseCache option"
  pending_upgrade_detected :: "nat option"
  pending_upgrade_version :: "'v option"

record 'v monitor_env =
  mo_semver :: "'v semver"
  mo_platform :: platform
  mo_rollout :: rollout_env
  mo_json :: json_cache

definition UpgradeMonitor_new :: "'v \<Rightarrow> string \<Rightarrow> UpgradeChannel \<Rightarrow> nat \<Rightarrow> 'v UpgradeMonitor" where
  "UpgradeMonitor_new version repo channel hours =
     \<lparr>um_repo = repo, um_channel = channel, check_interval = nanos_of_secs (hours * 3600 mod 2 ^ 64), current_version = version,
      staged_rollout = None, release_cache = None, pending_upgrade_detected = None, pending_upgrade_version = None\<rparr>"

definition with_release_cache :: "'v UpgradeMonitor \<Rightarrow> ReleaseCache \<Rightarrow> 'v UpgradeMonitor" where
  "with_release_cache m rc = m\<lparr>release_cache := Some rc\<rparr>"

definition with_staged_rollout :: "rollout_env \<Rightarrow> 'v UpgradeMonitor \<Rightarrow> bytes \<Rightarrow> nat \<Rightarrow> 'v UpgradeMonitor" where
  "with_staged_rollout R m node_id hours =
     (if 0 < hours then m\<lparr>staged_rollout := Some (StagedRollout_new R node_id hours)\<rparr> else m)"

definition version_matches_channel :: "'v semver \<Rightarrow> 'v UpgradeMonitor \<Rightarrow> 'v \<Rightarrow> bool" where
  "version_matches_channel V m version = (case um_channel m of Stable \<Rightarrow> sv_pre V version = '''' | Beta \<Rightarrow> True)"

definition process_release ::
  "'v::linorder monitor_env \<Rightarrow> 'v UpgradeMonitor \<Rightarrow> GitHubRelease \<Rightarrow> 'v UpgradeInfo option" where
  "process_release M m release =
     (case version_from_tag (mo_semver M) (tag_name release) of
        None \<Rightarrow> None
      | Some latest_version \<Rightarrow>
          if latest_version \<le> current_version m then None
          else if \<not> version_matches_channel (mo_semver M) m latest_version then None
          else
            (case find_platform_asset (mo_platform M) (assets release) of
               None \<Rightarrow> None
             | Some binary_asset \<Rightarrow>
                 (case find (\<lambda>a. as_name a = as_name binary_asset @ ''.sig'') (assets release) of
                    None \<Rightarrow> None
                  | Some sig_asset \<Rightarrow>
                      Some \<lparr>ui_version = latest_version, download_url = browser_download_url binary_asset,
                            signature_url = browser_download_url sig_asset, release_notes = rel_body release\<rparr>)))"

text \<open>The circumstances of one check: the answer of the API, the three
  readings of the system clock, the two of the monotonic clock and the changes of other nodes.\<close>

record check_env =
  ck_api :: "node_error + GitHubRelease list"
  ck_epoch :: "nat \<Rightarrow> string + nat"
  ck_instant :: "nat \<Rightarrow> nat"
  ck_others :: "disk \<Rightarrow> disk"

definition check_for_updates ::
  "os \<Rightarrow> 'v::linorder monitor_env \<Rightarrow> 'v UpgradeMonitor \<Rightarrow> check_env \<Rightarrow> disk \<Rightarrow> (node_error + 'v UpgradeInfo option) \<times> disk" where
  "check_for_updates OS M m ck d =
     (let select = (\<lambda>rs. select_upgrade_from_releases (mo_semver M) (mo_platform M) rs (current_version m) (um_channel m))
      in case release_cache m of
           None \<Rightarrow> (try_bind (ck_api ck) (\<lambda>rs. Inr (select rs)), d)
         | Some rc \<Rightarrow>
             (case read_if_valid OS (mo_json M) rc (um_repo m) (ck_epoch ck 0) d of
                Some rs \<Rightarrow> (Inr (select rs), d)
              | None \<Rightarrow>
                  (case lock_and_recheck OS (mo_json M) (ck_others ck) rc (um_repo m) (ck_epoch ck 1) d of
                     (Inl e, d1) \<Rightarrow> (Inl e, d1)
                   | (Inr (Some rs), d1) \<Rightarrow> (Inr (select rs), d1)
                   | (Inr None, d1) \<Rightarrow>
                       (case ck_api ck of
                          Inl e \<Rightarrow> (Inl e, d1)
                        | Inr rs \<Rightarrow>
                            (let (w, d2) = write_inner OS (mo_json M) rc (um_repo m) rs (ck_epoch ck 2) d1
                             in (Inr (select rs), d2))))))"

definition check_for_ready_upgrade ::
  "os \<Rightarrow> 'v::linorder monitor_env \<Rightarrow> 'v UpgradeMonitor \<Rightarrow> check_env \<Rightarrow> disk \<Rightarrow>
   (node_error + 'v UpgradeInfo option) \<times> 'v UpgradeMonitor \<times> disk" where
  "check_for_ready_upgrade OS M m ck d =
     (case check_for_updates OS M m ck d of
        (Inl e, d1) \<Rightarrow> (Inl e, m, d1)
      | (Inr None, d1) \<Rightarrow> (Inr None, m\<lparr>pending_upgrade_detected := None, pending_upgrade_version := None\<rparr>, d1)
      | (Inr (Some info), d1) \<Rightarrow>
          (case staged_rollout m of
             None \<Rightarrow> (Inr (Some info), m, d1)
           | Some ro \<Rightarrow>
               (let is_new_version = (pending_upgrade_version m \<noteq> Some (ui_version info));
                    m1 = (if is_new_version
                          then m\<lparr>pending_upgrade_detected := Some (ck_instant ck 0), pending_upgrade_version := Some (ui_version info)\<rparr>
                          else m)
                in case pending_upgrade_detected m1 of
                     None \<Rightarrow> (Inr (Some info), m1, d1)
                   | Some detected_at \<Rightarrow>
                       (let delay = calculate_delay_for_version (mo_semver M) (mo_rollout M) ro (ui_version info);
                            elapsed = ck_instant ck 1 - detected_at
                        in if delay \<le> elapsed then (Inr (Some info), m1, d1) else (Inr None, m1, d1)))))"

definition time_until_upgrade :: "'v monitor_env \<Rightarrow> 'v UpgradeMonitor \<Rightarrow> nat \<Rightarrow> nat option" where
  "time_until_upgrade M m now =
     (case (staged_rollout m, pending_upgrade_version m, pending_upgrade_detected m) of
        (Some ro, Some version, Some detected_at) \<Rightarrow>
          (let delay = calculate_delay_for_version (mo_semver M) (mo_rollout M) ro version;
               elapsed = now - detected_at
           in if delay \<le> elapsed then Some 0 else Some (delay - elapsed))
      | _ \<Rightarrow> None)"

definition build_upgrade_monitor ::
  "rollout_env \<Rightarrow> 'v \<Rightarrow> string \<Rightarrow> UpgradeChannel \<Rightarrow> nat \<Rightarrow> nat \<Rightarrow> node_error + path \<Rightarrow> bytes \<Rightarrow> 'v UpgradeMonitor" where
  "build_upgrade_monitor R version repo channel interval_hours rollout_hours cache_dir node_id_seed =
     (let m = UpgradeMonitor_new version repo channel interval_hours;
          m1 = (case cache_dir of Inr dir \<Rightarrow> with_release_cache m (ReleaseCache_new dir 3600) | Inl e \<Rightarrow> m)
      in if 0 < rollout_hours then with_staged_rollout R m1 node_id_seed rollout_hours else m1)"

end
