(* ===== verification/Upgrade_Apply.thy ===== *)
theory Upgrade_Apply
  imports Upgrade_Monitor
begin

text \<open>
  Installing upgrades: \<open>apply.rs\<close>, \<open>binary_cache.rs\<close>, \<open>signature.rs\<close> and the class \<open>Upgrader\<close> of \<open>mod.rs\<close>
  in \<open>src/ant-node/src/upgrade\<close>, in their Unix variants, and the upgrade task of
  \<open>src/ant-node/src/node.rs\<close>.

  The record \<open>upgrade_env\<close> holds what is outside the repository: HTTP, the ML-DSA crate, the readers of
  \<open>tar.gz\<close> and \<open>zip\<close> archives, SHA-256, \<open>serde_json\<close>, running and spawning programs, the name that
  \<open>tempfile\<close> chooses. \<open>ue_others\<close> is what other nodes do to the disk while this one waits for
  the lock of the cache; elsewhere they do nothing. An error while a file is read counts as one on opening it.
\<close>

section \<open>The environment\<close>

record CachedBinaryMeta =
  cb_version :: string
  cb_sha256 :: string
  cached_at_epoch_secs :: nat

record dsa =
  dsa_public_key :: "bytes \<Rightarrow> string + bytes"
  dsa_signature :: "bytes \<Rightarrow> string + bytes"
  dsa_verify :: "bytes \<Rightarrow> bytes \<Rightarrow> bytes \<Rightarrow> bytes \<Rightarrow> string + bool"

text \<open>An entry of an archive: its file name, if it has one, its content and the error while reading it, if any.\<close>

record archive_entry =
  ae_name :: "string + string option"
  ae_data :: bytes
  ae_fault :: "string option"

record 'v upgrade_env =
  ue_semver :: "'v semver"
  ue_dsa :: dsa
  ue_http :: "nat \<Rightarrow> string \<Rightarrow> string + (nat \<times> (string + bytes))"
  ue_untar :: "bytes \<Rightarrow> string + (string + archive_entry) list"
  ue_unzip :: "bytes \<Rightarrow> string + (string + archive_entry) list"
  ue_sha256 :: "bytes \<Rightarrow> bytes"
  ue_meta_to_json :: "CachedBinaryMeta \<Rightarrow> string + bytes"
  ue_meta_from_json :: "bytes \<Rightarrow> string + CachedBinaryMeta"
  ue_epoch :: "string + nat"
  ue_others :: "disk \<Rightarrow> disk"
  ue_run_version :: "bytes \<Rightarrow> string option"
  ue_spawn :: "bytes option \<Rightarrow> string list \<Rightarrow> string option"
  ue_temp_name :: string

datatype rollback_reason =
    StepFailed node_error
  | BackupFailed string
  | ReplacementFailed node_error
  | DownloadFailed node_error
  | SignatureDownloadFailed node_error
  | SignatureVerificationFailed node_error
  | NotSupported

datatype 'v UpgradeResult = Success 'v int | RolledBack rollback_reason | NoUpgrade

definition critical_error :: node_error where
  "critical_error = Upgrade ''Critical: replacement failed AND rollback failed''"

section \<open>Signatures\<close>

definition SIGNING_CONTEXT :: bytes where
  "SIGNING_CONTEXT = map of_char ''ant-node-release-v1''"

definition SIGNATURE_SIZE :: nat where "SIGNATURE_SIZE = 3309"
definition PUBLIC_KEY_SIZE :: nat where "PUBLIC_KEY_SIZE = 1952"

text \<open>The rows of sixteen bytes of the source, each written as one number.\<close>

definition RELEASE_SIGNING_KEY :: bytes where
  "RELEASE_SIGNING_KEY = concat (map (be_bytes 16)
    [0x55edf3e1f8c6d3bf45892c796ddd2313, 0xbeadd9df8e4ff43cb86328796e3484d3, 0x7dfb1e10434389e921a13cd4c00b445c,
     0x2399bd20d7b0ac588eeda25a71d66cf8, 0x3fbe9c736c3bc3b4c3776d4992566e84, 0x662873e4c5bb32b43a336c337754c8c0,
     0x1871826af4f210f4b7d157c61d36bb80, 0x2bafbd52a6ccd5a163340cbbc3834dfc, 0xeb8ff72893cf678c9cadc6f10a95327f,
     0x2b2c6c652f8f295b47644390337f823c, 0xe3ec75db3d6de4c142928099ddd210b4, 0x913e7af6edd8a51fe407f07b7b5e8e12,
     0xe66e04e5a6f4246a28186b0a5a365d46, 0xe222d767297bb98e88d97658c912dfb6, 0x977621faec6c67ea63c83bc3f65cc05e,
     0xf8088263fcf9242af5208c3cb7a8848d, 0x87d80374c6b1322be8d92186fb28133b, 0xe94d998fa35c8ce0c6f39b25cc114839,
     0x50003b0e1db7d2ca0f1008ed65a66fee, 0x66d768480d9a73df1c00ccbe86a64f15, 0x6bf356bb0d93c38da8318491137b1410,
     0x6059181608fd2d4d0cb28c946f7d81e9, 0x439faa13c203ffe2a206383b9bce8523, 0x80eaa9922f2915ba68336a0dbe118761,
     0xf1d559507051916d4a9e697cdd238fa6, 0x4ea681e7bc62407c0bc0a2e1f866c182, 0x4a72b3ee4544c77bb1cefd80a92020e7,
     0xaddf9aa286f36493b2c9b1565d66679c, 0x292353c4c985d1ed842bc4a9931b8fd8, 0xff1e2da83c276ca5232a5ed0cf11e203,
     0x7bdba010de2ea95b4277cfa4c8abbd67, 0xa8887b51e439eb3e4e8ff1188343437e, 0xd158276054d5a83054a1d0dc94f0288d,
     0x9ce4941acc87f7ce4c630dd06d452090, 0x5c953e3c2ed0352c35492c6a7e5d5dc8, 0xafb2960b88b92b3382a4c381d3b97e17,
     0xbaa757474d3355eba551d7e7c9469552, 0x72b3b7579bf657ff9dc5934b05484181, 0x25fcd99e56183617741f7741983f9e20,
     0x743d4ee3a0a06b6438d7f78cef016882, 0x53300ab6d181d1703cea96d389210ebb, 0x5a805199ebef0685ae8afd235a913ce1,
     0x85edf5f05888acd0e883b690f2e6765c, 0xcfd8baba88ec0bd37766306ecc8429d3, 0x5fdf6e5b7f9d97ed2533c6934e62627e,
     0x003520684e854ac1e0202f80112f33ac, 0xd38d5671cca6ebe10e3fea4616c55e84, 0xbdad7a7a4a8c7366aa3edcbe65a65aed,
     0xc632cbbb03b9fbf37adc717b46864d55, 0xeb7005c98203df22a4fd25b1373b9080, 0x3545ab660e4ccf5f692f7b097d6ab191,
     0x0d7eb4d4cb5fa3f3007303bfc96e9c48, 0x9e1c3bb01fabb6ea72049dec6cc9d2ed, 0x6f72195c3afc5768f60588d8e638d4e0,
     0x9ceda738a9abd479f03e3932a36b2a49, 0x5312af7f6d26f6168c9dac0df733f469, 0xc947ecbaac957e7d41c0caced5f89e49,
     0xe04daa13ea053af2713bad8b16d71207, 0xeaf681093f04202fd578d8c4eeca9e43, 0xe15be421afebbff88c521f3fb88f3cfa,
     0x3c9481595321d6f13a9a7bd818e9bd41, 0xc44a5c8a212eda7032b7ef498838e38d, 0xd953d1c29cecf676750a3137bad2aa37,
     0xce307a2bdbce44866c201a6cae0a20bb, 0xfa6b0411ddfd897aaf1f638575786277, 0xa0138e4c5b1106cf97282d9ad15ccd3e,
     0x0ac0429360e2371bf56872d68bd178e4, 0x1aa5bc7fd26efd3eddca6f327b193948, 0x8831107fa64dc9e31d40e111fcbc32a9,
     0x06de1729145083db542c9e754ef7eec4, 0x8dc2f3f803020e4ec442ef5b3b37522e, 0x51f37218324842bedfe246491777e44e,
     0x5fda50dace30653af9efd48b9188bbb9, 0x6965aa3be1d5f80a2a8ac96754d85455, 0x3eac9e9d736a1f21e12baa871640fc37,
     0xd8a9bc397278fc9d6de2d85d30bbd49b, 0xbdf3eb64784a6333e9959cac94c1f8d9, 0x2c2546921aa577ca02af9749242fe677,
     0x3a3d350508d99074b2286ebd3485d547, 0x885d36e88cd19b5d49a8944622bd6719, 0x778fb7da176849f0f56d2ae49b4c07ac,
     0x91a62d416ff640a7e9c43e7cc3b68bf5, 0x0a4719d4861640025a9b6fe0839b8461, 0x2835dba622ae670c725fd0dc9c8bcaa5,
     0xc7ed5ce0bae757bbf3c2a4211611e95e, 0x47ddb5889c6a2ccc6b2c19bc523ff551, 0x15cdae611fca16fbd8d7202fe4b9d49a,
     0x8bf7a5035d6bde5769ef50ffed2d414f, 0x5c877a04ce91f023142054ae256aea71, 0xd25c263bc975e46892666303a0f69c46,
     0x4889e0ad104f356f68b963d09ca6a60e, 0x939563daea2627ab10676de8c84ec99b, 0x5396a86f777137eff65251947a3b8ef2,
     0x4c142159c5e9851abaf298af8001c457, 0x78de44a90ec53188e065568c16db8089, 0x63d5c2917d90897bfaa02a55cc6220cb,
     0xcf89288ba57055697630b0f07e30644c, 0x7b4b41cf6f288b995f8aabf5fb45b6cd, 0xcac987b0833ee318ceab6bd75784d643,
     0x1c10c2f28bb4d2abd1ca73c6c072a769, 0x740273f6a3e39b6dc9011695789e1773, 0x39ca0aab037c3be941697147bac4c134,
     0x9f472bf28e01f0e28618b18046066142, 0xd82541e1d7178ba31f64911f28821a63, 0x1168a70f9a8caf611898313a95e4f473,
     0x8bf5b21c19cb227723078580c91c74ee, 0xbf97976017292a4c50647ea0991386a6, 0x893cd6d89cef24e692e958c638618639,
     0xcfbe70f65a69806e80cb146f9a263028, 0x3d320741249c84ba4a675ff0172823fe, 0x393980b5ac285397dd0d5b55d4228181,
     0x4db48b2b33ad62d58dfe39d4d8f15d0f, 0x1964bfac91f1923c7f3ab8a6b5d73a36, 0xc89c651ba62a98159623d4e3a60723a9,
     0xce1650b197ce6900681af87188555ef1, 0xd981641c952b68f9be789abbf92c7f6e, 0xed66fd44aafe9684debc4778c490b8e4,
     0xdeb83fafc505e66e624c4307bf0699f3, 0x1838263f87d7040ea00dbdf8da5024e9, 0x4628be707f7925d11ae65e74e52f5dd2,
     0xc260e96e154c70409988e093fe361e64, 0x14a5cf35f2d2ab8df41d29bdac08afd6])"

definition verify_binary_signature_with_key ::
  "os \<Rightarrow> dsa \<Rightarrow> path \<Rightarrow> bytes \<Rightarrow> bytes \<Rightarrow> disk \<Rightarrow> node_error + unit" where
  "verify_binary_signature_with_key OS A binary_path signature public_key d =
     try_bind (map_err Crypto (fs_read OS binary_path d)) (\<lambda>binary_content.
       if length signature \<noteq> SIGNATURE_SIZE then Inl (Crypto ''Invalid signature size'')
       else try_bind (map_err Crypto (dsa_signature A signature)) (\<lambda>sig.
         try_bind (map_err Crypto (dsa_verify A public_key binary_content sig SIGNING_CONTEXT)) (\<lambda>valid.
           if valid then Inr () else Inl (Crypto ''Signature verification failed: invalid signature''))))"

definition verify_binary_signature :: "os \<Rightarrow> dsa \<Rightarrow> path \<Rightarrow> bytes \<Rightarrow> disk \<Rightarrow> node_error + unit" where
  "verify_binary_signature OS A binary_path signature d =
     try_bind (map_err Crypto (dsa_public_key A RELEASE_SIGNING_KEY)) (\<lambda>public_key.
       verify_binary_signature_with_key OS A binary_path signature public_key d)"

definition verify_from_file :: "os \<Rightarrow> dsa \<Rightarrow> path \<Rightarrow> path \<Rightarrow> disk \<Rightarrow> node_error + unit" where
  "verify_from_file OS A binary_path signature_path d =
     try_bind (map_err NodeIo (fs_read OS signature_path d)) (\<lambda>signature.
       verify_binary_signature OS A binary_path signature d)"

definition verify_from_file_with_key :: "os \<Rightarrow> dsa \<Rightarrow> path \<Rightarrow> path \<Rightarrow> bytes \<Rightarrow> disk \<Rightarrow> node_error + unit" where
  "verify_from_file_with_key OS A binary_path signature_path public_key d =
     try_bind (map_err NodeIo (fs_read OS signature_path d)) (\<lambda>signature.
       verify_binary_signature_with_key OS A binary_path signature public_key d)"

section \<open>The cache of binaries\<close>

record BinaryCache =
  bc_cache_dir :: path

definition BinaryCache_new :: "path \<Rightarrow> BinaryCache" where
  "BinaryCache_new dir = \<lparr>bc_cache_dir = dir\<rparr>"

definition cached_binary_path :: "BinaryCache \<Rightarrow> string \<Rightarrow> path" where
  "cached_binary_path bc version = bc_cache_dir bc @ [''ant-node-'' @ version]"

definition meta_path :: "BinaryCache \<Rightarrow> string \<Rightarrow> path" where
  "meta_path bc version = bc_cache_dir bc @ [''ant-node-'' @ version @ ''.meta.json'']"

definition tmp_binary_path :: "BinaryCache \<Rightarrow> string \<Rightarrow> path" where
  "tmp_binary_path bc version = bc_cache_dir bc @ [''.ant-node-'' @ version @ ''.tmp'']"

definition tmp_meta_path :: "BinaryCache \<Rightarrow> string \<Rightarrow> path" where
  "tmp_meta_path bc version = bc_cache_dir bc @ [''.ant-node-'' @ version @ ''.meta.tmp'']"

definition sha256_file :: "os \<Rightarrow> 'v upgrade_env \<Rightarrow> path \<Rightarrow> disk \<Rightarrow> node_error + string" where
  "sha256_file OS U p d = try_bind (map_err NodeIo (fs_read OS p d)) (\<lambda>c. Inr (os_hex_encode OS (ue_sha256 U c)))"

definition get_verified :: "os \<Rightarrow> 'v upgrade_env \<Rightarrow> BinaryCache \<Rightarrow> string \<Rightarrow> disk \<Rightarrow> path option" where
  "get_verified OS U bc version d =
     (let bin_path = cached_binary_path bc version
      in case fs_read OS (meta_path bc version) d of
           Inl e \<Rightarrow> None
         | Inr meta_data \<Rightarrow>
             (case ue_meta_from_json U meta_data of
                Inl e \<Rightarrow> None
              | Inr meta \<Rightarrow>
                  if cb_version meta \<noteq> version then None
                  else
                    (case sha256_file OS U bin_path d of
                       Inl e \<Rightarrow> None
                     | Inr actual_hash \<Rightarrow> if actual_hash \<noteq> cb_sha256 meta then None else Some bin_path)))"

definition store_binary ::
  "os \<Rightarrow> 'v upgrade_env \<Rightarrow> BinaryCache \<Rightarrow> string \<Rightarrow> path \<Rightarrow> disk \<Rightarrow> (node_error + unit) \<times> disk" where
  "store_binary OS U bc version source_path d =
     (case sha256_file OS U source_path d of
        Inl e \<Rightarrow> (Inl e, d)
      | Inr hash \<Rightarrow>
          (let dest = cached_binary_path bc version;
               tmp_bin = tmp_binary_path bc version
           in case fs_copy OS source_path tmp_bin d of
                (Inl e, d1) \<Rightarrow> (Inl (NodeIo e), d1)
              | (Inr u, d1) \<Rightarrow>
                  (case fs_rename OS tmp_bin dest (fs_remove_file OS dest d1) of
                     (Inl e, d2) \<Rightarrow> (Inl (NodeIo e), d2)
                   | (Inr u, d2) \<Rightarrow>
                       (case try_bind (map_err Upgrade (ue_epoch U)) (\<lambda>now. map_err Upgrade (ue_meta_to_json U
                               \<lparr>cb_version = version, cb_sha256 = hash, cached_at_epoch_secs = now\<rparr>)) of
                          Inl e \<Rightarrow> (Inl e, d2)
                        | Inr meta_json \<Rightarrow>
                            (let (r, d3) = fs_replace OS (tmp_meta_path bc version) (meta_path bc version) meta_json d2
                             in (map_err NodeIo r, d3))))))"

definition acquire_download_lock :: "os \<Rightarrow> 'v upgrade_env \<Rightarrow> BinaryCache \<Rightarrow> disk \<Rightarrow> (node_error + unit) \<times> disk" where
  "acquire_download_lock OS U bc d =
     (case fs_create OS (bc_cache_dir bc @ [''download.lock'']) d of
        (Inl e, d1) \<Rightarrow> (Inl (Upgrade e), d1)
      | (Inr u, d1) \<Rightarrow> (Inr (), ue_others U d1))"

section \<open>Downloads and archives\<close>

definition MAX_ARCHIVE_SIZE_BYTES :: nat where "MAX_ARCHIVE_SIZE_BYTES = 200 * 1024 * 1024"

definition upgrade_download ::
  "os \<Rightarrow> 'v upgrade_env \<Rightarrow> nat \<Rightarrow> string \<Rightarrow> path \<Rightarrow> disk \<Rightarrow> (node_error + unit) \<times> disk" where
  "upgrade_download OS U i url dest d =
     (case ue_http U i url of
        Inl e \<Rightarrow> (Inl (Network e), d)
      | Inr (status, payload) \<Rightarrow>
          if \<not> (200 \<le> status \<and> status < 300) then (Inl (Network ''Download returned status''), d)
          else
            (case payload of
               Inl e \<Rightarrow> (Inl (Network e), d)
             | Inr bs \<Rightarrow>
                 if MAX_ARCHIVE_SIZE_BYTES < length bs then (Inl (Upgrade ''Downloaded file too large''), d)
                 else (let (r, d1) = fs_write OS dest bs d in (map_err NodeIo r, d1))))"

text \<open>\<open>io::copy\<close> of an entry to the new file, which is then made executable.\<close>

definition write_entry :: "os \<Rightarrow> path \<Rightarrow> archive_entry \<Rightarrow> disk \<Rightarrow> (node_error + path) \<times> disk" where
  "write_entry OS out entry d =
     (case fs_create OS out d of
        (Inl e, d1) \<Rightarrow> (Inl (NodeIo e), d1)
      | (Inr u, d1) \<Rightarrow>
          (case ae_fault entry of
             Some e \<Rightarrow> (Inl (Upgrade e), partial_write OS out [] (ae_data entry) d1)
           | None \<Rightarrow>
               (case fs_append OS out 0 (ae_data entry) d1 of
                  (Inl e, d2) \<Rightarrow> (Inl (Upgrade e), d2)
                | (Inr u, d2) \<Rightarrow>
                    (case fs_set_permissions OS out of
                       Inl e \<Rightarrow> (Inl (NodeIo e), d2)
                     | Inr u \<Rightarrow> (Inr out, d2)))))"

definition is_node_binary :: "string \<Rightarrow> bool" where
  "is_node_binary name \<longleftrightarrow> name = ''ant-node'' \<or> name = ''ant-node.exe''"

fun tar_entries :: "os \<Rightarrow> path \<Rightarrow> (string + archive_entry) list \<Rightarrow> disk \<Rightarrow> (node_error + path) \<times> disk" where
  "tar_entries OS out [] d = (Inl (Upgrade ''ant-node binary not found in tar.gz archive''), d)"
| "tar_entries OS out (Inl e # rest) d = (Inl (Upgrade e), d)"
| "tar_entries OS out (Inr entry # rest) d =
     (case ae_name entry of
        Inl e \<Rightarrow> (Inl (Upgrade e), d)
      | Inr (Some name) \<Rightarrow> if is_node_binary name then write_entry OS out entry d else tar_entries OS out rest d
      | Inr None \<Rightarrow> tar_entries OS out rest d)"

definition extract_from_tar_gz :: "os \<Rightarrow> 'v upgrade_env \<Rightarrow> path \<Rightarrow> path \<Rightarrow> disk \<Rightarrow> (node_error + path) \<times> disk" where
  "extract_from_tar_gz OS U archive_path dest_dir d =
     (case try_bind (map_err NodeIo (fs_read OS archive_path d)) (\<lambda>c. map_err Upgrade (ue_untar U c)) of
        Inl e \<Rightarrow> (Inl e, d)
      | Inr entries \<Rightarrow> tar_entries OS (dest_dir @ [''ant-node'']) entries d)"

fun zip_entries :: "os \<Rightarrow> path \<Rightarrow> (string + archive_entry) list \<Rightarrow> disk \<Rightarrow> (node_error + path) \<times> disk" where
  "zip_entries OS out [] d = (Inl (Upgrade ''ant-node binary not found in zip archive''), d)"
| "zip_entries OS out (Inl e # rest) d = (Inl (Upgrade e), d)"
| "zip_entries OS out (Inr entry # rest) d =
     (case ae_name entry of
        Inr (Some name) \<Rightarrow> if is_node_binary name then write_entry OS out entry d else zip_entries OS out rest d
      | _ \<Rightarrow> zip_entries OS out rest d)"

definition extract_from_zip :: "os \<Rightarrow> 'v upgrade_env \<Rightarrow> path \<Rightarrow> path \<Rightarrow> disk \<Rightarrow> (node_error + path) \<times> disk" where
  "extract_from_zip OS U archive_path dest_dir d =
     (case try_bind (map_err NodeIo (fs_read OS archive_path d)) (\<lambda>c. map_err Upgrade (ue_unzip U c)) of
        Inl e \<Rightarrow> (Inl e, d)
      | Inr entries \<Rightarrow> zip_entries OS (dest_dir @ [''ant-node'']) entries d)"

definition extract_binary :: "os \<Rightarrow> 'v upgrade_env \<Rightarrow> path \<Rightarrow> path \<Rightarrow> disk \<Rightarrow> (node_error + path) \<times> disk" where
  "extract_binary OS U archive_path dest_dir d =
     (case fs_read OS archive_path d of
        Inl e \<Rightarrow> (Inl (NodeIo e), d)
      | Inr c \<Rightarrow>
          if length c < 2 then (Inl (Upgrade ''Failed to read archive header''), d)
          else if take 2 c = [0x1f, 0x8b] then extract_from_tar_gz OS U archive_path dest_dir d
          else if take 2 c = [0x50, 0x4b] then extract_from_zip OS U archive_path dest_dir d
          else (Inl (Upgrade ''Unknown archive format''), d))"

definition download_verify_extract ::
  "os \<Rightarrow> 'v upgrade_env \<Rightarrow> 'v UpgradeInfo \<Rightarrow> path \<Rightarrow> BinaryCache option \<Rightarrow> disk \<Rightarrow> (node_error + path) \<times> disk" where
  "download_verify_extract OS U info dest_dir bco d =
     (let archive_path = dest_dir @ [''archive'']; sig_path = dest_dir @ [''signature'']
      in case upgrade_download OS U 0 (download_url info) archive_path d of
           (Inl e, d1) \<Rightarrow> (Inl e, d1)
         | (Inr u, d1) \<Rightarrow>
             (case upgrade_download OS U 1 (signature_url info) sig_path d1 of
                (Inl e, d2) \<Rightarrow> (Inl e, d2)
              | (Inr u, d2) \<Rightarrow>
                  (case verify_from_file OS (ue_dsa U) archive_path sig_path d2 of
                     Inl e \<Rightarrow> (Inl e, d2)
                   | Inr u \<Rightarrow>
                       (case extract_binary OS U archive_path dest_dir d2 of
                          (Inl e, d3) \<Rightarrow> (Inl e, d3)
                        | (Inr extracted, d3) \<Rightarrow>
                            (case bco of
                               None \<Rightarrow> (Inr extracted, d3)
                             | Some bc \<Rightarrow>
                                 (Inr extracted,
                                  snd (store_binary OS U bc (sv_show (ue_semver U) (ui_version info)) extracted d3)))))))"

definition resolve_upgrade_binary ::
  "os \<Rightarrow> 'v upgrade_env \<Rightarrow> BinaryCache option \<Rightarrow> 'v UpgradeInfo \<Rightarrow> path \<Rightarrow> string \<Rightarrow> disk \<Rightarrow> (node_error + path) \<times> disk" where
  "resolve_upgrade_binary OS U bco info dest_dir version d =
     (case bco of
        None \<Rightarrow> download_verify_extract OS U info dest_dir None d
      | Some bc \<Rightarrow>
          (case get_verified OS U bc version d of
             Some cached \<Rightarrow>
               (let dest = dest_dir @ [last cached]
                in case fs_copy OS cached dest d of
                     (Inl e, d1) \<Rightarrow> download_verify_extract OS U info dest_dir (Some bc) d1
                   | (Inr u, d1) \<Rightarrow> (Inr dest, d1))
           | None \<Rightarrow>
               (case acquire_download_lock OS U bc d of
                  (Inl e, d1) \<Rightarrow> (Inl e, d1)
                | (Inr u, d1) \<Rightarrow>
                    (case get_verified OS U bc version d1 of
                       Some cached \<Rightarrow>
                         (let dest = dest_dir @ [last cached]; (r, d2) = fs_copy OS cached dest d1
                          in (map_err NodeIo (try_bind r (\<lambda>u. Inr dest)), d2))
                     | None \<Rightarrow> download_verify_extract OS U info dest_dir (Some bc) d1))))"

section \<open>Installing\<close>

definition replace_binary :: "os \<Rightarrow> path \<Rightarrow> path \<Rightarrow> disk \<Rightarrow> (node_error + unit) \<times> disk" where
  "replace_binary OS new_binary target d =
     (case (if fs_exists target d then fs_set_permissions OS new_binary else Inr ()) of
        Inl e \<Rightarrow> (Inl (NodeIo e), d)
      | Inr u \<Rightarrow> (let (r, d1) = fs_rename OS new_binary target d in (map_err NodeIo r, d1)))"

text \<open>The running program: its arguments and what the system tells of its path.\<close>

record process =
  pc_args :: "string list"
  pc_path_of :: "string \<Rightarrow> path"
  pc_canonicalize :: "path \<Rightarrow> path option"
  pc_current_exe :: "string + string"

function trim_end_matches :: "string \<Rightarrow> string \<Rightarrow> string" where
  "trim_end_matches suffix s =
     (if suffix \<noteq> [] \<and> ends_with s suffix then trim_end_matches suffix (take (length s - length suffix) s) else s)"
  by pat_completeness auto
termination
  by (relation "measure (\<lambda>(suffix, s). length s)") (auto simp: ends_with_def neq_Nil_conv)

declare trim_end_matches.simps [simp del]

definition strip_deleted :: "string \<Rightarrow> string" where
  "strip_deleted s = (if ends_with s '' (deleted)'' then trim_end_matches '' (deleted)'' s else s)"

definition current_binary_path :: "process \<Rightarrow> disk \<Rightarrow> node_error + path" where
  "current_binary_path P d =
     (let invoked =
        (case pc_args P of
           [] \<Rightarrow> None
         | a # _ \<Rightarrow>
             (let cleaned = pc_path_of P (strip_deleted a)
              in if fs_exists cleaned d
                 then Some (case pc_canonicalize P cleaned of Some c \<Rightarrow> c | None \<Rightarrow> cleaned)
                 else None))
      in case invoked of
           Some p \<Rightarrow> Inr p
         | None \<Rightarrow> try_bind (map_err Upgrade (pc_current_exe P)) (\<lambda>e. Inr (pc_path_of P (strip_deleted e))))"

record 'v AutoApplyUpgrader =
  au_current_version :: 'v
  binary_cache :: "BinaryCache option"
  stop_on_upgrade :: bool

definition AutoApplyUpgrader_new :: "'v \<Rightarrow> 'v AutoApplyUpgrader" where
  "AutoApplyUpgrader_new version = \<lparr>au_current_version = version, binary_cache = None, stop_on_upgrade = False\<rparr>"

definition with_binary_cache :: "'v AutoApplyUpgrader \<Rightarrow> BinaryCache \<Rightarrow> 'v AutoApplyUpgrader" where
  "with_binary_cache up bc = up\<lparr>binary_cache := Some bc\<rparr>"

definition with_stop_on_upgrade :: "'v AutoApplyUpgrader \<Rightarrow> bool \<Rightarrow> 'v AutoApplyUpgrader" where
  "with_stop_on_upgrade up stop = up\<lparr>stop_on_upgrade := stop\<rparr>"

text \<open>The programs that were spawned are logged with their paths and arguments.\<close>

type_synonym spawned = "(path \<times> string list) list"

definition prepare_restart ::
  "'v upgrade_env \<Rightarrow> process \<Rightarrow> 'v AutoApplyUpgrader \<Rightarrow> path \<Rightarrow> disk \<Rightarrow> (node_error + int) \<times> spawned" where
  "prepare_restart U P up binary_path d =
     (if stop_on_upgrade up then (Inr 0, [])
      else
        (case ue_spawn U (dk_files d binary_path) (drop 1 (pc_args P)) of
           Some e \<Rightarrow> (Inl (Upgrade e), [])
         | None \<Rightarrow> (Inr 0, [(binary_path, drop 1 (pc_args P))])))"

definition is_space :: "char \<Rightarrow> bool" where
  "is_space c \<longleftrightarrow> (let n = of_char c :: nat in 9 \<le> n \<and> n \<le> 13 \<or> n = 32 \<or> n = 133 \<or> n = 160)"

definition trim :: "string \<Rightarrow> string" where
  "trim s = rev (dropWhile is_space (rev (dropWhile is_space s)))"

definition on_disk_version :: "'v upgrade_env \<Rightarrow> path \<Rightarrow> disk \<Rightarrow> 'v option" where
  "on_disk_version U binary_path d =
     (case dk_files d binary_path of
        None \<Rightarrow> None
      | Some c \<Rightarrow>
          (case ue_run_version U c of
             None \<Rightarrow> None
           | Some out \<Rightarrow>
               (let s = trim out
                in if take 9 s = ''ant-node '' then sv_parse (ue_semver U) (drop 9 s) else None)))"

text \<open>The part of \<open>apply_upgrade\<close> during which the temporary directory exists.\<close>

definition apply_in_temp ::
  "os \<Rightarrow> 'v upgrade_env \<Rightarrow> process \<Rightarrow> 'v AutoApplyUpgrader \<Rightarrow> 'v UpgradeInfo \<Rightarrow> path \<Rightarrow> path \<Rightarrow> disk \<Rightarrow>
   (node_error + 'v UpgradeResult) \<times> disk \<times> spawned" where
  "apply_in_temp OS U P up info current_binary temp_dir d =
     (let restart = (\<lambda>d. let (r, sp) = prepare_restart U P up current_binary d
                         in (try_bind r (\<lambda>exit_code. Inr (Success (ui_version info) exit_code)), d, sp));
          version_str = sv_show (ue_semver U) (ui_version info)
      in case resolve_upgrade_binary OS U (binary_cache up) info temp_dir version_str d of
           (Inl e, d1) \<Rightarrow> (Inr (RolledBack (StepFailed e)), d1, [])
         | (Inr extracted, d1) \<Rightarrow>
             if on_disk_version U current_binary d1 = Some (ui_version info) then restart d1
             else
               (let backup_path = butlast current_binary @ [last current_binary @ ''.backup'']
                in case fs_copy OS current_binary backup_path d1 of
                     (Inl e, d2) \<Rightarrow> (Inr (RolledBack (BackupFailed e)), d2, [])
                   | (Inr u, d2) \<Rightarrow>
                       (case replace_binary OS extracted current_binary d2 of
                          (Inl e, d3) \<Rightarrow>
                            (case fs_copy OS backup_path current_binary d3 of
                               (Inl e', d4) \<Rightarrow> (Inl critical_error, d4, [])
                             | (Inr u, d4) \<Rightarrow> (Inr (RolledBack (ReplacementFailed e)), d4, []))
                        | (Inr u, d3) \<Rightarrow> restart d3)))"

definition apply_upgrade ::
  "os \<Rightarrow> 'v::linorder upgrade_env \<Rightarrow> process \<Rightarrow> 'v AutoApplyUpgrader \<Rightarrow> 'v UpgradeInfo \<Rightarrow> disk \<Rightarrow>
   (node_error + 'v UpgradeResult) \<times> disk \<times> spawned" where
  "apply_upgrade OS U P up info d =
     (if ui_version info \<le> au_current_version up then (Inr NoUpgrade, d, [])
      else
        (case current_binary_path P d of
           Inl e \<Rightarrow> (Inl e, d, [])
         | Inr current_binary \<Rightarrow>
             if current_binary = [] then (Inl (Upgrade ''Cannot determine binary directory''), d, [])
             else
               (let temp_dir = butlast current_binary @ [ue_temp_name U]
                in case fs_create_dir OS temp_dir d of
                     (Inl e, d1) \<Rightarrow> (Inl (Upgrade e), d1, [])
                   | (Inr u, d1) \<Rightarrow>
                       (let (r, d2, sp) = apply_in_temp OS U P up info current_binary temp_dir d1
                        in (r, fs_remove_dir_all OS temp_dir d2, sp)))))"

end
