(* ===== verification/Upgrade_Apply_Correct.thy ===== *)
theory Upgrade_Apply_Correct
  imports Upgrade_Apply
begin

text \<open>
  What the installation of upgrades guarantees: the binary of the node is only ever replaced by one
  from an archive that the release key has signed, the cache that nodes share holds no others, and an
  upgrade that is rolled back leaves the binary as it was.
\<close>

section \<open>Authentic binaries\<close>

definition release_signed :: "'v upgrade_env \<Rightarrow> bytes \<Rightarrow> bool" where
  "release_signed U archive \<longleftrightarrow>
     (\<exists>key signature s. dsa_public_key (ue_dsa U) RELEASE_SIGNING_KEY = Inr key \<and> length signature = SIGNATURE_SIZE \<and>
        dsa_signature (ue_dsa U) signature = Inr s \<and> dsa_verify (ue_dsa U) key archive s SIGNING_CONTEXT = Inr True)"

definition extracts :: "(string + archive_entry) list \<Rightarrow> bytes \<Rightarrow> bool" where
  "extracts entries c \<longleftrightarrow>
     (\<exists>entry name. Inr entry \<in> set entries \<and> ae_name entry = Inr (Some name) \<and> is_node_binary name \<and> ae_data entry = c)"

lemma extracts_Cons:
  "ae_name entry = Inr (Some name) \<Longrightarrow> is_node_binary name \<Longrightarrow> extracts (Inr entry # es) (ae_data entry)"
  "extracts es c \<Longrightarrow> extracts (e # es) c"
  by (auto simp: extracts_def)

definition holds_binary :: "'v upgrade_env \<Rightarrow> bytes \<Rightarrow> bytes \<Rightarrow> bool" where
  "holds_binary U archive c \<longleftrightarrow>
     (\<exists>entries.
        (take 2 archive = [0x1f, 0x8b] \<and> ue_untar U archive = Inr entries \<or>
         take 2 archive = [0x50, 0x4b] \<and> ue_unzip U archive = Inr entries) \<and>
        extracts entries c)"

definition authentic :: "'v upgrade_env \<Rightarrow> bytes \<Rightarrow> bool" where
  "authentic U c \<longleftrightarrow> (\<exists>archive. release_signed U archive \<and> holds_binary U archive c)"

lemma verify_from_file_signed:
  "verify_from_file OS (ue_dsa U) p q d = Inr u \<Longrightarrow> \<exists>c. dk_files d p = Some c \<and> release_signed U c"
  by (auto simp: verify_from_file_def verify_binary_signature_def verify_binary_signature_with_key_def release_signed_def
      fs_read_def result_simps split: option.splits if_splits)

lemma verify_from_file_content:
  assumes "verify_from_file OS (ue_dsa U) p q d = Inr u" "dk_files d p = Some c"
  shows "release_signed U c"
  using verify_from_file_signed [OF assms(1)] assms(2) by auto

section \<open>What the steps change\<close>

text \<open>\<open>changes_in dir\<close>: only files that are in this directory have changed.\<close>

definition changes_in :: "path \<Rightarrow> disk \<Rightarrow> disk \<Rightarrow> bool" where
  "changes_in dir d d' \<longleftrightarrow> (\<forall>q. q = [] \<or> butlast q \<noteq> dir \<longrightarrow> dk_files d' q = dk_files d q)"

lemma changes_in_refl [simp]: "changes_in dir d d"
  by (simp add: changes_in_def)

lemma changes_in_trans: "changes_in dir d d1 \<Longrightarrow> changes_in dir d1 d2 \<Longrightarrow> changes_in dir d d2"
  by (simp add: changes_in_def)

lemma changes_inD: "changes_in dir d d' \<Longrightarrow> butlast q \<noteq> dir \<Longrightarrow> dk_files d' q = dk_files d q"
  by (simp add: changes_in_def)

lemma changes_in_ops:
  "changes_in dir d (snd (fs_write OS (dir @ [x]) c d))"
  "changes_in dir d (snd (fs_create OS (dir @ [x]) d))"
  "changes_in dir d (snd (fs_append OS (dir @ [x]) n c d))"
  "changes_in dir d (snd (fs_copy OS p (dir @ [x]) d))"
  "changes_in dir d (fs_remove_file OS (dir @ [x]) d)"
  "changes_in dir d (snd (fs_rename OS (dir @ [x]) (dir @ [y]) d))"
  "changes_in dir d (partial_write OS (dir @ [x]) old c d)"
  by (auto simp: changes_in_def fs_write_def fs_create_def fs_append_def fs_copy_def fs_remove_file_def fs_rename_def
      partial_write_def Let_def split: option.splits)

lemma changes_in_op:
  "fs_write OS (dir @ [x]) c d = (r, d') \<Longrightarrow> changes_in dir d d'"
  "fs_create OS (dir @ [x]) d = (r, d') \<Longrightarrow> changes_in dir d d'"
  "fs_append OS (dir @ [x]) n c d = (r, d') \<Longrightarrow> changes_in dir d d'"
  "fs_copy OS p (dir @ [x]) d = (r, d') \<Longrightarrow> changes_in dir d d'"
  "fs_rename OS (dir @ [x]) (dir @ [y]) d = (r, d') \<Longrightarrow> changes_in dir d d'"
  using changes_in_ops by (metis snd_conv)+

lemma fs_replace_changes: "fs_replace OS (dir @ [x]) (dir @ [y]) c d = (r, d') \<Longrightarrow> changes_in dir d d'"
  by (auto simp: changes_in_def intro!: fs_replace_other [of OS "dir @ [x]" "dir @ [y]" c d r d'])

lemma upgrade_download_changes: "upgrade_download OS U i url (dir @ [x]) d = (r, d') \<Longrightarrow> changes_in dir d d'"
  by (auto simp: upgrade_download_def Let_def split: sum.splits prod.splits if_splits dest: changes_in_op)

lemma write_entry_changes:
  assumes "write_entry OS (dir @ [x]) entry d = (r, d')"
  shows "changes_in dir d d'"
proof -
  obtain c1 d1 where create: "fs_create OS (dir @ [x]) d = (c1, d1)" by fastforce
  obtain c2 d2 where app: "fs_append OS (dir @ [x]) 0 (ae_data entry) d1 = (c2, d2)" by fastforce
  have d1: "changes_in dir d d1" "changes_in dir d1 d2"
    using create app by (auto dest: changes_in_op)
  moreover have "d' \<in> {d1, d2, partial_write OS (dir @ [x]) [] (ae_data entry) d1}"
    using assms by (auto simp: write_entry_def create app split: sum.splits option.splits)
  ultimately show ?thesis using changes_in_trans changes_in_ops(7) by blast
qed

lemma write_entry_ok: "write_entry OS out entry d = (Inr p, d') \<Longrightarrow> p = out \<and> dk_files d' out = Some (ae_data entry)"
  by (auto simp: write_entry_def fs_create_def fs_append_def Let_def split: sum.splits prod.splits option.splits)

lemma tar_entries_ok:
  assumes "tar_entries OS (dir @ [x]) es d = (r, d')"
  shows "changes_in dir d d' \<and>
     (\<forall>p. r = Inr p \<longrightarrow> p = dir @ [x] \<and> (\<exists>c. extracts es c \<and> dk_files d' p = Some c))"
  using assms
  by (induction OS "dir @ [x]" es d rule: tar_entries.induct)
    (auto split: sum.splits option.splits if_splits dest: write_entry_changes write_entry_ok intro: extracts_Cons)

lemma zip_entries_ok:
  assumes "zip_entries OS (dir @ [x]) es d = (r, d')"
  shows "changes_in dir d d' \<and>
     (\<forall>p. r = Inr p \<longrightarrow> p = dir @ [x] \<and> (\<exists>c. extracts es c \<and> dk_files d' p = Some c))"
  using assms
  by (induction OS "dir @ [x]" es d rule: zip_entries.induct)
    (auto split: sum.splits option.splits if_splits dest: write_entry_changes write_entry_ok intro: extracts_Cons)

lemma extract_binary_ok:
  assumes "extract_binary OS U archive dir d = (r, d')" "dk_files d archive = Some a"
  shows "changes_in dir d d' \<and> (\<forall>p. r = Inr p \<longrightarrow> p = dir @ [''ant-node''] \<and> (\<exists>c. dk_files d' p = Some c \<and> holds_binary U a c))"
proof -
  have loop: "changes_in dir d d' \<and> (\<forall>p. r = Inr p \<longrightarrow> p = dir @ [''ant-node''] \<and> (\<exists>c. dk_files d' p = Some c \<and> holds_binary U a c))"
    if "tar_entries OS (dir @ [''ant-node'']) es d = (r, d') \<and> take 2 a = [0x1f, 0x8b] \<and> ue_untar U a = Inr es \<or>
        zip_entries OS (dir @ [''ant-node'']) es d = (r, d') \<and> take 2 a = [0x50, 0x4b] \<and> ue_unzip U a = Inr es" for es
    using that unfolding holds_binary_def by (auto dest!: tar_entries_ok zip_entries_ok)
  show ?thesis
    using assms loop
    by (auto simp: extract_binary_def extract_from_tar_gz_def extract_from_zip_def fs_read_def result_simps
        split: sum.splits option.splits if_splits)
qed

section \<open>The cache of binaries\<close>

definition binary_digest :: "os \<Rightarrow> 'v upgrade_env \<Rightarrow> bytes \<Rightarrow> string" where
  "binary_digest OS U c = os_hex_encode OS (ue_sha256 U c)"

text \<open>What the crates promise: metadata survives \<open>serde_json\<close>, an authentic binary has no second preimage.\<close>

definition upgrade_laws :: "os \<Rightarrow> 'v upgrade_env \<Rightarrow> bool" where
  "upgrade_laws OS U \<longleftrightarrow>
     (\<forall>m bs. ue_meta_to_json U m = Inr bs \<longrightarrow> ue_meta_from_json U bs = Inr m) \<and>
     (\<forall>c c'. authentic U c \<longrightarrow> binary_digest OS U c' = binary_digest OS U c \<longrightarrow> c' = c)"

text \<open>Every record of the cache holds the digest of an authentic binary.\<close>

definition cache_ok :: "os \<Rightarrow> 'v upgrade_env \<Rightarrow> BinaryCache \<Rightarrow> disk \<Rightarrow> bool" where
  "cache_ok OS U bc d \<longleftrightarrow>
     (\<forall>version bs meta. dk_files d (meta_path bc version) = Some bs \<longrightarrow> ue_meta_from_json U bs = Inr meta \<longrightarrow>
        (\<exists>c. authentic U c \<and> binary_digest OS U c = cb_sha256 meta))"

lemma cache_ok_frame:
  assumes "cache_ok OS U bc d" "\<And>version. dk_files d' (meta_path bc version) \<in> {dk_files d (meta_path bc version), None}"
  shows "cache_ok OS U bc d'"
  unfolding cache_ok_def
proof (intro allI impI)
  fix version bs meta
  assume "dk_files d' (meta_path bc version) = Some bs" "ue_meta_from_json U bs = Inr meta"
  moreover from this(1) have "dk_files d (meta_path bc version) = Some bs" using assms(2) [of version] by auto
  ultimately show "\<exists>c. authentic U c \<and> binary_digest OS U c = cb_sha256 meta" using assms(1) unfolding cache_ok_def by blast
qed

lemma cache_ok_changes: "cache_ok OS U bc d \<Longrightarrow> changes_in dir d d' \<Longrightarrow> bc_cache_dir bc \<noteq> dir \<Longrightarrow> cache_ok OS U bc d'"
  by (erule cache_ok_frame) (simp add: changes_inD meta_path_def)

lemma get_verified_authentic:
  assumes "cache_ok OS U bc d" "upgrade_laws OS U" "get_verified OS U bc version d = Some p"
  shows "p = cached_binary_path bc version \<and> (\<exists>c. dk_files d p = Some c \<and> authentic U c)"
proof -
  obtain bs meta c where p: "dk_files d (meta_path bc version) = Some bs" "ue_meta_from_json U bs = Inr meta"
    "p = cached_binary_path bc version" "dk_files d p = Some c" "binary_digest OS U c = cb_sha256 meta"
    using assms(3)
    by (auto simp: get_verified_def Let_def fs_read_def sha256_file_def binary_digest_def result_simps
        split: sum.splits option.splits if_splits)
  then obtain c' where "authentic U c'" "binary_digest OS U c' = binary_digest OS U c"
    using assms(1) unfolding cache_ok_def by metis
  then show ?thesis using p assms(2) unfolding upgrade_laws_def by metis
qed

text \<open>
  A version whose name ends like the name of a metadata file would have its binary stored over the
  metadata of another version.
\<close>

lemma meta_path_distinct:
  "meta_path bc w \<noteq> tmp_binary_path bc version" "meta_path bc w \<noteq> tmp_meta_path bc version"
  "\<not> ends_with version ''.meta.json'' \<Longrightarrow> meta_path bc w \<noteq> cached_binary_path bc version"
  "meta_path bc w = meta_path bc version \<longleftrightarrow> w = version"
  by (auto simp: meta_path_def cached_binary_path_def tmp_binary_path_def tmp_meta_path_def ends_with_def)

lemma butlast_meta_path: "butlast (meta_path bc w) = bc_cache_dir bc"
  by (simp add: meta_path_def)

lemma store_binary_changes:
  assumes "store_binary OS U bc version src d = (r, d')"
  shows "changes_in (bc_cache_dir bc) d d'"
proof -
  let ?dir = "bc_cache_dir bc"
  obtain c1 d1 where copy: "fs_copy OS src (tmp_binary_path bc version) d = (c1, d1)" by fastforce
  let ?d1 = "fs_remove_file OS (cached_binary_path bc version) d1"
  obtain c2 d2 where ren: "fs_rename OS (tmp_binary_path bc version) (cached_binary_path bc version) ?d1 = (c2, d2)"
    by fastforce
  have 1: "changes_in ?dir d d1" using copy unfolding tmp_binary_path_def by (rule changes_in_op)
  have 2: "changes_in ?dir d1 ?d1" unfolding cached_binary_path_def by (rule changes_in_ops)
  have 3: "changes_in ?dir ?d1 d2" using ren unfolding cached_binary_path_def tmp_binary_path_def by (rule changes_in_op)
  have 4: "changes_in ?dir d2 d3" if "fs_replace OS (tmp_meta_path bc version) (meta_path bc version) json d2 = (c3, d3)"
    for json c3 d3
    using that unfolding meta_path_def tmp_meta_path_def by (rule fs_replace_changes)
  have 5: "changes_in ?dir d d2" using 1 2 3 by (blast intro: changes_in_trans)
  show ?thesis
    using assms 1 5 changes_in_trans [OF 5 4]
    by (auto simp: store_binary_def copy ren Let_def split: sum.splits prod.splits)
qed

lemma store_binary_ok:
  assumes "store_binary OS U bc version src d = (r, d')" "cache_ok OS U bc d" "upgrade_laws OS U"
    and "dk_files d src = Some c" "authentic U c" "\<not> ends_with version ''.meta.json''"
  shows "cache_ok OS U bc d'"
proof -
  let ?tmp = "tmp_binary_path bc version" and ?dest = "cached_binary_path bc version"
    and ?tmp_meta = "tmp_meta_path bc version"
  obtain c1 d1 where copy: "fs_copy OS src ?tmp d = (c1, d1)" by fastforce
  let ?d1 = "fs_remove_file OS ?dest d1"
  obtain c2 d2 where ren: "fs_rename OS ?tmp ?dest ?d1 = (c2, d2)" by fastforce
  note distinct = meta_path_distinct(1,2) meta_path_distinct(3) [OF assms(6)] meta_path_distinct(1,2) [THEN not_sym]
    meta_path_distinct(3) [OF assms(6), THEN not_sym]
  have d1: "dk_files d1 (meta_path bc w) = dk_files d (meta_path bc w)" for w
    using copy distinct by (auto simp: fs_copy_def partial_write_def split: option.splits)
  have d2: "dk_files d2 (meta_path bc w) = dk_files d (meta_path bc w)" for w
    using ren distinct d1 by (auto simp: fs_rename_def fs_remove_file_def split: option.splits)
  have ok: "cache_ok OS U bc d1" "cache_ok OS U bc d2"
    by (rule cache_ok_frame [OF assms(2)]; simp add: d1 d2)+
  have "cache_ok OS U bc d3"
    if json: "ue_meta_to_json U \<lparr>cb_version = version, cb_sha256 = binary_digest OS U c, cached_at_epoch_secs = now\<rparr> = Inr json"
      and replace: "fs_replace OS ?tmp_meta (meta_path bc version) json d2 = (c3, d3)" for now json c3 d3
    unfolding cache_ok_def
  proof (intro allI impI)
    fix w bs meta
    assume bs: "dk_files d3 (meta_path bc w) = Some bs" "ue_meta_from_json U bs = Inr meta"
    show "\<exists>c. authentic U c \<and> binary_digest OS U c = cb_sha256 meta"
    proof (cases "dk_files d2 (meta_path bc w) = Some bs")
      case True
      then show ?thesis using ok(2) bs(2) unfolding cache_ok_def by blast
    next
      case False
      then have w: "w = version"
        using fs_replace_other [OF replace, of "meta_path bc w"] distinct bs(1) meta_path_distinct(4) by metis
      have "bs = json"
        using fs_replace_content [OF replace distinct(5)] bs(1) False w by (cases c3) auto
      then have "meta = \<lparr>cb_version = version, cb_sha256 = binary_digest OS U c, cached_at_epoch_secs = now\<rparr>"
        using json bs(2) assms(3) by (auto simp: upgrade_laws_def)
      then show ?thesis using assms(5) by auto
    qed
  qed
  then show ?thesis
    using assms(1,2,4) ok
    by (auto simp: store_binary_def copy ren Let_def sha256_file_def fs_read_def binary_digest_def result_simps
        split: sum.splits prod.splits option.splits)
qed

section \<open>Finding the new binary\<close>

text \<open>
  The directories that an upgrade works in: its temporary directory and the cache. \<open>cache_shared\<close>: the cache, if
  there is one, is in order and is not the temporary directory.
\<close>

definition cache_shared :: "os \<Rightarrow> 'v upgrade_env \<Rightarrow> BinaryCache option \<Rightarrow> path \<Rightarrow> disk \<Rightarrow> bool" where
  "cache_shared OS U bco temp d \<longleftrightarrow> (\<forall>bc. bco = Some bc \<longrightarrow> cache_ok OS U bc d \<and> bc_cache_dir bc \<noteq> temp)"

definition elsewhere :: "BinaryCache option \<Rightarrow> path \<Rightarrow> path \<Rightarrow> bool" where
  "elsewhere bco temp q \<longleftrightarrow> butlast q \<noteq> temp \<and> (\<forall>bc. bco = Some bc \<longrightarrow> butlast q \<noteq> bc_cache_dir bc)"

definition found_authentic :: "'v upgrade_env \<Rightarrow> path \<Rightarrow> disk \<Rightarrow> node_error + path \<Rightarrow> bool" where
  "found_authentic U temp d r \<longleftrightarrow> (\<forall>p. r = Inr p \<longrightarrow> (\<exists>x. p = temp @ [x]) \<and> (\<exists>c. dk_files d p = Some c \<and> authentic U c))"

definition works_in :: "os \<Rightarrow> 'v upgrade_env \<Rightarrow> BinaryCache option \<Rightarrow> path \<Rightarrow> disk \<Rightarrow> disk \<Rightarrow> bool" where
  "works_in OS U bco temp d d' \<longleftrightarrow>
     (cache_shared OS U bco temp d \<longrightarrow> cache_shared OS U bco temp d') \<and>
     (\<forall>q. elsewhere bco temp q \<longrightarrow> dk_files d' q = dk_files d q)"

lemma works_in_refl [simp]: "works_in OS U bco temp d d"
  by (simp add: works_in_def)

lemma works_in_trans: "works_in OS U bco temp d d1 \<Longrightarrow> works_in OS U bco temp d1 d2 \<Longrightarrow> works_in OS U bco temp d d2"
  by (simp add: works_in_def)

lemma works_in_temp: "changes_in temp d d' \<Longrightarrow> works_in OS U bco temp d d'"
  by (auto simp: works_in_def cache_shared_def elsewhere_def changes_inD intro: cache_ok_changes)

lemma works_in_store:
  assumes "store_binary OS U bc version src d = (r, d')" "upgrade_laws OS U"
    and "dk_files d src = Some c" "authentic U c" "\<not> ends_with version ''.meta.json''"
  shows "works_in OS U (Some bc) temp d d'"
  using store_binary_ok [OF assms(1) _ assms(2-5)] store_binary_changes [OF assms(1)]
  by (auto simp: works_in_def cache_shared_def elsewhere_def changes_inD)

lemma download_verify_extract_ok:
  assumes "download_verify_extract OS U info temp bco d = (r, d')" "upgrade_laws OS U" "cache_shared OS U bco temp d"
    and "\<not> ends_with (sv_show (ue_semver U) (ui_version info)) ''.meta.json''"
  shows "works_in OS U bco temp d d' \<and> found_authentic U temp d' r"
proof -
  let ?archive = "temp @ [''archive'']" and ?sig = "temp @ [''signature'']"
  obtain c1 d1 where archive: "upgrade_download OS U 0 (download_url info) ?archive d = (c1, d1)" by fastforce
  obtain c2 d2 where sig: "upgrade_download OS U 1 (signature_url info) ?sig d1 = (c2, d2)" by fastforce
  obtain c3 d3 where extracting: "extract_binary OS U ?archive temp d2 = (c3, d3)" by fastforce
  have d1: "works_in OS U bco temp d d1" by (rule works_in_temp [OF upgrade_download_changes [OF archive]])
  have d2: "works_in OS U bco temp d d2"
    by (rule works_in_trans [OF d1 works_in_temp [OF upgrade_download_changes [OF sig]]])
  show ?thesis
  proof (cases "is_ok c1 \<and> is_ok c2 \<and> is_ok (verify_from_file OS (ue_dsa U) ?archive ?sig d2)")
    case False
    then show ?thesis
      using assms(1) d1 d2
      by (auto simp del: One_nat_def simp: download_verify_extract_def archive sig Let_def found_authentic_def is_ok_def split: sum.splits)
  next
    case True
    then obtain a where a: "dk_files d2 ?archive = Some a" "release_signed U a"
      using verify_from_file_signed by (metis is_ok_iff)
    note extracted = extract_binary_ok [OF extracting a(1)]
    have d3: "works_in OS U bco temp d d3" using extracted d2 by (blast intro: works_in_trans works_in_temp)
    have run: "download_verify_extract OS U info temp bco d =
        (case c3 of Inl e \<Rightarrow> (Inl e, d3)
         | Inr p \<Rightarrow> (case bco of None \<Rightarrow> (Inr p, d3)
             | Some bc \<Rightarrow> (Inr p, snd (store_binary OS U bc (sv_show (ue_semver U) (ui_version info)) p d3))))"
      using True by (auto simp del: One_nat_def simp: download_verify_extract_def archive sig extracting Let_def is_ok_def split: sum.splits)
    show ?thesis
    proof (cases c3)
      case (Inl e)
      then show ?thesis using assms(1) d3 unfolding run by (auto simp: found_authentic_def)
    next
      case (Inr p)
      then obtain c where p: "p = temp @ [''ant-node'']" "dk_files d3 p = Some c" "authentic U c"
        using extracted a(2) unfolding authentic_def by blast
      show ?thesis
      proof (cases bco)
        case None
        then show ?thesis using assms(1) d3 p Inr unfolding run by (auto simp: found_authentic_def)
      next
        case (Some bc)
        obtain u d4 where store: "store_binary OS U bc (sv_show (ue_semver U) (ui_version info)) p d3 = (u, d4)" by fastforce
        then have d': "d' = d4" "r = Inr p" using assms(1) Inr Some unfolding run by auto
        have "butlast p \<noteq> bc_cache_dir bc" using assms(3) Some p(1) by (auto simp: cache_shared_def)
        then have "dk_files d4 p = Some c" using changes_inD [OF store_binary_changes [OF store]] p(2) by simp
        moreover have "works_in OS U bco temp d d4"
          using works_in_store [OF store assms(2) p(2,3) assms(4)] works_in_trans [OF d3] Some by blast
        ultimately show ?thesis using p d' by (auto simp: found_authentic_def)
      qed
    qed
  qed
qed

text \<open>Other nodes keep the cache in order; \<open>Q\<close> is what they do not falsify of the content of the binary.\<close>

definition others_keep :: "os \<Rightarrow> 'v upgrade_env \<Rightarrow> BinaryCache option \<Rightarrow> path \<Rightarrow> (bytes option \<Rightarrow> bool) \<Rightarrow> bool" where
  "others_keep OS U bco target Q \<longleftrightarrow>
     (\<forall>d bc. bco = Some bc \<longrightarrow> cache_ok OS U bc d \<longrightarrow> cache_ok OS U bc (ue_others U d)) \<and>
     (\<forall>d. Q (dk_files d target) \<longrightarrow> Q (dk_files (ue_others U d) target))"

lemma copy_from_cache:
  assumes "get_verified OS U bc version d = Some cached" "cache_ok OS U bc d" "upgrade_laws OS U"
    and "fs_copy OS cached (temp @ [x]) d = (c, d')"
  shows "changes_in temp d d' \<and> (\<forall>u. c = Inr u \<longrightarrow> found_authentic U temp d' (Inr (temp @ [x])))"
proof -
  obtain b where "dk_files d cached = Some b" "authentic U b" using get_verified_authentic [OF assms(2,3,1)] by blast
  then show ?thesis
    using assms(4) changes_in_op(4) [OF assms(4)] by (auto simp: found_authentic_def fs_copy_def split: option.splits)
qed

lemma resolve_upgrade_binary_ok:
  assumes "resolve_upgrade_binary OS U bco info temp (sv_show (ue_semver U) (ui_version info)) d = (r, d')"
    and "upgrade_laws OS U" "cache_shared OS U bco temp d" "others_keep OS U bco target Q"
    and "elsewhere bco temp target" "Q (dk_files d target)"
    and "\<not> ends_with (sv_show (ue_semver U) (ui_version info)) ''.meta.json''"
  shows "cache_shared OS U bco temp d' \<and> Q (dk_files d' target) \<and> found_authentic U temp d' r"
proof (cases bco)
  case None
  then show ?thesis
    using download_verify_extract_ok [of OS U info temp None d r d'] assms
    by (auto simp: resolve_upgrade_binary_def works_in_def)
next
  case (Some bc)
  let ?version = "sv_show (ue_semver U) (ui_version info)"
  have download: "cache_shared OS U bco temp d' \<and> Q (dk_files d' target) \<and> found_authentic U temp d' r"
    if "download_verify_extract OS U info temp bco d1 = (r, d')" "cache_shared OS U bco temp d1" "Q (dk_files d1 target)" for d1
    using download_verify_extract_ok [OF that(1) assms(2) that(2) assms(7)] that assms(5) by (auto simp: works_in_def)
  have cached: "cache_shared OS U bco temp d2 \<and> Q (dk_files d2 target)"
    if "changes_in temp d1 d2" "cache_shared OS U bco temp d1" "Q (dk_files d1 target)" for d1 d2
    using works_in_temp [OF that(1), of OS U bco] that assms(5) by (simp add: works_in_def)
  show ?thesis
  proof (cases "get_verified OS U bc ?version d")
    case (Some path)
    obtain c d1 where copy: "fs_copy OS path (temp @ [last path]) d = (c, d1)" by fastforce
    have "cache_ok OS U bc d" using assms(3) \<open>bco = Some bc\<close> by (simp add: cache_shared_def)
    note copied = copy_from_cache [OF Some this assms(2) copy]
    show ?thesis
    proof (cases c)
      case (Inl e)
      then have "download_verify_extract OS U info temp bco d1 = (r, d')"
        using assms(1) Some \<open>bco = Some bc\<close> copy by (simp add: resolve_upgrade_binary_def Let_def)
      then show ?thesis using download cached copied assms(3,6) by blast
    next
      case (Inr u)
      then have "r = Inr (temp @ [last path])" "d' = d1"
        using assms(1) Some \<open>bco = Some bc\<close> copy by (simp_all add: resolve_upgrade_binary_def Let_def)
      then show ?thesis using cached copied assms(3,6) Inr by blast
    qed
  next
    case None
    obtain c d1 where lock: "fs_create OS (bc_cache_dir bc @ [''download.lock'']) d = (c, d1)" by fastforce
    have "works_in OS U bco temp d d1"
    proof -
      have "cache_ok OS U bc d \<Longrightarrow> cache_ok OS U bc d1"
        by (rule cache_ok_frame) (use lock in \<open>auto simp: fs_create_def meta_path_def split: option.splits\<close>)
      then show ?thesis
        using changes_in_op(2) [OF lock] \<open>bco = Some bc\<close>
        by (auto simp: works_in_def cache_shared_def elsewhere_def changes_inD)
    qed
    then have d1: "cache_shared OS U bco temp d1" "Q (dk_files d1 target)" using assms(3,5,6) by (auto simp: works_in_def)
    show ?thesis
    proof (cases c)
      case (Inl e)
      then show ?thesis
        using assms(1) None \<open>bco = Some bc\<close> lock d1
        by (auto simp: resolve_upgrade_binary_def acquire_download_lock_def found_authentic_def)
    next
      case (Inr u)
      let ?d2 = "ue_others U d1"
      have d2: "cache_shared OS U bco temp ?d2" "Q (dk_files ?d2 target)"
        using d1 assms(4) by (auto simp: others_keep_def cache_shared_def)
      show ?thesis
      proof (cases "get_verified OS U bc ?version ?d2")
        case None
        then have "download_verify_extract OS U info temp bco ?d2 = (r, d')"
          using assms(1) Inr \<open>get_verified OS U bc ?version d = None\<close> \<open>bco = Some bc\<close> lock
          by (simp add: resolve_upgrade_binary_def acquire_download_lock_def)
        then show ?thesis using download d2 by blast
      next
        case (Some path)
        obtain c' d3 where copy: "fs_copy OS path (temp @ [last path]) ?d2 = (c', d3)" by fastforce
        have "cache_ok OS U bc ?d2" using d2(1) \<open>bco = Some bc\<close> by (simp add: cache_shared_def)
        note copied = copy_from_cache [OF Some this assms(2) copy]
        have "r = map_err NodeIo (try_bind c' (\<lambda>u. Inr (temp @ [last path])))" "d' = d3"
          using assms(1) Inr Some \<open>get_verified OS U bc ?version d = None\<close> \<open>bco = Some bc\<close> lock copy
          by (simp_all add: resolve_upgrade_binary_def acquire_download_lock_def Let_def)
        then show ?thesis
          using cached [of ?d2 d3] d2 copied by (cases c') (auto simp: found_authentic_def)
      qed
    qed
  qed
qed

section \<open>Replacing the binary\<close>

definition authentic_at :: "'v upgrade_env \<Rightarrow> path \<Rightarrow> disk \<Rightarrow> bool" where
  "authentic_at U p d \<longleftrightarrow> (\<exists>c. dk_files d p = Some c \<and> authentic U c)"

text \<open>\<open>separate_dirs\<close>: the cache of binaries is not the directory of the binary.\<close>

definition separate_dirs :: "BinaryCache option \<Rightarrow> path \<Rightarrow> bool" where
  "separate_dirs bco target \<longleftrightarrow> target \<noteq> [] \<and> (\<forall>bc. bco = Some bc \<longrightarrow> bc_cache_dir bc \<noteq> butlast target)"

definition backup_of :: "path \<Rightarrow> path" where
  "backup_of p = butlast p @ [last p @ ''.backup'']"

lemma backup_of_other: "p \<noteq> [] \<Longrightarrow> backup_of p \<noteq> p"
  by (cases p rule: rev_cases) (auto simp: backup_of_def)

lemma butlast_backup_of [simp]: "butlast (backup_of p) = butlast p"
  by (simp add: backup_of_def)

lemma cache_shared_beside:
  "cache_shared OS U bco temp d \<Longrightarrow> changes_in (butlast target) d d' \<Longrightarrow> separate_dirs bco target \<Longrightarrow> cache_shared OS U bco temp d'"
  by (auto simp: cache_shared_def separate_dirs_def intro: cache_ok_changes)

lemma changes_in_target: "target \<noteq> [] \<Longrightarrow> fs_copy OS p target d = (c, d') \<Longrightarrow> changes_in (butlast target) d d'"
  using changes_in_op(4) [of OS p "butlast target" "last target"] by simp

lemma replace_binary_result:
  assumes "replace_binary OS new target d = (r, d')" "new \<noteq> target"
  shows "case r of Inl e \<Rightarrow> d' = d
    | Inr u \<Rightarrow> dk_files d' target = dk_files d new \<and> (\<forall>q. q \<noteq> new \<longrightarrow> q \<noteq> target \<longrightarrow> dk_files d' q = dk_files d q)"
  using assms
  by (auto simp: replace_binary_def fs_rename_def Let_def split: sum.splits option.splits prod.splits if_splits)

lemma backup_then_replace:
  assumes "fs_copy OS target (backup_of target) d1 = (Inr u, d2)" "target \<noteq> []"
    and "cache_shared OS U bco (butlast target @ [n]) d1" "separate_dirs bco target" "Q (dk_files d1 target)"
    and "p = butlast target @ [n, x]" "dk_files d1 p = Some c" "authentic U c"
    and "replace_binary OS p target d2 = (r, d3)"
  shows "case r of
      Inr u \<Rightarrow> cache_shared OS U bco (butlast target @ [n]) d3 \<and> authentic_at U target d3
    | Inl e \<Rightarrow> cache_shared OS U bco (butlast target @ [n]) d3 \<and>
        (\<forall>a d4. fs_copy OS (backup_of target) target d3 = (a, d4) \<longrightarrow>
           cache_shared OS U bco (butlast target @ [n]) d4 \<and> (\<forall>u. a = Inr u \<longrightarrow> Q (dk_files d4 target)))"
proof -
  let ?temp = "butlast target @ [n]"
  have in_temp: "butlast p = ?temp" using assms(6) by (simp add: butlast_append)
  then have "butlast p \<noteq> butlast target" by simp
  then have beside: "butlast p \<noteq> butlast target" "p \<noteq> target" "butlast p = ?temp" using in_temp by auto
  have copied: "changes_in (butlast target) d1 d2" using assms(1) by (auto simp: backup_of_def dest: changes_in_op)
  have d2: "cache_shared OS U bco ?temp d2" "dk_files d2 p = Some c" "dk_files d2 (backup_of target) = dk_files d1 target"
    using cache_shared_beside [OF assms(3) copied assms(4)] changes_inD [OF copied beside(1)] assms(1,7)
    by (auto simp: fs_copy_def split: option.splits)
  note replaced = replace_binary_result [OF assms(9) beside(2)]
  show ?thesis
  proof (cases r)
    case (Inr u)
    then have d3: "dk_files d3 target = Some c" "\<And>q. q \<noteq> p \<Longrightarrow> q \<noteq> target \<Longrightarrow> dk_files d3 q = dk_files d2 q"
      using replaced d2(2) by auto
    have "cache_ok OS U bc d3" if "bco = Some bc" for bc
    proof (rule cache_ok_frame)
      show "cache_ok OS U bc d2" using d2(1) that by (simp add: cache_shared_def)
      show "dk_files d3 (meta_path bc w) \<in> {dk_files d2 (meta_path bc w), None}" for w
      proof -
        have "bc_cache_dir bc \<noteq> butlast p" "bc_cache_dir bc \<noteq> butlast target"
          using assms(3,4) beside(3) that by (auto simp: cache_shared_def separate_dirs_def)
        then have "meta_path bc w \<noteq> p" "meta_path bc w \<noteq> target" using butlast_meta_path [of bc w] by metis+
        then show ?thesis using d3(2) by simp
      qed
    qed
    then show ?thesis using Inr d2(1) d3(1) assms(8) by (auto simp: cache_shared_def authentic_at_def)
  next
    case (Inl e)
    then have "d3 = d2" using replaced by simp
    moreover have "cache_shared OS U bco ?temp d4 \<and> (\<forall>u. a = Inr u \<longrightarrow> Q (dk_files d4 target))"
      if "fs_copy OS (backup_of target) target d2 = (a, d4)" for a d4
      using cache_shared_beside [OF d2(1) changes_in_target [OF assms(2) that] assms(4)] that d2(3) assms(5)
      by (auto simp: fs_copy_def split: option.splits)
    ultimately show ?thesis using Inl d2(1) by auto
  qed
qed

definition upgrade_outcome ::
  "'v upgrade_env \<Rightarrow> 'v AutoApplyUpgrader \<Rightarrow> 'v UpgradeInfo \<Rightarrow> path \<Rightarrow> string list \<Rightarrow> (bytes option \<Rightarrow> bool) \<Rightarrow>
   node_error + 'v UpgradeResult \<Rightarrow> disk \<Rightarrow> spawned \<Rightarrow> bool" where
  "upgrade_outcome U up info target args Q r d' sp \<longleftrightarrow>
     (case r of
        Inr (Success v code) \<Rightarrow>
          v = ui_version info \<and> sp = (if stop_on_upgrade up then [] else [(target, args)]) \<and>
          (authentic_at U target d' \<or> Q (dk_files d' target) \<and> on_disk_version U target d' = Some v)
      | Inr (RolledBack reason) \<Rightarrow> sp = [] \<and> Q (dk_files d' target)
      | Inr NoUpgrade \<Rightarrow> sp = [] \<and> Q (dk_files d' target)
      | Inl e \<Rightarrow> sp = [] \<and> (e = critical_error \<or> Q (dk_files d' target) \<or> authentic_at U target d'))"

lemma restart_outcome:
  assumes "prepare_restart U P up target d = (r, sp)"
    and "authentic_at U target d \<or> Q (dk_files d target) \<and> on_disk_version U target d = Some (ui_version info)"
  shows "upgrade_outcome U up info target (drop 1 (pc_args P)) Q (try_bind r (\<lambda>code. Inr (Success (ui_version info) code))) d sp"
  using assms by (auto simp: prepare_restart_def upgrade_outcome_def split: if_splits option.splits)

lemma apply_in_temp_ok:
  assumes "apply_in_temp OS U P up info target (butlast target @ [n]) d = (r, d', sp)" "upgrade_laws OS U"
    and "cache_shared OS U (binary_cache up) (butlast target @ [n]) d" "separate_dirs (binary_cache up) target"
    and "others_keep OS U (binary_cache up) target Q" "Q (dk_files d target)"
    and "\<not> ends_with (sv_show (ue_semver U) (ui_version info)) ''.meta.json''"
  shows "cache_shared OS U (binary_cache up) (butlast target @ [n]) d' \<and> upgrade_outcome U up info target (drop 1 (pc_args P)) Q r d' sp"
proof -
  let ?temp = "butlast target @ [n]" and ?version = "sv_show (ue_semver U) (ui_version info)"
  have target: "target \<noteq> []" "elsewhere (binary_cache up) ?temp target"
    using assms(4) by (auto simp: separate_dirs_def elsewhere_def)
  obtain found d1 where resolve: "resolve_upgrade_binary OS U (binary_cache up) info ?temp ?version d = (found, d1)" by fastforce
  note resolved = resolve_upgrade_binary_ok [OF resolve assms(2,3,5) target(2) assms(6,7)]
  show ?thesis
  proof (cases found)
    case (Inl e)
    then show ?thesis using assms(1) resolve resolved by (auto simp: apply_in_temp_def Let_def upgrade_outcome_def)
  next
    case (Inr p)
    then obtain x c where p: "p = butlast target @ [n, x]" "dk_files d1 p = Some c" "authentic U c"
      using resolved by (auto simp: found_authentic_def)
    have restart: "upgrade_outcome U up info target (drop 1 (pc_args P)) Q r d' sp \<and> d' = d3"
      if "(let (r, sp) = prepare_restart U P up target d3 in (try_bind r (\<lambda>exit_code. Inr (Success (ui_version info) exit_code)), d3, sp)) = (r, d', sp)"
        "authentic_at U target d3 \<or> Q (dk_files d3 target) \<and> on_disk_version U target d3 = Some (ui_version info)" for d3
      using that restart_outcome [of U P up target d3] by (auto simp: Let_def split: prod.splits)
    show ?thesis
    proof (cases "on_disk_version U target d1 = Some (ui_version info)")
      case True
      then show ?thesis
        using assms(1) resolve Inr resolved restart [of d1] by (auto simp: apply_in_temp_def Let_def)
    next
      case False
      obtain b d2 where backup: "fs_copy OS target (backup_of target) d1 = (b, d2)" by fastforce
      have copied: "changes_in (butlast target) d1 d2" "dk_files d2 target = dk_files d1 target"
        using backup backup_of_other [OF target(1)] changes_in_op(4) [of OS target "butlast target" "last target @ ''.backup''" d1 b d2]
        by (auto simp: backup_of_def fs_copy_def partial_write_def split: option.splits)
      obtain b3 d3 where replace: "replace_binary OS p target d2 = (b3, d3)" by fastforce
      obtain b4 d4 where restore: "fs_copy OS (backup_of target) target d3 = (b4, d4)" by fastforce
      show ?thesis
      proof (cases b)
        case (Inl e)
        then show ?thesis
          using assms(1,4) resolve \<open>found = Inr p\<close> False backup copied resolved cache_shared_beside
          by (auto simp: apply_in_temp_def Let_def backup_of_def upgrade_outcome_def)
      next
        case b: (Inr u)
        note replaced = backup_then_replace [OF backup [unfolded b] target(1) _ assms(4) _ p replace, where Q = Q]
        show ?thesis
        proof (cases b3)
          case (Inl e)
          then show ?thesis
            using assms(1) resolve \<open>found = Inr p\<close> False backup b resolved replaced replace restore
            by (cases b4) (auto simp: apply_in_temp_def Let_def backup_of_def upgrade_outcome_def)
        next
          case (Inr u')
          then have "cache_shared OS U (binary_cache up) ?temp d3" "authentic_at U target d3"
            using replaced resolved by simp_all
          moreover have "(let (r, sp) = prepare_restart U P up target d3
              in (try_bind r (\<lambda>exit_code. Inr (Success (ui_version info) exit_code)), d3, sp)) = (r, d', sp)"
            using assms(1) resolve \<open>found = Inr p\<close> False backup b replace Inr
            by (simp add: apply_in_temp_def Let_def backup_of_def)
          ultimately show ?thesis using restart [of d3] by auto
        qed
      qed
    qed
  qed
qed

section \<open>The upgrade\<close>

text \<open>
  What an upgrade of the binary at \<open>target\<close> starts from: the cache is in order, and neither it nor the temporary
  directory is where the binary is.
\<close>

definition upgrade_setup :: "os \<Rightarrow> 'v upgrade_env \<Rightarrow> process \<Rightarrow> 'v AutoApplyUpgrader \<Rightarrow> 'v UpgradeInfo \<Rightarrow> disk \<Rightarrow> path \<Rightarrow> bool" where
  "upgrade_setup OS U P up info d target \<longleftrightarrow>
     upgrade_laws OS U \<and> current_binary_path P d = Inr target \<and> separate_dirs (binary_cache up) target \<and>
     last target \<noteq> ue_temp_name U \<and> cache_shared OS U (binary_cache up) (butlast target @ [ue_temp_name U]) d \<and>
     \<not> ends_with (sv_show (ue_semver U) (ui_version info)) ''.meta.json''"

lemma remove_temp:
  assumes "target \<noteq> []" "last target \<noteq> n"
  shows "dk_files (fs_remove_dir_all OS (butlast target @ [n]) d) target = dk_files d target"
    and "cache_shared OS U bco temp d \<Longrightarrow> cache_shared OS U bco temp (fs_remove_dir_all OS (butlast target @ [n]) d)"
proof -
  have "\<not> below (butlast target @ [n]) target"
  proof
    assume "below (butlast target @ [n]) target"
    then have "target = butlast target @ [n]" using assms(1) by (simp add: below_def)
    then show False using assms(2) by (metis last_snoc)
  qed
  then show "dk_files (fs_remove_dir_all OS (butlast target @ [n]) d) target = dk_files d target"
    by (simp add: fs_remove_dir_all_def split: option.splits)
  have "dk_files (fs_remove_dir_all OS (butlast target @ [n]) d) q \<in> {dk_files d q, None}" for q
    by (simp add: fs_remove_dir_all_def split: option.split)
  then have "cache_ok OS U bc d \<Longrightarrow> cache_ok OS U bc (fs_remove_dir_all OS (butlast target @ [n]) d)" for bc
    using cache_ok_frame by blast
  then show "cache_shared OS U bco temp d \<Longrightarrow> cache_shared OS U bco temp (fs_remove_dir_all OS (butlast target @ [n]) d)"
    unfolding cache_shared_def by blast
qed

lemma upgrade_outcome_cong:
  "upgrade_outcome U up info target args Q r d sp \<Longrightarrow> dk_files d' target = dk_files d target \<Longrightarrow>
     upgrade_outcome U up info target args Q r d' sp"
  by (auto simp: upgrade_outcome_def authentic_at_def on_disk_version_def split: sum.splits UpgradeResult.splits)

lemma apply_upgrade_ok:
  assumes "apply_upgrade OS U P up info d = (r, d', sp)" "upgrade_setup OS U P up info d target"
    and "others_keep OS U (binary_cache up) target Q" "Q (dk_files d target)"
  shows "cache_shared OS U (binary_cache up) (butlast target @ [ue_temp_name U]) d' \<and>
     upgrade_outcome U up info target (drop 1 (pc_args P)) Q r d' sp"
proof -
  let ?temp = "butlast target @ [ue_temp_name U]"
  have init: "upgrade_laws OS U" "current_binary_path P d = Inr target" "separate_dirs (binary_cache up) target"
    "last target \<noteq> ue_temp_name U" "cache_shared OS U (binary_cache up) ?temp d"
    "\<not> ends_with (sv_show (ue_semver U) (ui_version info)) ''.meta.json''" "target \<noteq> []"
    using assms(2) by (auto simp: upgrade_setup_def separate_dirs_def)
  obtain c d1 where mkdir: "fs_create_dir OS ?temp d = (c, d1)" by fastforce
  then have "dk_files d1 = dk_files d" by (auto simp: fs_create_dir_def split: option.splits if_splits)
  then have d1: "cache_shared OS U (binary_cache up) ?temp d1" "Q (dk_files d1 target)"
    using init(5) assms(4) by (simp_all add: cache_shared_def cache_ok_def)
  show ?thesis
  proof (cases "ui_version info \<le> au_current_version up")
    case True
    then show ?thesis using assms(1,4) init(5) by (auto simp: apply_upgrade_def upgrade_outcome_def)
  next
    case newer: False
    show ?thesis
    proof (cases c)
      case (Inl e)
      then show ?thesis using assms(1) newer init(2,7) mkdir d1 by (auto simp: apply_upgrade_def Let_def upgrade_outcome_def)
    next
      case (Inr u)
      obtain r2 d2 sp2 where run: "apply_in_temp OS U P up info target ?temp d1 = (r2, d2, sp2)" by (cases "apply_in_temp OS U P up info target ?temp d1") auto
      have res: "r = r2" "sp = sp2" "d' = fs_remove_dir_all OS ?temp d2"
        using assms(1) newer init(2,7) mkdir Inr run by (auto simp: apply_upgrade_def Let_def)
      note inside = apply_in_temp_ok [OF run init(1) d1(1) init(3) assms(3) d1(2) init(6)]
      show ?thesis
        unfolding res
        using inside remove_temp(2) [OF init(7,4)] upgrade_outcome_cong [OF _ remove_temp(1) [OF init(7,4)]] by blast
    qed
  qed
qed

text \<open>
  C6: Whatever the servers answer, the archives contain, the disk refuses and other nodes do meanwhile, the
  binary of the node after an attempt to upgrade is the old one or one from an archive that the release key
  has signed, except after the critical error. A success is for a version above the running one and names the
  version that was asked for; then the binary is authentic, or it reports this version already.
\<close>

theorem upgrade_installs_only_signed_binaries:
  assumes "apply_upgrade OS U P up info d = (r, d', sp)" "upgrade_setup OS U P up info d target"
    and "others_keep OS U (binary_cache up) target (\<lambda>x. x = dk_files d target \<or> (\<exists>c. x = Some c \<and> authentic U c))"
  shows "(r = Inl critical_error \<or> dk_files d' target = dk_files d target \<or> authentic_at U target d') \<and>
     (\<forall>v code. r = Inr (Success v code) \<longrightarrow> v = ui_version info \<and> au_current_version up < v \<and>
        (authentic_at U target d' \<or> on_disk_version U target d' = Some v))"
proof -
  have "au_current_version up < ui_version info" if "r = Inr (Success v code)" for v code
    using assms(1) that by (auto simp: apply_upgrade_def split: if_splits)
  then show ?thesis
    using apply_upgrade_ok [OF assms(1-3)]
    by (auto simp: upgrade_outcome_def authentic_at_def split: sum.splits UpgradeResult.splits)
qed

text \<open>
  C24: An upgrade that is rolled back, or not wanted, leaves the binary exactly as it was and starts no program,
  at whichever step it failed; a program is started only after a success and not under a service manager.
\<close>

theorem rolled_back_upgrade_changes_nothing:
  assumes "apply_upgrade OS U P up info d = (r, d', sp)" "upgrade_setup OS U P up info d target"
    and "others_keep OS U (binary_cache up) target (\<lambda>x. x = dk_files d target)"
  shows "case r of
      Inr (Success v code) \<Rightarrow> sp = (if stop_on_upgrade up then [] else [(target, drop 1 (pc_args P))])
    | Inr _ \<Rightarrow> sp = [] \<and> dk_files d' target = dk_files d target
    | Inl e \<Rightarrow> sp = []"
  using apply_upgrade_ok [OF assms] by (auto simp: upgrade_outcome_def split: sum.splits UpgradeResult.splits)

text \<open>
  C23: The cache that nodes share never leads to a binary that was not signed: if its records were in order before an
  attempt to upgrade, then after it, however it ended, every version the cache accepts is an authentic binary.
\<close>

theorem binary_cache_stays_authentic:
  assumes "apply_upgrade OS U P up info d = (r, d', sp)" "upgrade_setup OS U P up info d target"
    and "others_keep OS U (binary_cache up) target (\<lambda>x. True)" "binary_cache up = Some bc"
    and "get_verified OS U bc version d' = Some p"
  shows "\<exists>c. dk_files d' p = Some c \<and> authentic U c"
proof -
  have "cache_ok OS U bc d'" using apply_upgrade_ok [OF assms(1-3)] assms(4) by (simp add: cache_shared_def)
  then show ?thesis using get_verified_authentic [OF _ _ assms(5)] assms(2) by (auto simp: upgrade_setup_def)
qed

section \<open>An archive of version 1 under the tag of version 3\<close>

definition hex_os :: os where
  "hex_os =
     \<lparr>os_fault = (\<lambda>op. None), os_written = (\<lambda>p. None), os_temp_dir = [''tmp''], os_pid = ''1'', os_show_u64 = (\<lambda>n. ''0''),
      os_hex_encode = (\<lambda>bs. if bs = [42] then ''a'' else ''b''), os_available_space = (\<lambda>p. Inr 0)\<rparr>"

definition unary_versions :: "nat semver" where
  "unary_versions = \<lparr>sv_parse = (\<lambda>s. Some (length s)), sv_pre = (\<lambda>v. ''''), sv_show = (\<lambda>v. replicate v CHR ''1'')\<rparr>"

definition sample_meta :: CachedBinaryMeta where
  "sample_meta = \<lparr>cb_version = ''111'', cb_sha256 = ''a'', cached_at_epoch_secs = 7\<rparr>"

definition sample_upgrade_env :: "nat upgrade_env" where
  "sample_upgrade_env =
     \<lparr>ue_semver = unary_versions,
      ue_dsa = \<lparr>dsa_public_key = (\<lambda>k. Inr [1]), dsa_signature = Inr, dsa_verify = (\<lambda>k m s ctx. Inr (m = [0x1f, 0x8b, 5]))\<rparr>,
      ue_http = (\<lambda>i url. Inr (200, Inr (if i = 0 then [0x1f, 0x8b, 5] else replicate 3309 0))),
      ue_untar = (\<lambda>a. Inr [Inr \<lparr>ae_name = Inr (Some ''README''), ae_data = [], ae_fault = None\<rparr>,
                            Inr \<lparr>ae_name = Inr (Some ''ant-node''), ae_data = [42], ae_fault = None\<rparr>]),
      ue_unzip = (\<lambda>a. Inl ''''), ue_sha256 = (\<lambda>c. c),
      ue_meta_to_json = (\<lambda>m. if m = sample_meta then Inr [9] else Inl ''''),
      ue_meta_from_json = (\<lambda>bs. if bs = [9] then Inr sample_meta else Inl ''''),
      ue_epoch = Inr 7, ue_others = (\<lambda>d. d), ue_run_version = (\<lambda>c. if c = [42] then Some ''ant-node 1'' else None),
      ue_spawn = (\<lambda>c args. None), ue_temp_name = ''ant-upgrade-x''\<rparr>"

definition sample_process :: process where
  "sample_process =
     \<lparr>pc_args = [''ant-node'', ''run''], pc_path_of = (\<lambda>s. [''bin'', s]), pc_canonicalize = (\<lambda>p. None), pc_current_exe = Inl ''''\<rparr>"

definition sample_upgrader :: "nat AutoApplyUpgrader" where
  "sample_upgrader = with_binary_cache (AutoApplyUpgrader_new 2) (BinaryCache_new [''c''])"

definition upgrade_3 :: "nat UpgradeInfo" where
  "upgrade_3 = \<lparr>ui_version = 3, download_url = ''b'', signature_url = ''s'', release_notes = ''''\<rparr>"

definition node_disk :: disk where
  "node_disk = \<lparr>dk_files = [[''bin'', ''ant-node''] \<mapsto> [1]], dk_dirs = {[''bin''], [''c'']}\<rparr>"

lemmas hex_os_ops = fs_create_def fs_append_def fs_write_def fs_read_def fs_copy_def fs_rename_def fs_remove_file_def fs_sync_def
  fs_set_permissions_def fs_create_dir_def fs_remove_dir_all_def hex_os_def

lemma sample_paths:
  "cached_binary_path (BinaryCache_new [''c'']) v = [''c'', ''ant-node-'' @ v]"
  "meta_path (BinaryCache_new [''c'']) v = [''c'', ''ant-node-'' @ v @ ''.meta.json'']"
  "tmp_binary_path (BinaryCache_new [''c'']) v = [''c'', ''.ant-node-'' @ v @ ''.tmp'']"
  "tmp_meta_path (BinaryCache_new [''c'']) v = [''c'', ''.ant-node-'' @ v @ ''.meta.tmp'']"
  "bc_cache_dir (BinaryCache_new [''c'']) = [''c'']"
  by (simp_all add: cached_binary_path_def meta_path_def tmp_binary_path_def tmp_meta_path_def BinaryCache_new_def)

lemma sample_download:
  "upgrade_download hex_os sample_upgrade_env 0 url p d = (Inr (), d\<lparr>dk_files := (dk_files d)(p \<mapsto> [0x1f, 0x8b, 5])\<rparr>)"
  "upgrade_download hex_os sample_upgrade_env 1 url p d = (Inr (), d\<lparr>dk_files := (dk_files d)(p \<mapsto> replicate 3309 0)\<rparr>)"
  by (simp_all add: upgrade_download_def sample_upgrade_env_def MAX_ARCHIVE_SIZE_BYTES_def hex_os_ops)

lemma sample_verify:
  "dk_files d p = Some [0x1f, 0x8b, 5] \<Longrightarrow> dk_files d q = Some (replicate 3309 0) \<Longrightarrow>
     verify_from_file hex_os (ue_dsa sample_upgrade_env) p q d = Inr ()"
  by (simp add: verify_from_file_def verify_binary_signature_def verify_binary_signature_with_key_def sample_upgrade_env_def
      hex_os_ops SIGNATURE_SIZE_def)

lemma sample_extract:
  "dk_files d p = Some [0x1f, 0x8b, 5] \<Longrightarrow>
     extract_binary hex_os sample_upgrade_env p dir d = (Inr (dir @ [''ant-node'']), d\<lparr>dk_files := (dk_files d)(dir @ [''ant-node''] \<mapsto> [42])\<rparr>)"
  by (simp add: extract_binary_def extract_from_tar_gz_def sample_upgrade_env_def hex_os_ops write_entry_def is_node_binary_def)

lemma sample_store:
  assumes "dk_files d [''bin'', ''ant-upgrade-x'', ''ant-node''] = Some [42]" "dk_files d [''c'', ''ant-node-111''] = None"
  shows "\<exists>d'. store_binary hex_os sample_upgrade_env (BinaryCache_new [''c'']) ''111'' [''bin'', ''ant-upgrade-x'', ''ant-node''] d = (Inr (), d') \<and>
     dk_files d' [''c'', ''ant-node-111''] = Some [42] \<and> dk_files d' [''c'', ''ant-node-111.meta.json''] = Some [9] \<and>
     dk_files d' [''bin'', ''ant-upgrade-x'', ''ant-node''] = Some [42] \<and>
     dk_files d' [''bin'', ''ant-node''] = dk_files d [''bin'', ''ant-node'']"
  using assms
  by (simp add: store_binary_def sample_paths sha256_file_def hex_os_ops fs_replace_def sample_upgrade_env_def sample_meta_def Let_def)

lemma sample_unverified: "dk_files d [''c'', ''ant-node-111.meta.json''] = None \<Longrightarrow>
    get_verified hex_os sample_upgrade_env (BinaryCache_new [''c'']) ''111'' d = None"
  by (simp add: get_verified_def sample_paths hex_os_ops)

lemma sample_resolve:
  assumes "dk_files d = dk_files node_disk"
  shows "\<exists>d'. resolve_upgrade_binary hex_os sample_upgrade_env (Some (BinaryCache_new [''c''])) upgrade_3 [''bin'', ''ant-upgrade-x''] ''111'' d =
       (Inr [''bin'', ''ant-upgrade-x'', ''ant-node''], d') \<and>
     dk_files d' [''c'', ''ant-node-111''] = Some [42] \<and> dk_files d' [''c'', ''ant-node-111.meta.json''] = Some [9] \<and>
     dk_files d' [''bin'', ''ant-upgrade-x'', ''ant-node''] = Some [42] \<and> dk_files d' [''bin'', ''ant-node''] = Some [1]"
proof -
  let ?d1 = "d\<lparr>dk_files := (dk_files d)([''c'', ''download.lock''] \<mapsto> [])\<rparr>"
  let ?d2 = "?d1\<lparr>dk_files := (dk_files ?d1)([''bin'', ''ant-upgrade-x'', ''archive''] \<mapsto> [0x1f, 0x8b, 5])\<rparr>"
  let ?d3 = "?d2\<lparr>dk_files := (dk_files ?d2)([''bin'', ''ant-upgrade-x'', ''signature''] \<mapsto> replicate 3309 0)\<rparr>"
  let ?d4 = "?d3\<lparr>dk_files := (dk_files ?d3)([''bin'', ''ant-upgrade-x'', ''ant-node''] \<mapsto> [42])\<rparr>"
  have files: "dk_files d = [[''bin'', ''ant-node''] \<mapsto> [1]]" using assms by (simp add: node_disk_def)
  have lock: "acquire_download_lock hex_os sample_upgrade_env (BinaryCache_new [''c'']) d = (Inr (), ?d1)"
    by (simp add: acquire_download_lock_def sample_paths hex_os_ops sample_upgrade_env_def)
  have version: "sv_show (ue_semver sample_upgrade_env) (ui_version upgrade_3) = ''111''"
    by (simp add: sample_upgrade_env_def unary_versions_def upgrade_3_def numeral_3_eq_3)
  have misses: "get_verified hex_os sample_upgrade_env (BinaryCache_new [''c'']) ''111'' d = None"
    "get_verified hex_os sample_upgrade_env (BinaryCache_new [''c'']) ''111'' ?d1 = None"
    by (rule sample_unverified; simp add: files)+
  have verified: "verify_from_file hex_os (ue_dsa sample_upgrade_env) [''bin'', ''ant-upgrade-x'', ''archive''] [''bin'', ''ant-upgrade-x'', ''signature''] ?d3 = Inr ()"
    by (rule sample_verify) simp_all
  have extracted: "extract_binary hex_os sample_upgrade_env [''bin'', ''ant-upgrade-x'', ''archive''] [''bin'', ''ant-upgrade-x''] ?d3 =
      (Inr [''bin'', ''ant-upgrade-x'', ''ant-node''], ?d4)"
    by (subst sample_extract) simp_all
  obtain d' where store: "store_binary hex_os sample_upgrade_env (BinaryCache_new [''c'']) ''111'' [''bin'', ''ant-upgrade-x'', ''ant-node''] ?d4 = (Inr (), d')"
    "dk_files d' [''c'', ''ant-node-111''] = Some [42]" "dk_files d' [''c'', ''ant-node-111.meta.json''] = Some [9]"
    "dk_files d' [''bin'', ''ant-upgrade-x'', ''ant-node''] = Some [42]" "dk_files d' [''bin'', ''ant-node''] = dk_files ?d4 [''bin'', ''ant-node'']"
    using sample_store [of ?d4] by (auto simp: files)
  have "download_verify_extract hex_os sample_upgrade_env upgrade_3 [''bin'', ''ant-upgrade-x''] (Some (BinaryCache_new [''c''])) ?d1 =
      (Inr [''bin'', ''ant-upgrade-x'', ''ant-node''], d')"
    unfolding download_verify_extract_def Let_def append_Cons append_Nil sample_download prod.case sum.case verified extracted option.case version store(1) snd_conv
    by (rule refl)
  then have "resolve_upgrade_binary hex_os sample_upgrade_env (Some (BinaryCache_new [''c''])) upgrade_3 [''bin'', ''ant-upgrade-x''] ''111'' d =
      (Inr [''bin'', ''ant-upgrade-x'', ''ant-node''], d')"
    unfolding resolve_upgrade_binary_def option.case misses lock prod.case sum.case .
  then show ?thesis using store(2-5) by (auto simp: files)
qed

lemma sample_current: "current_binary_path sample_process node_disk = Inr [''bin'', ''ant-node'']"
  by (simp add: current_binary_path_def sample_process_def strip_deleted_def ends_with_def fs_exists_def node_disk_def)

lemma sample_result:
  "\<exists>d'. apply_upgrade hex_os sample_upgrade_env sample_process sample_upgrader upgrade_3 node_disk =
       (Inr (Success 3 0), d', [([''bin'', ''ant-node''], [''run''])]) \<and>
     dk_files d' [''bin'', ''ant-node''] = Some [42] \<and>
     dk_files d' [''c'', ''ant-node-111''] = Some [42] \<and> dk_files d' [''c'', ''ant-node-111.meta.json''] = Some [9]"
proof -
  let ?target = "[''bin'', ''ant-node'']" and ?p = "[''bin'', ''ant-upgrade-x'', ''ant-node'']"
  let ?d0 = "node_disk\<lparr>dk_dirs := insert [''bin'', ''ant-upgrade-x''] (dk_dirs node_disk)\<rparr>"
  obtain d1 where d1: "resolve_upgrade_binary hex_os sample_upgrade_env (Some (BinaryCache_new [''c''])) upgrade_3 [''bin'', ''ant-upgrade-x''] ''111'' ?d0 = (Inr ?p, d1)"
    "dk_files d1 [''c'', ''ant-node-111''] = Some [42]" "dk_files d1 [''c'', ''ant-node-111.meta.json''] = Some [9]"
    "dk_files d1 ?p = Some [42]" "dk_files d1 ?target = Some [1]"
    using sample_resolve [of ?d0] by auto
  have version: "sv_show (ue_semver sample_upgrade_env) (ui_version upgrade_3) = ''111''"
    by (simp add: sample_upgrade_env_def unary_versions_def upgrade_3_def numeral_3_eq_3)
  have cache: "binary_cache sample_upgrader = Some (BinaryCache_new [''c''])" "au_current_version sample_upgrader = 2"
    "\<not> stop_on_upgrade sample_upgrader" "ue_temp_name sample_upgrade_env = ''ant-upgrade-x''" "ui_version upgrade_3 = 3"
    by (simp_all add: sample_upgrader_def with_binary_cache_def AutoApplyUpgrader_new_def sample_upgrade_env_def upgrade_3_def)
  have old: "on_disk_version sample_upgrade_env ?target d1 = None" using d1(5) by (simp add: on_disk_version_def sample_upgrade_env_def)
  let ?d2 = "d1\<lparr>dk_files := (dk_files d1)([''bin'', ''ant-node.backup''] \<mapsto> [1])\<rparr>"
  let ?d3 = "?d2\<lparr>dk_files := (dk_files ?d2)(?p := None, ?target \<mapsto> [42])\<rparr>"
  have copy: "fs_copy hex_os ?target [''bin'', ''ant-node.backup''] d1 = (Inr (), ?d2)" using d1(5) by (simp add: hex_os_ops)
  have replace: "replace_binary hex_os ?p ?target ?d2 = (Inr (), ?d3)"
    using d1(4,5) by (simp add: replace_binary_def fs_exists_def hex_os_ops)
  have restart: "prepare_restart sample_upgrade_env sample_process sample_upgrader ?target e = (Inr 0, [(?target, [''run''])])" for e
    using cache(3) by (simp add: prepare_restart_def sample_upgrade_env_def sample_process_def)
  have run: "apply_in_temp hex_os sample_upgrade_env sample_process sample_upgrader upgrade_3 ?target [''bin'', ''ant-upgrade-x''] ?d0 =
      (Inr (Success 3 0), ?d3, [(?target, [''run''])])"
    unfolding apply_in_temp_def Let_def version
    unfolding cache d1(1) prod.case sum.case old
    by (simp add: copy replace restart)
  have mkdir: "fs_create_dir hex_os [''bin'', ''ant-upgrade-x''] node_disk = (Inr (), ?d0)"
    by (simp add: node_disk_def hex_os_ops)
  have "apply_upgrade hex_os sample_upgrade_env sample_process sample_upgrader upgrade_3 node_disk =
      (Inr (Success 3 0), fs_remove_dir_all hex_os [''bin'', ''ant-upgrade-x''] ?d3, [(?target, [''run''])])"
    by (simp add: apply_upgrade_def cache sample_current mkdir run)
  moreover have "dk_files (fs_remove_dir_all hex_os [''bin'', ''ant-upgrade-x''] ?d3) q = dk_files ?d3 q" if "\<not> below [''bin'', ''ant-upgrade-x''] q" for q
    using that by (simp add: fs_remove_dir_all_def hex_os_def)
  ultimately show ?thesis using d1(2,3) by (simp add: below_def)
qed

text \<open>
  The signature covers the archive but not the version it is offered as: an old archive with its old signature,
  published under a newer tag, is installed over a newer binary and reported as the newer version.
\<close>

lemma signed_old_archive_downgrades:
  "\<exists>d' sp. apply_upgrade hex_os sample_upgrade_env sample_process sample_upgrader upgrade_3 node_disk = (Inr (Success 3 0), d', sp) \<and>
     on_disk_version sample_upgrade_env [''bin'', ''ant-node''] d' = Some 1 \<and> 1 < au_current_version sample_upgrader"
proof -
  obtain d' sp where run: "apply_upgrade hex_os sample_upgrade_env sample_process sample_upgrader upgrade_3 node_disk = (Inr (Success 3 0), d', sp)"
    "dk_files d' [''bin'', ''ant-node''] = Some [42]"
    using sample_result by blast
  have "trim ''ant-node 1'' = ''ant-node 1''" by code_simp
  then have "on_disk_version sample_upgrade_env [''bin'', ''ant-node''] d' = Some 1"
    using run(2) by (simp add: on_disk_version_def sample_upgrade_env_def unary_versions_def)
  moreover have "1 < au_current_version sample_upgrader"
    by (simp add: sample_upgrader_def with_binary_cache_def AutoApplyUpgrader_new_def)
  ultimately show ?thesis using run(1) by blast
qed

lemma sample_authentic: "authentic (sample_upgrade_env\<lparr>ue_http := h\<rparr>) c \<longleftrightarrow> c = [42]"
proof
  assume "authentic (sample_upgrade_env\<lparr>ue_http := h\<rparr>) c"
  then show "c = [42]"
    by (auto simp: authentic_def release_signed_def holds_binary_def sample_upgrade_env_def extracts_def is_node_binary_def)
next
  assume "c = [42]"
  moreover have "release_signed (sample_upgrade_env\<lparr>ue_http := h\<rparr>) [0x1f, 0x8b, 5]"
    unfolding release_signed_def
    by (rule exI [of _ "[1]"], rule exI [of _ "replicate 3309 0"]) (simp add: sample_upgrade_env_def SIGNATURE_SIZE_def)
  moreover have "holds_binary (sample_upgrade_env\<lparr>ue_http := h\<rparr>) [0x1f, 0x8b, 5] [42]"
    by (auto simp: holds_binary_def sample_upgrade_env_def extracts_def is_node_binary_def)
  ultimately show "authentic (sample_upgrade_env\<lparr>ue_http := h\<rparr>) c" unfolding authentic_def by blast
qed

lemma sample_setup:
  "upgrade_setup hex_os (sample_upgrade_env\<lparr>ue_http := h\<rparr>) sample_process sample_upgrader upgrade_3 node_disk [''bin'', ''ant-node'']"
proof -
  have "upgrade_laws hex_os (sample_upgrade_env\<lparr>ue_http := h\<rparr>)"
    by (simp add: upgrade_laws_def sample_authentic) (simp add: sample_upgrade_env_def binary_digest_def hex_os_def)
  moreover have "cache_shared hex_os (sample_upgrade_env\<lparr>ue_http := h\<rparr>) (binary_cache sample_upgrader) [''bin'', ''ant-upgrade-x''] node_disk"
    by (simp add: cache_shared_def cache_ok_def sample_upgrader_def with_binary_cache_def sample_paths node_disk_def)
  ultimately show ?thesis
    by (simp add: upgrade_setup_def sample_current separate_dirs_def sample_upgrader_def with_binary_cache_def sample_paths
        sample_upgrade_env_def unary_versions_def upgrade_3_def ends_with_def)
qed

lemma sample_others: "others_keep hex_os (sample_upgrade_env\<lparr>ue_http := h\<rparr>) bco target Q"
  by (simp add: others_keep_def sample_upgrade_env_def)

lemma sample_http: "sample_upgrade_env\<lparr>ue_http := ue_http sample_upgrade_env\<rparr> = sample_upgrade_env"
  by simp

theorem upgrade_installs_only_signed_binaries_witness:
  "\<exists>d' sp. apply_upgrade hex_os sample_upgrade_env sample_process sample_upgrader upgrade_3 node_disk = (Inr (Success 3 0), d', sp) \<and>
     authentic_at sample_upgrade_env [''bin'', ''ant-node''] d'"
proof -
  obtain d' sp where run: "apply_upgrade hex_os sample_upgrade_env sample_process sample_upgrader upgrade_3 node_disk = (Inr (Success 3 0), d', sp)"
    "dk_files d' [''bin'', ''ant-node''] = Some [42]"
    using sample_result by blast
  have "dk_files d' [''bin'', ''ant-node''] = dk_files node_disk [''bin'', ''ant-node''] \<or> authentic_at sample_upgrade_env [''bin'', ''ant-node''] d'"
    using upgrade_installs_only_signed_binaries [OF run(1) sample_setup [of "ue_http sample_upgrade_env", unfolded sample_http]
        sample_others [of "ue_http sample_upgrade_env", unfolded sample_http]]
    by simp
  then show ?thesis using run by (simp add: node_disk_def)
qed

theorem binary_cache_stays_authentic_witness:
  "\<exists>d' sp c. apply_upgrade hex_os sample_upgrade_env sample_process sample_upgrader upgrade_3 node_disk = (Inr (Success 3 0), d', sp) \<and>
     dk_files d' [''c'', ''ant-node-111''] = Some c \<and> authentic sample_upgrade_env c"
proof -
  obtain d' sp where run: "apply_upgrade hex_os sample_upgrade_env sample_process sample_upgrader upgrade_3 node_disk = (Inr (Success 3 0), d', sp)"
    "dk_files d' [''c'', ''ant-node-111''] = Some [42]" "dk_files d' [''c'', ''ant-node-111.meta.json''] = Some [9]"
    using sample_result by blast
  have "get_verified hex_os sample_upgrade_env (BinaryCache_new [''c'']) ''111'' d' = Some [''c'', ''ant-node-111'']"
    using run(2,3) by (simp add: get_verified_def sample_paths sha256_file_def hex_os_ops sample_upgrade_env_def sample_meta_def)
  moreover have "binary_cache sample_upgrader = Some (BinaryCache_new [''c''])"
    by (simp add: sample_upgrader_def with_binary_cache_def)
  ultimately show ?thesis
    using binary_cache_stays_authentic [OF run(1) sample_setup [of "ue_http sample_upgrade_env", unfolded sample_http]
        sample_others [of "ue_http sample_upgrade_env", unfolded sample_http]] run(1) by blast
qed

lemma sample_offline:
  "\<exists>d'. apply_upgrade hex_os (sample_upgrade_env\<lparr>ue_http := \<lambda>i url. Inl ''offline''\<rparr>) sample_process sample_upgrader upgrade_3 node_disk =
     (Inr (RolledBack (StepFailed (Network ''offline''))), d', [])"
proof -
  let ?U = "sample_upgrade_env\<lparr>ue_http := \<lambda>i url. Inl ''offline''\<rparr>"
  let ?d0 = "node_disk\<lparr>dk_dirs := insert [''bin'', ''ant-upgrade-x''] (dk_dirs node_disk)\<rparr>"
  have miss: "get_verified hex_os ?U (BinaryCache_new [''c'']) v e = None" if "dk_files e (meta_path (BinaryCache_new [''c'']) v) = None" for v e
    using that by (simp add: get_verified_def hex_os_ops)
  have offline: "download_verify_extract hex_os ?U upgrade_3 temp bco e = (Inl (Network ''offline''), e)" for temp bco e
    by (simp add: download_verify_extract_def upgrade_download_def)
  obtain e where lock: "acquire_download_lock hex_os ?U (BinaryCache_new [''c'']) ?d0 = (Inr (), e)"
    "dk_files e = (dk_files node_disk)([''c'', ''download.lock''] \<mapsto> [])"
    by (simp add: acquire_download_lock_def sample_paths hex_os_ops sample_upgrade_env_def)
  have "dk_files ?d0 (meta_path (BinaryCache_new [''c'']) v) = None" "dk_files e (meta_path (BinaryCache_new [''c'']) v) = None" for v
    by (simp_all add: lock(2) sample_paths node_disk_def)
  then have resolve: "resolve_upgrade_binary hex_os ?U (binary_cache sample_upgrader) upgrade_3 temp v ?d0 = (Inl (Network ''offline''), e)" for temp v
    by (simp add: resolve_upgrade_binary_def sample_upgrader_def with_binary_cache_def miss offline lock(1))
  have mkdir: "fs_create_dir hex_os [''bin'', ''ant-upgrade-x''] node_disk = (Inr (), ?d0)"
    by (simp add: node_disk_def hex_os_ops)
  have fields: "ue_temp_name ?U = ''ant-upgrade-x''" "au_current_version sample_upgrader = 2" "ui_version upgrade_3 = 3"
    by (simp_all add: sample_upgrade_env_def sample_upgrader_def with_binary_cache_def AutoApplyUpgrader_new_def upgrade_3_def)
  show ?thesis
    by (simp add: apply_upgrade_def apply_in_temp_def fields sample_current mkdir resolve)
qed

theorem rolled_back_upgrade_changes_nothing_witness:
  "\<exists>d' sp reason. apply_upgrade hex_os (sample_upgrade_env\<lparr>ue_http := \<lambda>i url. Inl ''offline''\<rparr>) sample_process sample_upgrader upgrade_3 node_disk =
     (Inr (RolledBack reason), d', sp) \<and> sp = [] \<and> dk_files d' [''bin'', ''ant-node''] = Some [1]"
proof -
  obtain d' where run: "apply_upgrade hex_os (sample_upgrade_env\<lparr>ue_http := \<lambda>i url. Inl ''offline''\<rparr>) sample_process sample_upgrader upgrade_3 node_disk =
     (Inr (RolledBack (StepFailed (Network ''offline''))), d', [])"
    using sample_offline by blast
  have "dk_files d' [''bin'', ''ant-node''] = dk_files node_disk [''bin'', ''ant-node'']"
    using rolled_back_upgrade_changes_nothing [OF run sample_setup sample_others] by simp
  then show ?thesis using run by (simp add: node_disk_def)
qed

end
