(* ===== verification/Upgrade_Monitor_Correct.thy ===== *)
theory Upgrade_Monitor_Correct
  imports Upgrade_Monitor
begin

text \<open>
  Which upgrade the monitor selects, how long a staged rollout holds it back, and what the cache of
  releases keeps.
\<close>

section \<open>Selection\<close>

text \<open>\<open>offers\<close> is the contract: what a release must have to be offered as the upgrade \<open>info\<close>.\<close>

definition offers ::
  "'v semver \<Rightarrow> platform \<Rightarrow> 'v::linorder \<Rightarrow> UpgradeChannel \<Rightarrow> GitHubRelease \<Rightarrow> 'v UpgradeInfo \<Rightarrow> bool" where
  "offers V pf current channel r info \<longleftrightarrow>
     version_from_tag V (tag_name r) = Some (ui_version info) \<and> current < ui_version info \<and>
     (channel = Stable \<longrightarrow> sv_pre V (ui_version info) = '''') \<and> release_notes info = rel_body r \<and>
     (\<exists>a \<in> set (assets r). \<exists>s \<in> set (assets r).
        list_ex (contains_pattern (as_name a)) (build_platform_patterns (pf_arch pf) (pf_os pf)) \<and>
        is_binary_asset (as_name a) \<and> download_url info = browser_download_url a \<and>
        as_name s = as_name a @ ''.sig'' \<and> signature_url info = browser_download_url s)"

lemma find_SomeD: "find P xs = Some x \<Longrightarrow> x \<in> set xs \<and> P x"
  by (auto simp: find_Some_iff)

lemma find_by_patterns_Some:
  "find_by_patterns ps as = Some a \<Longrightarrow> a \<in> set as \<and> list_ex (contains_pattern (as_name a)) ps \<and> is_binary_asset (as_name a)"
proof (induction ps as rule: find_by_patterns.induct)
  case (2 p rest as)
  then show ?case by (auto split: option.splits dest: find_SomeD)
qed simp

lemma release_candidate_offers:
  "release_candidate V pf current channel r = Some info \<Longrightarrow> offers V pf current channel r info"
  unfolding release_candidate_def offers_def find_platform_asset_def
  by (auto split: option.splits if_splits dest!: find_by_patterns_Some find_SomeD) (metis+)

text \<open>The scan keeps the first of the candidates with the greatest version.\<close>

definition best_of :: "('r \<Rightarrow> 'v::linorder UpgradeInfo option) \<Rightarrow> 'r list \<Rightarrow> 'v UpgradeInfo option \<Rightarrow> bool" where
  "best_of f rs best \<longleftrightarrow>
     (case best of
        None \<Rightarrow> \<forall>r \<in> set rs. f r = None
      | Some info \<Rightarrow>
          (\<exists>before r after. rs = before @ r # after \<and> f r = Some info \<and>
             (\<forall>q \<in> set before. \<forall>i. f q = Some i \<longrightarrow> ui_version i < ui_version info) \<and>
             (\<forall>q \<in> set after. \<forall>i. f q = Some i \<longrightarrow> ui_version i \<le> ui_version info)))"

lemma best_of_last:
  assumes "f r = Some c" "\<forall>p \<in> set rs. \<forall>i. f p = Some i \<longrightarrow> ui_version i < ui_version c"
  shows "best_of f (rs @ [r]) (Some c)"
proof -
  have "rs @ [r] = rs @ r # [] \<and> f r = Some c \<and> (\<forall>q \<in> set rs. \<forall>i. f q = Some i \<longrightarrow> ui_version i < ui_version c) \<and>
      (\<forall>q \<in> set []. \<forall>i. f q = Some i \<longrightarrow> ui_version i \<le> ui_version c)"
    using assms by simp
  then show ?thesis unfolding best_of_def option.case by blast
qed

lemma best_of_consider:
  assumes "best_of f rs best"
  shows "best_of f (rs @ [r])
           (case f r of None \<Rightarrow> best
            | Some c \<Rightarrow> (case best of None \<Rightarrow> Some c | Some b \<Rightarrow> if ui_version b < ui_version c then Some c else best))"
proof (cases best)
  case None
  show ?thesis
  proof (cases "f r")
    case (Some c)
    then show ?thesis using best_of_last [of f r c rs] None assms by (simp add: best_of_def)
  qed (use None assms in \<open>simp add: best_of_def\<close>)
next
  case (Some b)
  then obtain before q after where q: "rs = before @ q # after" "f q = Some b"
    "\<forall>q \<in> set before. \<forall>i. f q = Some i \<longrightarrow> ui_version i < ui_version b"
    "\<forall>q \<in> set after. \<forall>i. f q = Some i \<longrightarrow> ui_version i \<le> ui_version b"
    using assms by (auto simp: best_of_def)
  have le: "ui_version i \<le> ui_version b" if "p \<in> set rs" "f p = Some i" for p i
    using that q by (auto simp: less_imp_le)
  show ?thesis
  proof (cases "\<exists>c. f r = Some c \<and> ui_version b < ui_version c")
    case True
    then obtain c where c: "f r = Some c" "ui_version b < ui_version c" by blast
    then have "\<forall>p \<in> set rs. \<forall>i. f p = Some i \<longrightarrow> ui_version i < ui_version c" using le by fastforce
    then show ?thesis using best_of_last [of f r c rs] c Some by simp
  next
    case False
    then have "\<forall>i. f r = Some i \<longrightarrow> ui_version i \<le> ui_version b" by (auto simp: not_less)
    then have "rs @ [r] = before @ q # (after @ [r]) \<and> f q = Some b \<and>
        (\<forall>p \<in> set before. \<forall>i. f p = Some i \<longrightarrow> ui_version i < ui_version b) \<and>
        (\<forall>p \<in> set (after @ [r]). \<forall>i. f p = Some i \<longrightarrow> ui_version i \<le> ui_version b)"
      using q by simp
    then have "best_of f (rs @ [r]) (Some b)" unfolding best_of_def option.case by blast
    then show ?thesis using False Some by (auto split: option.splits)
  qed
qed

lemma best_of_fold: "best_of f rs best \<Longrightarrow> best_of f (rs @ qs)
    (fold (\<lambda>r best. case f r of None \<Rightarrow> best
        | Some c \<Rightarrow> (case best of None \<Rightarrow> Some c | Some b \<Rightarrow> if ui_version b < ui_version c then Some c else best)) qs best)"
proof (induction qs arbitrary: rs best)
  case (Cons q qs)
  from Cons.IH [OF best_of_consider [OF Cons.prems, of q]] show ?case by simp
qed simp

lemma select_best_of: "best_of (release_candidate V pf current channel) rs (select_upgrade_from_releases V pf rs current channel)"
proof -
  have "best_of (release_candidate V pf current channel) [] None" by (simp add: best_of_def)
  from best_of_fold [OF this, of rs] show ?thesis
    unfolding select_upgrade_from_releases_def consider_release_def [abs_def] by simp
qed

lemma process_release_candidate:
  "process_release M m r = release_candidate (mo_semver M) (mo_platform M) (current_version m) (um_channel m) r"
  unfolding process_release_def release_candidate_def version_matches_channel_def
  by (auto split: option.splits UpgradeChannel.splits)

text \<open>The patterns end with the bare names of the architecture: an archive for another system will do.\<close>

lemma fallback_ignores_system:
  "find_platform_asset \<lparr>pf_arch = ''x86_64'', pf_os = ''linux''\<rparr>
     [\<lparr>as_name = ''ant-node-x86_64-apple-darwin.tar.gz'', browser_download_url = ''u''\<rparr>] =
   Some \<lparr>as_name = ''ant-node-x86_64-apple-darwin.tar.gz'', browser_download_url = ''u''\<rparr>"
  by code_simp

text \<open>
  C26: The scan over the releases agrees with the one-release test of the monitor. It returns nothing only
  if no release passes that test, and otherwise what the release of the greatest version, the first
  of these, offers: a version above the running one that suits the channel, with an archive for
  this platform and a signature of that archive among its assets.
\<close>

theorem selected_upgrade_is_newest:
  "case select_upgrade_from_releases (mo_semver M) (mo_platform M) rs (current_version m) (um_channel m) of
     None \<Rightarrow> \<forall>r \<in> set rs. process_release M m r = None
   | Some info \<Rightarrow>
       \<exists>before r after. rs = before @ r # after \<and> process_release M m r = Some info \<and>
         offers (mo_semver M) (mo_platform M) (current_version m) (um_channel m) r info \<and>
         (\<forall>q \<in> set before. \<forall>i. process_release M m q = Some i \<longrightarrow> ui_version i < ui_version info) \<and>
         (\<forall>q \<in> set after. \<forall>i. process_release M m q = Some i \<longrightarrow> ui_version i \<le> ui_version info)"
  using select_best_of [of "mo_semver M" "mo_platform M" "current_version m" "um_channel m" rs]
  by (auto simp: best_of_def process_release_candidate split: option.splits intro: release_candidate_offers)

lemma selected_newer:
  "select_upgrade_from_releases V pf rs current channel = Some info \<Longrightarrow> current < ui_version info"
  using select_best_of [of V pf current channel rs] by (auto simp: best_of_def dest!: release_candidate_offers simp: offers_def)

section \<open>The staged rollout\<close>

text \<open>
  A run of the monitor: its checks in order, each with its circumstances, what the releases offered and
  what the check returned. The monotonic clock does not go back.
\<close>

type_synonym 'v check_record = "check_env \<times> (node_error + 'v UpgradeInfo option) \<times> (node_error + 'v UpgradeInfo option)"

inductive monitor_run ::
  "os \<Rightarrow> 'v::linorder monitor_env \<Rightarrow> 'v UpgradeMonitor \<Rightarrow> 'v check_record list \<Rightarrow> 'v UpgradeMonitor \<Rightarrow> bool"
  for OS M m0 where
  start: "monitor_run OS M m0 [] m0"
| check: "\<lbrakk>monitor_run OS M m0 run m; check_for_updates OS M m ck d = (u, d1);
           check_for_ready_upgrade OS M m ck d = (r, m', d'); ck_instant ck 0 \<le> ck_instant ck 1;
           \<forall>(ck', _) \<in> set run. ck_instant ck' 1 \<le> ck_instant ck 0\<rbrakk>
          \<Longrightarrow> monitor_run OS M m0 (run @ [(ck, u, r)]) m'"

inductive_cases monitor_run_lastE: "monitor_run OS M m0 (run @ [e]) m"

text \<open>\<open>still_offered\<close>: a check that failed, or that found this version.\<close>

definition still_offered :: "'v \<Rightarrow> 'v check_record \<Rightarrow> bool" where
  "still_offered v e \<longleftrightarrow> (\<forall>x. fst (snd e) = Inr x \<longrightarrow> (\<exists>info. x = Some info \<and> ui_version info = v))"

definition waiting_since :: "'v check_record list \<Rightarrow> 'v \<Rightarrow> nat \<Rightarrow> bool" where
  "waiting_since run v t \<longleftrightarrow>
     (\<exists>before ck u r after. run = before @ (ck, u, r) # after \<and> ck_instant ck 0 = t \<and>
        (\<exists>info. u = Inr (Some info) \<and> ui_version info = v) \<and> (\<forall>e \<in> set after. still_offered v e))"

definition pending_inv :: "'v check_record list \<Rightarrow> 'v UpgradeMonitor \<Rightarrow> bool" where
  "pending_inv run m \<longleftrightarrow>
     (case (pending_upgrade_version m, pending_upgrade_detected m) of
        (None, None) \<Rightarrow> True | (Some v, Some t) \<Rightarrow> waiting_since run v t | _ \<Rightarrow> False)"

lemma waiting_since_snoc: "waiting_since run v t \<Longrightarrow> still_offered v e \<Longrightarrow> waiting_since (run @ [e]) v t"
  unfolding waiting_since_def by (elim exE) (rule exI, rule exI, rule exI, rule exI, rule_tac x = "after @ [e]" in exI, auto)

lemma waiting_since_now: "waiting_since (run @ [(ck, Inr (Some info), r)]) (ui_version info) (ck_instant ck 0)"
  unfolding waiting_since_def by (intro exI [of _ run] exI [of _ ck] exI [of _ "Inr (Some info)"] exI [of _ r] exI [of _ "[]"]) auto

text \<open>What one check does to the monitor, by what the releases offered.\<close>

lemma check_outcome:
  assumes "check_for_updates OS M m ck d = (u, d1)" "check_for_ready_upgrade OS M m ck d = (r, m', d')"
    "staged_rollout m = Some ro" "pending_inv run m"
  shows "staged_rollout m' = Some ro \<and> pending_inv (run @ [(ck, u, r)]) m' \<and>
     (\<forall>info. r = Inr (Some info) \<longrightarrow> u = Inr (Some info) \<and> pending_upgrade_version m' = Some (ui_version info) \<and>
        (\<exists>t. pending_upgrade_detected m' = Some t \<and>
           calculate_delay_for_version (mo_semver M) (mo_rollout M) ro (ui_version info) \<le> ck_instant ck 1 - t))"
proof -
  consider (failed) e where "u = Inl e" | (nothing) "u = Inr None" | (found) info where "u = Inr (Some info)"
    by (metis old.sum.exhaust option.exhaust)
  then show ?thesis
  proof cases
    case failed
    then have "m' = m" "r = Inl e" using assms(1,2) by (simp_all add: check_for_ready_upgrade_def)
    moreover have "still_offered v (ck, u, r)" for v using failed by (simp add: still_offered_def)
    ultimately show ?thesis
      using assms(3,4) by (auto simp: pending_inv_def waiting_since_snoc split: option.splits)
  next
    case nothing
    then show ?thesis using assms(1-3) by (auto simp: check_for_ready_upgrade_def pending_inv_def)
  next
    case found
    have seen: "still_offered (ui_version info) (ck, u, r)" using found by (simp add: still_offered_def)
    show ?thesis
    proof (cases "pending_upgrade_version m = Some (ui_version info)")
      case True
      then obtain t where t: "pending_upgrade_detected m = Some t" "waiting_since run (ui_version info) t"
        using assms(4) by (auto simp: pending_inv_def split: option.splits)
      then show ?thesis
        using assms(1-3) found True waiting_since_snoc [OF t(2) seen]
        by (auto simp: check_for_ready_upgrade_def pending_inv_def Let_def split: if_splits)
    next
      case False
      then show ?thesis
        using assms(1-3) found waiting_since_now [of run ck info r]
        by (auto simp: check_for_ready_upgrade_def pending_inv_def Let_def split: if_splits)
    qed
  qed
qed

lemma monitor_run_inv:
  assumes "monitor_run OS M m0 run m" "staged_rollout m0 = Some ro" "pending_inv [] m0"
  shows "staged_rollout m = Some ro \<and> pending_inv run m"
  using assms
proof (induction rule: monitor_run.induct)
  case (check run m ck d u d1 r m' d')
  then show ?case using check_outcome by blast
qed simp

text \<open>
  C7: With a staged rollout, whatever releases come and go and whichever checks fail, a version is
  released for installation only when the delay of this node for this version has passed since a
  check that offered it, and no check in between answered with another version or with none.
\<close>

theorem rollout_delay_respected:
  assumes "monitor_run OS M m0 (run @ [(ck, u, Inr (Some info))]) m" "staged_rollout m0 = Some ro"
    and "pending_upgrade_version m0 = None" "pending_upgrade_detected m0 = None"
  shows "\<exists>t. waiting_since (run @ [(ck, u, Inr (Some info))]) (ui_version info) t \<and>
           calculate_delay_for_version (mo_semver M) (mo_rollout M) ro (ui_version info) \<le> ck_instant ck 1 - t"
proof -
  obtain m' d d1 d' where check: "monitor_run OS M m0 run m'" "check_for_updates OS M m' ck d = (u, d1)"
    "check_for_ready_upgrade OS M m' ck d = (Inr (Some info), m, d')"
    using assms(1) by (auto elim: monitor_run_lastE)
  have "pending_inv [] m0" using assms(3,4) by (simp add: pending_inv_def)
  then have "staged_rollout m' = Some ro" "pending_inv run m'" using monitor_run_inv [OF check(1) assms(2)] by auto
  from check_outcome [OF check(2,3) this] show ?thesis by (auto simp: pending_inv_def)
qed

text \<open>
  C39: An upgrade that is held back has a remaining time, which is positive, and a later check that
  finds the same version releases it exactly if that time has passed: the rollout delays an upgrade, it
  does not lose it.
\<close>

theorem rollout_releases_on_time:
  assumes "check_for_ready_upgrade OS M m ck d = (Inr None, m', d')" "check_for_updates OS M m ck d = (Inr (Some info), d1)"
    and "staged_rollout m = Some ro" "pending_upgrade_version m = None \<longleftrightarrow> pending_upgrade_detected m = None"
    and "check_for_updates OS M m' later d2 = (Inr (Some info'), d3)" "ui_version info' = ui_version info"
    and "ck_instant ck 0 \<le> ck_instant ck 1" "ck_instant ck 1 \<le> ck_instant later 1"
    and "\<forall>t. pending_upgrade_detected m = Some t \<longrightarrow> t \<le> ck_instant ck 1"
  shows "\<exists>left. time_until_upgrade M m' (ck_instant ck 1) = Some left \<and> 0 < left \<and>
     fst (check_for_ready_upgrade OS M m' later d2) =
       Inr (if ck_instant ck 1 + left \<le> ck_instant later 1 then Some info' else None)"
proof -
  obtain t where m': "staged_rollout m' = Some ro" "pending_upgrade_version m' = Some (ui_version info)"
    "pending_upgrade_detected m' = Some t" "t \<le> ck_instant ck 1"
    "ck_instant ck 1 - t < calculate_delay_for_version (mo_semver M) (mo_rollout M) ro (ui_version info)"
    using assms(1-4,7,9) by (auto simp: check_for_ready_upgrade_def Let_def not_le split: if_splits option.splits)
  then show ?thesis
    using assms(5,6,8) by (auto simp: time_until_upgrade_def check_for_ready_upgrade_def Let_def)
qed

section \<open>The cache of releases\<close>

definition json_laws :: "json_cache \<Rightarrow> bool" where
  "json_laws J \<longleftrightarrow> (\<forall>x bs. releases_to_json J x = Inr bs \<longrightarrow> releases_from_json J bs = Inr x)"

lemma asset_of_cached [simp]: "asset_of (cached_asset_of a) = a"
  by (simp add: asset_of_def cached_asset_of_def)

lemma release_of_cached [simp]: "release_of (cached_release_of r) = r"
  by (simp add: release_of_def cached_release_of_def comp_def)

lemma tmp_not_cache_file [simp]: "rc_cache_dir rc @ [''releases.json.tmp''] \<noteq> cache_file rc"
  "cache_file rc \<noteq> rc_cache_dir rc @ [''releases.json.tmp'']"
  by (simp_all add: cache_file_def)

lemma write_inner_content:
  assumes "write_inner OS J rc repo rs (Inr n) d = (r, d')"
  shows "case r of
     Inr u \<Rightarrow> \<exists>json. releases_to_json J \<lparr>cs_repo = repo, fetched_at_epoch_secs = n, cs_releases = map cached_release_of rs\<rparr> = Inr json \<and>
                dk_files d' (cache_file rc) = Some json
   | Inl e \<Rightarrow> dk_files d' (cache_file rc) \<in> {None, dk_files d (cache_file rc)}"
  using assms
  by (auto simp: write_inner_def map_err_def split: sum.splits prod.splits dest!: fs_replace_ok fs_replace_error)

text \<open>
  A written release list is what the cache returns, to readers that ask for the same repository
  before it has expired, and nothing to others. A write that fails leaves the cache as it was or empty,
  never with a part of a list.
\<close>

theorem release_cache_roundtrip:
  assumes "json_laws J" "os_fault OS (ReadFile (cache_file rc)) = None"
    and "write_inner OS J rc repo rs (Inr n) d = (r, d')"
  shows "case r of
     Inr u \<Rightarrow> read_if_valid OS J rc repo' (Inr n') d' = (if repo' = repo \<and> n' - n < rc_ttl rc then Some rs else None)
   | Inl e \<Rightarrow> read_if_valid OS J rc repo' (Inr n') d' \<in> {None, read_if_valid OS J rc repo' (Inr n') d}"
  using write_inner_content [OF assms(3)] assms(1,2)
  by (cases r) (auto simp: read_if_valid_def json_laws_def fs_read_def comp_def not_less split: if_splits)

section \<open>A release of version 2\<close>

definition unary_semver :: "nat semver" where
  "unary_semver = \<lparr>sv_parse = (\<lambda>s. Some (length s)), sv_pre = (\<lambda>v. ''''), sv_show = (\<lambda>v. replicate v CHR ''1'')\<rparr>"

definition sample_monitor_env :: "nat monitor_env" where
  "sample_monitor_env =
     \<lparr>mo_semver = unary_semver, mo_platform = \<lparr>pf_arch = ''x86_64'', pf_os = ''linux''\<rparr>,
      mo_rollout = \<lparr>re_blake3 = (\<lambda>bs. [5]), re_utf8 = map of_char, re_scale = min\<rparr>,
      mo_json = \<lparr>releases_to_json = (\<lambda>x. Inl ''''), releases_from_json = (\<lambda>bs. Inl '''')\<rparr>\<rparr>"

definition sample_release :: GitHubRelease where
  "sample_release =
     \<lparr>tag_name = ''v11'', rel_name = ''two'', rel_body = '''', prerelease = False,
      assets = [\<lparr>as_name = ''n-x86_64-linux.zip.sig'', browser_download_url = ''s''\<rparr>,
                \<lparr>as_name = ''n-x86_64-linux.zip'', browser_download_url = ''b''\<rparr>]\<rparr>"

definition sample_info :: "nat UpgradeInfo" where
  "sample_info = \<lparr>ui_version = 2, download_url = ''b'', signature_url = ''s'', release_notes = ''''\<rparr>"

definition sample_monitor :: "nat UpgradeMonitor" where
  "sample_monitor = with_staged_rollout (mo_rollout sample_monitor_env) (UpgradeMonitor_new 1 ''r'' Stable 1) [] 24"

definition sample_check :: "nat \<Rightarrow> check_env" where
  "sample_check t = \<lparr>ck_api = Inr [sample_release], ck_epoch = (\<lambda>i. Inr 0), ck_instant = (\<lambda>i. t), ck_others = (\<lambda>d. d)\<rparr>"

definition quiet_os :: os where
  "quiet_os =
     \<lparr>os_fault = (\<lambda>op. None), os_written = (\<lambda>p. None), os_temp_dir = [''tmp''], os_pid = ''1'', os_show_u64 = (\<lambda>n. ''0''),
      os_hex_encode = (\<lambda>bs. ''''), os_available_space = (\<lambda>p. Inr 0)\<rparr>"

definition empty_disk :: disk where
  "empty_disk = \<lparr>dk_files = Map.empty, dk_dirs = {}\<rparr>"

lemmas sample_monitor_simps = unary_semver_def sample_monitor_env_def sample_release_def sample_info_def sample_monitor_def
  sample_check_def with_staged_rollout_def StagedRollout_new_def UpgradeMonitor_new_def

lemma sample_candidate:
  "release_candidate (mo_semver sample_monitor_env) (mo_platform sample_monitor_env) 1 Stable sample_release = Some sample_info"
  by code_simp

lemma sample_updates:
  "current_version m = 1 \<Longrightarrow> um_channel m = Stable \<Longrightarrow> release_cache m = None \<Longrightarrow>
     check_for_updates OS sample_monitor_env m (sample_check t) d = (Inr (Some sample_info), d)"
  using sample_candidate
  by (simp add: check_for_updates_def select_upgrade_from_releases_def consider_release_def sample_check_def)

lemma sample_delay:
  "calculate_delay_for_version (mo_semver sample_monitor_env) (mo_rollout sample_monitor_env)
     (StagedRollout_new (mo_rollout sample_monitor_env) [] 24) 2 = 5 * 10 ^ 9"
  by (simp add: calculate_delay_for_version_def sample_monitor_simps nanos_of_secs_def)

definition held_monitor :: "nat UpgradeMonitor" where
  "held_monitor = sample_monitor\<lparr>pending_upgrade_detected := Some 10, pending_upgrade_version := Some 2\<rparr>"

lemma sample_fields:
  "current_version sample_monitor = 1" "um_channel sample_monitor = Stable" "release_cache sample_monitor = None"
  "staged_rollout sample_monitor = Some (StagedRollout_new (mo_rollout sample_monitor_env) [] 24)"
  "pending_upgrade_detected sample_monitor = None" "pending_upgrade_version sample_monitor = None"
  "ui_version sample_info = 2"
  by (simp_all add: sample_monitor_simps)

lemma sample_held:
  "check_for_ready_upgrade OS sample_monitor_env sample_monitor (sample_check 10) d = (Inr None, held_monitor, d)"
  using sample_delay
  by (simp add: check_for_ready_upgrade_def sample_updates sample_fields held_monitor_def) (simp add: sample_check_def)

lemma sample_released:
  "check_for_ready_upgrade OS sample_monitor_env held_monitor (sample_check (5 * 10 ^ 9 + 10)) d =
     (Inr (Some sample_info), held_monitor, d)"
  using sample_delay
  by (simp add: check_for_ready_upgrade_def sample_updates sample_fields held_monitor_def) (simp add: sample_check_def)

lemma sample_run:
  "monitor_run quiet_os sample_monitor_env sample_monitor
     ([(sample_check 10, Inr (Some sample_info), Inr None)] @
      [(sample_check (5 * 10 ^ 9 + 10), Inr (Some sample_info), Inr (Some sample_info))]) held_monitor"
proof (rule monitor_run.check)
  have "check_for_updates quiet_os sample_monitor_env sample_monitor (sample_check 10) empty_disk = (Inr (Some sample_info), empty_disk)"
    by (rule sample_updates) (simp_all add: sample_fields)
  from monitor_run.check [OF monitor_run.start this sample_held]
  show "monitor_run quiet_os sample_monitor_env sample_monitor [(sample_check 10, Inr (Some sample_info), Inr None)] held_monitor"
    by (simp add: sample_check_def)
  show "check_for_updates quiet_os sample_monitor_env held_monitor (sample_check (5 * 10 ^ 9 + 10)) empty_disk =
      (Inr (Some sample_info), empty_disk)"
    by (rule sample_updates) (simp_all add: held_monitor_def sample_fields)
qed (rule sample_released, simp_all add: sample_check_def)

theorem rollout_delay_respected_witness:
  "\<exists>t. waiting_since ([(sample_check 10, Inr (Some sample_info), Inr None)] @
        [(sample_check (5 * 10 ^ 9 + 10), Inr (Some sample_info), Inr (Some sample_info))]) 2 t \<and> 5 * 10 ^ 9 \<le> 5 * 10 ^ 9 + 10 - t"
  using rollout_delay_respected [OF sample_run sample_fields(4,6,5)] sample_delay
  by (simp only: sample_fields) (simp add: sample_check_def)

theorem rollout_releases_on_time_witness:
  "fst (check_for_ready_upgrade quiet_os sample_monitor_env held_monitor (sample_check (6 * 10 ^ 9)) empty_disk) = Inr (Some sample_info)"
proof -
  have updates: "check_for_updates quiet_os sample_monitor_env sample_monitor (sample_check 10) empty_disk = (Inr (Some sample_info), empty_disk)"
    "check_for_updates quiet_os sample_monitor_env held_monitor (sample_check (6 * 10 ^ 9)) empty_disk = (Inr (Some sample_info), empty_disk)"
    by (rule sample_updates; simp add: held_monitor_def sample_fields)+
  have left: "time_until_upgrade sample_monitor_env held_monitor 10 = Some (5 * 10 ^ 9)"
    using sample_delay by (simp add: time_until_upgrade_def held_monitor_def sample_fields)
  have "\<exists>left. time_until_upgrade sample_monitor_env held_monitor (ck_instant (sample_check 10) 1) = Some left \<and> 0 < left \<and>
     fst (check_for_ready_upgrade quiet_os sample_monitor_env held_monitor (sample_check (6 * 10 ^ 9)) empty_disk) =
       Inr (if ck_instant (sample_check 10) 1 + left \<le> ck_instant (sample_check (6 * 10 ^ 9)) 1 then Some sample_info else None)"
    by (rule rollout_releases_on_time [OF sample_held updates(1) sample_fields(4) _ updates(2)])
      (simp_all add: sample_fields, simp_all add: sample_check_def)
  then show ?thesis using left by (simp add: sample_check_def)
qed

definition pinned_json :: json_cache where
  "pinned_json =
     (let x = \<lparr>cs_repo = ''r'', fetched_at_epoch_secs = 7, cs_releases = map cached_release_of [sample_release]\<rparr>
      in \<lparr>releases_to_json = (\<lambda>y. if y = x then Inr [1] else Inl ''''),
          releases_from_json = (\<lambda>bs. if bs = [1] then Inr x else Inl '''')\<rparr>)"

theorem release_cache_roundtrip_witness:
  "read_if_valid quiet_os pinned_json (ReleaseCache_new [''c''] 60) ''r'' (Inr 30)
     (snd (write_inner quiet_os pinned_json (ReleaseCache_new [''c''] 60) ''r'' [sample_release] (Inr 7) empty_disk)) =
   Some [sample_release]"
proof -
  let ?rc = "ReleaseCache_new [''c''] 60"
  obtain d' where written: "write_inner quiet_os pinned_json ?rc ''r'' [sample_release] (Inr 7) empty_disk = (Inr (), d')"
    by (simp add: write_inner_def pinned_json_def quiet_os_def fs_replace_def fs_create_def fs_append_def fs_sync_def fs_remove_file_def
        fs_rename_def empty_disk_def Let_def ReleaseCache_new_def cache_file_def)
  have "json_laws pinned_json" by (simp add: json_laws_def pinned_json_def Let_def)
  moreover have "os_fault quiet_os (ReadFile (cache_file ?rc)) = None" by (simp add: quiet_os_def)
  ultimately show ?thesis
    using release_cache_roundtrip [OF _ _ written, of "''r''" 30] written by (simp add: ReleaseCache_new_def)
qed

theorem selected_upgrade_is_newest_witness:
  "select_upgrade_from_releases (mo_semver sample_monitor_env) (mo_platform sample_monitor_env) [sample_release]
     (current_version sample_monitor) (um_channel sample_monitor) = Some sample_info \<and>
   offers (mo_semver sample_monitor_env) (mo_platform sample_monitor_env) 1 Stable sample_release sample_info"
proof -
  have sel: "select_upgrade_from_releases (mo_semver sample_monitor_env) (mo_platform sample_monitor_env) [sample_release]
     (current_version sample_monitor) (um_channel sample_monitor) = Some sample_info"
    using sample_candidate by (simp add: select_upgrade_from_releases_def consider_release_def sample_fields)
  then show ?thesis
    using selected_upgrade_is_newest [where M = sample_monitor_env and rs = "[sample_release]" and m = sample_monitor]
    by (simp add: sample_fields Cons_eq_append_conv)
qed

end
