(* ===== verification/Upgrader.thy ===== *)
theory Upgrader
  imports Upgrade_Apply_Correct Upgrade_Monitor_Correct
begin

text \<open>
  The class \<open>Upgrader\<close> of \<open>src/ant-node/src/upgrade/mod.rs\<close>, which installs a signed binary that is not in an
  archive, and one round of the upgrade task of \<open>RunningNode::run\<close> in \<open>src/ant-node/src/node.rs\<close>.
\<close>

section \<open>Upgrades without an archive\<close>

record 'v Upgrader =
  ur_current_version :: 'v

definition MAX_BINARY_SIZE_BYTES :: nat where "MAX_BINARY_SIZE_BYTES = 200 * 1024 * 1024"

definition validate_upgrade :: "'v::linorder Upgrader \<Rightarrow> 'v UpgradeInfo \<Rightarrow> node_error + unit" where
  "validate_upgrade ur info =
     (if ui_version info \<le> ur_current_version ur then Inl (Upgrade ''Cannot downgrade'') else Inr ())"

definition rollback_path :: "path \<Rightarrow> path \<Rightarrow> path" where
  "rollback_path rollback_dir current = rollback_dir @ [last current @ ''.backup'']"

definition create_backup :: "os \<Rightarrow> path \<Rightarrow> path \<Rightarrow> disk \<Rightarrow> (node_error + unit) \<times> disk" where
  "create_backup OS current rollback_dir d =
     (if current = [] then (Inl (Upgrade ''Invalid binary path''), d)
      else (let (r, d1) = fs_copy OS current (rollback_path rollback_dir current) d in (map_err NodeIo r, d1)))"

definition restore_from_backup :: "os \<Rightarrow> path \<Rightarrow> path \<Rightarrow> disk \<Rightarrow> (node_error + unit) \<times> disk" where
  "restore_from_backup OS current rollback_dir d =
     (if current = [] then (Inl (Upgrade ''Invalid binary path''), d)
      else if \<not> fs_exists (rollback_path rollback_dir current) d then (Inl (Upgrade ''No backup found for rollback''), d)
      else (let (r, d1) = fs_copy OS (rollback_path rollback_dir current) current d in (map_err NodeIo r, d1)))"

definition atomic_replace :: "os \<Rightarrow> path \<Rightarrow> path \<Rightarrow> disk \<Rightarrow> (node_error + unit) \<times> disk" where
  "atomic_replace OS new_binary target d =
     (case (if fs_exists target d then fs_set_permissions OS new_binary else Inr ()) of
        Inl e \<Rightarrow> (Inl (NodeIo e), d)
      | Inr u \<Rightarrow> (let (r, d1) = fs_rename OS new_binary target d in (map_err NodeIo r, d1)))"

definition enforce_max_binary_size :: "nat \<Rightarrow> node_error + unit" where
  "enforce_max_binary_size len =
     (if MAX_BINARY_SIZE_BYTES < len then Inl (Upgrade ''Downloaded binary too large'') else Inr ())"

definition upgrader_download ::
  "os \<Rightarrow> 'v upgrade_env \<Rightarrow> nat \<Rightarrow> string \<Rightarrow> path \<Rightarrow> disk \<Rightarrow> (node_error + unit) \<times> disk" where
  "upgrader_download OS U i url dest d =
     (case ue_http U i url of
        Inl e \<Rightarrow> (Inl (Network e), d)
      | Inr (status, payload) \<Rightarrow>
          if \<not> (200 \<le> status \<and> status < 300) then (Inl (Network ''Download returned status''), d)
          else
            (case payload of
               Inl e \<Rightarrow> (Inl (Network e), d)
             | Inr bs \<Rightarrow>
                 (case enforce_max_binary_size (length bs) of
                    Inl e \<Rightarrow> (Inl e, d)
                  | Inr u \<Rightarrow> (let (r, d1) = fs_write OS dest bs d in (map_err NodeIo r, d1)))))"

definition create_tempdir_in_target_dir ::
  "os \<Rightarrow> 'v upgrade_env \<Rightarrow> path \<Rightarrow> disk \<Rightarrow> (node_error + path) \<times> disk" where
  "create_tempdir_in_target_dir OS U current_binary d =
     (if current_binary = [] then (Inl (Upgrade ''Current binary has no parent directory''), d)
      else
        (let dir = butlast current_binary @ [ue_temp_name U]; (r, d1) = fs_create_dir OS dir d
         in (map_err Upgrade (try_bind r (\<lambda>u. Inr dir)), d1)))"

definition auto_upgrade_supported :: bool where "auto_upgrade_supported = True"

text \<open>The part of \<open>perform_upgrade\<close> during which the temporary directory exists.\<close>

definition perform_in_temp ::
  "os \<Rightarrow> 'v upgrade_env \<Rightarrow> 'v UpgradeInfo \<Rightarrow> path \<Rightarrow> path \<Rightarrow> path \<Rightarrow> disk \<Rightarrow> (node_error + 'v UpgradeResult) \<times> disk" where
  "perform_in_temp OS U info current_binary rollback_dir temp_dir d =
     (let new_binary = temp_dir @ [''new_binary'']; sig_path = temp_dir @ [''signature'']
      in case upgrader_download OS U 0 (download_url info) new_binary d of
           (Inl e, d1) \<Rightarrow> (Inr (RolledBack (DownloadFailed e)), d1)
         | (Inr u, d1) \<Rightarrow>
             (case upgrader_download OS U 1 (signature_url info) sig_path d1 of
                (Inl e, d2) \<Rightarrow> (Inr (RolledBack (SignatureDownloadFailed e)), d2)
              | (Inr u, d2) \<Rightarrow>
                  (case verify_from_file OS (ue_dsa U) new_binary sig_path d2 of
                     Inl e \<Rightarrow> (Inr (RolledBack (SignatureVerificationFailed e)), d2)
                   | Inr u \<Rightarrow>
                       (case atomic_replace OS new_binary current_binary d2 of
                          (Inr u, d3) \<Rightarrow> (Inr (Success (ui_version info) 0), d3)
                        | (Inl e, d3) \<Rightarrow>
                            (case restore_from_backup OS current_binary rollback_dir d3 of
                               (Inl e', d4) \<Rightarrow> (Inl critical_error, d4)
                             | (Inr u, d4) \<Rightarrow> (Inr (RolledBack (ReplacementFailed e)), d4))))))"

definition perform_upgrade ::
  "os \<Rightarrow> 'v::linorder upgrade_env \<Rightarrow> 'v Upgrader \<Rightarrow> 'v UpgradeInfo \<Rightarrow> path \<Rightarrow> path \<Rightarrow> disk \<Rightarrow>
   (node_error + 'v UpgradeResult) \<times> disk" where
  "perform_upgrade OS U ur info current_binary rollback_dir d =
     (if \<not> auto_upgrade_supported then (Inr (RolledBack NotSupported), d)
      else
        (case validate_upgrade ur info of
           Inl e \<Rightarrow> (Inl e, d)
         | Inr u \<Rightarrow>
             (case create_backup OS current_binary rollback_dir d of
                (Inl e, d1) \<Rightarrow> (Inl e, d1)
              | (Inr u, d1) \<Rightarrow>
                  (case create_tempdir_in_target_dir OS U current_binary d1 of
                     (Inl e, d2) \<Rightarrow> (Inl e, d2)
                   | (Inr temp_dir, d2) \<Rightarrow>
                       (let (r, d3) = perform_in_temp OS U info current_binary rollback_dir temp_dir d2
                        in (r, fs_remove_dir_all OS temp_dir d3))))))"

lemma upgrader_download_changes: "upgrader_download OS U i url (dir @ [x]) d = (r, d') \<Longrightarrow> changes_in dir d d'"
  by (auto simp: upgrader_download_def Let_def split: sum.splits prod.splits if_splits dest: changes_in_op)

lemma atomic_replace_result:
  assumes "atomic_replace OS new target d = (r, d')" "new \<noteq> target"
  shows "case r of Inl e \<Rightarrow> d' = d | Inr u \<Rightarrow> dk_files d' target = dk_files d new"
  using assms
  by (auto simp: atomic_replace_def fs_rename_def Let_def split: sum.splits option.splits prod.splits if_splits)

lemma perform_in_temp_ok:
  assumes "perform_in_temp OS U info target rollback_dir temp d = (r, d')" "temp = butlast target @ [n]" "target \<noteq> []"
    and "rollback_dir \<noteq> temp" "dk_files d target = Some old" "dk_files d (rollback_path rollback_dir target) = Some old"
  shows "case r of
      Inr (Success v code) \<Rightarrow> v = ui_version info \<and> (\<exists>c. dk_files d' target = Some c \<and> release_signed U c)
    | Inr _ \<Rightarrow> dk_files d' target = Some old
    | Inl e \<Rightarrow> e = critical_error"
proof -
  let ?new = "temp @ [''new_binary'']" and ?sig = "temp @ [''signature'']" and ?backup = "rollback_path rollback_dir target"
  obtain c1 d1 where new: "upgrader_download OS U 0 (download_url info) ?new d = (c1, d1)" by fastforce
  obtain c2 d2 where sig: "upgrader_download OS U 1 (signature_url info) ?sig d1 = (c2, d2)" by fastforce
  obtain c3 d3 where replace: "atomic_replace OS ?new target d2 = (c3, d3)" by fastforce
  obtain c4 d4 where restore: "restore_from_backup OS target rollback_dir d3 = (c4, d4)" by fastforce
  have 1: "changes_in temp d d1" by (rule upgrader_download_changes [OF new])
  have 2: "changes_in temp d d2" by (rule changes_in_trans [OF 1 upgrader_download_changes [OF sig]])
  have dirs: "butlast target \<noteq> temp" "butlast ?backup \<noteq> temp" using assms(2,4) by (auto simp: rollback_path_def)
  then have outside: "butlast target \<noteq> temp" "butlast ?backup \<noteq> temp" "?new \<noteq> target" by (metis butlast_snoc)+
  have old: "dk_files d1 target = Some old" "dk_files d2 target = Some old" "dk_files d2 ?backup = Some old"
    using changes_inD [OF 1] changes_inD [OF 2] outside assms(5,6) by auto
  note replaced = atomic_replace_result [OF replace outside(3)]
  have restored: "dk_files d4 target = Some old" if "d3 = d2" "c4 = Inr u" for u
    using restore that old(3) assms(3) by (auto simp: restore_from_backup_def fs_copy_def Let_def split: option.splits if_splits)
  have content: "\<exists>c. dk_files d2 ?new = Some c \<and> release_signed U c" if "verify_from_file OS (ue_dsa U) ?new ?sig d2 = Inr u" for u
    using verify_from_file_signed [OF that] .
  show ?thesis
    using assms(1) old replaced restored content
    by (cases c1; cases c2; cases "verify_from_file OS (ue_dsa U) ?new ?sig d2"; cases c3; cases c4)
      (auto simp del: One_nat_def simp: perform_in_temp_def Let_def new sig replace restore)
qed

text \<open>
  C25: The upgrade without an archive ends in one of three ways: a success, for a newer version, with a binary that
  the release key has signed; the critical error; or, by a rollback or any other error, with the binary it had.
\<close>

theorem perform_upgrade_all_or_nothing:
  assumes "perform_upgrade OS U ur info target rollback_dir d = (r, d')" "target \<noteq> []" "last target \<noteq> ue_temp_name U"
    and "rollback_dir \<noteq> butlast target @ [ue_temp_name U]" "rollback_path rollback_dir target \<noteq> target"
    and "dk_files d target = Some old"
  shows "case r of
      Inr (Success v code) \<Rightarrow>
        v = ui_version info \<and> ur_current_version ur < v \<and> (\<exists>c. dk_files d' target = Some c \<and> release_signed U c)
    | Inr _ \<Rightarrow> dk_files d' target = Some old
    | Inl e \<Rightarrow> e = critical_error \<or> dk_files d' target = Some old"
proof (cases "validate_upgrade ur info")
  case (Inl e)
  then show ?thesis using assms(1,6) by (auto simp: perform_upgrade_def auto_upgrade_supported_def)
next
  case (Inr u)
  then have newer: "ur_current_version ur < ui_version info" by (auto simp: validate_upgrade_def split: if_splits)
  let ?backup = "rollback_path rollback_dir target" and ?temp = "butlast target @ [ue_temp_name U]"
  obtain c1 d1 where backup: "create_backup OS target rollback_dir d = (c1, d1)" by fastforce
  have d1: "dk_files d1 target = Some old" "\<And>u. c1 = Inr u \<Longrightarrow> dk_files d1 ?backup = Some old"
    using backup assms(2,5,6) by (auto simp: create_backup_def fs_copy_def partial_write_def Let_def split: option.splits)
  obtain c2 d2 where temp: "create_tempdir_in_target_dir OS U target d1 = (c2, d2)" by fastforce
  have d2: "dk_files d2 = dk_files d1" "\<And>t. c2 = Inr t \<Longrightarrow> t = ?temp"
    using temp assms(2)
    by (auto simp: create_tempdir_in_target_dir_def fs_create_dir_def Let_def split: option.splits if_splits)
  obtain r3 d3 where run: "perform_in_temp OS U info target rollback_dir ?temp d2 = (r3, d3)" by fastforce
  have outcome: "case r3 of
      Inr (Success v code) \<Rightarrow> v = ui_version info \<and> (\<exists>c. dk_files d3 target = Some c \<and> release_signed U c)
    | Inr _ \<Rightarrow> dk_files d3 target = Some old
    | Inl e \<Rightarrow> e = critical_error" if "c1 = Inr u" for u
    using perform_in_temp_ok [OF run refl assms(2,4)] d1 d2(1) that by simp
  show ?thesis
    using assms(1) Inr newer backup temp d1(1) d2 run outcome remove_temp(1) [OF assms(2,3), of OS d3]
    by (cases c1; cases c2)
      (auto simp: perform_upgrade_def auto_upgrade_supported_def Let_def split: sum.splits UpgradeResult.splits)
qed

section \<open>The upgrade task\<close>

text \<open>The random number generator is an argument that picks a number up to a bound.\<close>

definition jittered_interval :: "(nat \<Rightarrow> nat) \<Rightarrow> nat \<Rightarrow> nat" where
  "jittered_interval pick base =
     (let secs = base div 10 ^ 9; variance = secs div 20
      in if variance = 0 then base else nanos_of_secs (secs - variance + pick (variance * 2)))"

datatype next_step = ExitWith int | SleepFor nat

definition sleep_duration :: "'v monitor_env \<Rightarrow> (nat \<Rightarrow> nat) \<Rightarrow> 'v UpgradeMonitor \<Rightarrow> nat \<Rightarrow> nat" where
  "sleep_duration M pick m now =
     (case time_until_upgrade M m now of
        None \<Rightarrow> jittered_interval pick (check_interval m)
      | Some remaining \<Rightarrow> if remaining = 0 then jittered_interval pick (check_interval m) else remaining)"

text \<open>One round: the check, the event \<open>UpgradeAvailable\<close>, the upgrade, and what comes next.\<close>

definition upgrade_round ::
  "os \<Rightarrow> 'v::linorder monitor_env \<Rightarrow> 'v upgrade_env \<Rightarrow> process \<Rightarrow> 'v AutoApplyUpgrader \<Rightarrow> (nat \<Rightarrow> nat) \<Rightarrow> check_env \<Rightarrow> nat \<Rightarrow>
   'v UpgradeMonitor \<Rightarrow> disk \<Rightarrow> next_step \<times> 'v UpgradeMonitor \<times> disk \<times> string list \<times> spawned" where
  "upgrade_round OS M U P up pick ck now m d =
     (case check_for_ready_upgrade OS M m ck d of
        (Inr (Some info), m1, d1) \<Rightarrow>
          (case apply_upgrade OS U P up info d1 of
             (Inr (Success version exit_code), d2, sp) \<Rightarrow>
               (ExitWith exit_code, m1, d2, [sv_show (mo_semver M) (ui_version info)], sp)
           | (_, d2, sp) \<Rightarrow>
               (SleepFor (sleep_duration M pick m1 now), m1, d2, [sv_show (mo_semver M) (ui_version info)], sp))
      | (_, m1, d1) \<Rightarrow> (SleepFor (sleep_duration M pick m1 now), m1, d1, [], []))"

lemma check_keeps_interval:
  "check_for_ready_upgrade OS M m ck d = (r, m', d') \<Longrightarrow> check_interval m' = check_interval m"
  by (auto simp: check_for_ready_upgrade_def Let_def split: sum.splits option.splits prod.splits if_splits)

lemma jittered_positive: "0 < base \<Longrightarrow> 0 < jittered_interval pick base"
proof -
  assume base: "0 < base"
  have "0 < s - s div 20" if "s div 20 \<noteq> 0" for s :: nat
  proof -
    have "s div 20 < s" by (rule div_less_dividend) (use that in auto)
    then show ?thesis by simp
  qed
  then show ?thesis using base by (auto simp: jittered_interval_def nanos_of_secs_def Let_def)
qed

lemma sleep_positive: "0 < check_interval m \<Longrightarrow> 0 < sleep_duration M pick m now"
  by (auto simp: sleep_duration_def jittered_positive split: option.splits)

text \<open>
  C40: The task never spins and never exits by mistake: a round ends with a sleep of positive length, or it asks the
  process to exit, and then the monitor released an upgrade in this round, to a version above the running one,
  and that upgrade succeeded. Without a success the failed upgrade is tried again after a pause.
\<close>

theorem upgrade_round_progress:
  assumes "upgrade_round OS M U P up pick ck now m d = (next_step, m', d', events, sp)" "0 < check_interval m"
  shows "case next_step of
      SleepFor t \<Rightarrow> 0 < t
    | ExitWith code \<Rightarrow>
        \<exists>info d1. check_for_ready_upgrade OS M m ck d = (Inr (Some info), m', d1) \<and>
          apply_upgrade OS U P up info d1 = (Inr (Success (ui_version info) code), d', sp) \<and>
          au_current_version up < ui_version info \<and> events = [sv_show (mo_semver M) (ui_version info)]"
proof -
  obtain r m1 d1 where check: "check_for_ready_upgrade OS M m ck d = (r, m1, d1)" by (cases "check_for_ready_upgrade OS M m ck d") auto
  have positive: "0 < sleep_duration M pick m1 now" using check_keeps_interval [OF check] assms(2) sleep_positive by metis
  show ?thesis
  proof (cases "\<exists>info. r = Inr (Some info)")
    case False
    then show ?thesis
      using assms(1) positive check by (cases r) (auto simp: upgrade_round_def split: option.splits)
  next
    case True
    then obtain info where r: "r = Inr (Some info)" by blast
    obtain a d2 sp' where run: "apply_upgrade OS U P up info d1 = (a, d2, sp')" by (cases "apply_upgrade OS U P up info d1") auto
    have success: "v = ui_version info \<and> au_current_version up < ui_version info" if "a = Inr (Success v code)" for v code
      using run that
      by (auto simp: apply_upgrade_def apply_in_temp_def Let_def result_simps
          split: if_splits sum.splits prod.splits)
    show ?thesis
      using assms(1) positive check r run success
      by (cases a) (auto simp: upgrade_round_def split: UpgradeResult.splits)
  qed
qed

section \<open>Concrete runs\<close>

lemma sample_upgrader_download:
  "upgrader_download hex_os sample_upgrade_env 0 url p d = (Inr (), d\<lparr>dk_files := (dk_files d)(p \<mapsto> [0x1f, 0x8b, 5])\<rparr>)"
  "upgrader_download hex_os sample_upgrade_env 1 url p d = (Inr (), d\<lparr>dk_files := (dk_files d)(p \<mapsto> replicate 3309 0)\<rparr>)"
  by (simp_all add: upgrader_download_def enforce_max_binary_size_def sample_upgrade_env_def MAX_BINARY_SIZE_BYTES_def hex_os_ops)

lemma sample_perform:
  "\<exists>d'. perform_upgrade hex_os sample_upgrade_env \<lparr>ur_current_version = 2\<rparr> upgrade_3 [''bin'', ''ant-node''] [''old''] node_disk =
     (Inr (Success 3 0), d')"
proof -
  let ?target = "[''bin'', ''ant-node'']" and ?new = "[''bin'', ''ant-upgrade-x'', ''new_binary'']"
    and ?sig = "[''bin'', ''ant-upgrade-x'', ''signature'']"
  let ?d1 = "node_disk\<lparr>dk_files := (dk_files node_disk)([''old'', ''ant-node.backup''] \<mapsto> [1])\<rparr>"
  let ?d2 = "?d1\<lparr>dk_dirs := insert [''bin'', ''ant-upgrade-x''] (dk_dirs ?d1)\<rparr>"
  let ?d3 = "?d2\<lparr>dk_files := (dk_files ?d2)(?new \<mapsto> [0x1f, 0x8b, 5])\<rparr>"
  let ?d4 = "?d3\<lparr>dk_files := (dk_files ?d3)(?sig \<mapsto> replicate 3309 0)\<rparr>"
  have verified: "verify_from_file hex_os (ue_dsa sample_upgrade_env) ?new ?sig ?d4 = Inr ()"
    by (rule sample_verify) simp_all
  have replaced: "\<exists>d5. atomic_replace hex_os ?new ?target ?d4 = (Inr (), d5)"
    by (simp add: atomic_replace_def fs_exists_def hex_os_ops)
  have "\<exists>d5. perform_in_temp hex_os sample_upgrade_env upgrade_3 ?target [''old''] [''bin'', ''ant-upgrade-x''] ?d2 = (Inr (Success 3 0), d5)"
    using replaced unfolding perform_in_temp_def Let_def append_Cons append_Nil sample_upgrader_download prod.case sum.case verified
    by (auto simp: upgrade_3_def)
  moreover have "create_backup hex_os ?target [''old''] node_disk = (Inr (), ?d1)"
    by (simp add: create_backup_def rollback_path_def node_disk_def hex_os_ops)
  moreover have "create_tempdir_in_target_dir hex_os sample_upgrade_env ?target ?d1 = (Inr [''bin'', ''ant-upgrade-x''], ?d2)"
    by (simp add: create_tempdir_in_target_dir_def node_disk_def hex_os_ops sample_upgrade_env_def Let_def)
  moreover have "validate_upgrade \<lparr>ur_current_version = 2\<rparr> upgrade_3 = Inr ()" by (simp add: validate_upgrade_def upgrade_3_def)
  ultimately show ?thesis
    unfolding perform_upgrade_def auto_upgrade_supported_def by auto
qed

theorem perform_upgrade_all_or_nothing_witness:
  "\<exists>d' c. perform_upgrade hex_os sample_upgrade_env \<lparr>ur_current_version = 2\<rparr> upgrade_3 [''bin'', ''ant-node''] [''old''] node_disk =
     (Inr (Success 3 0), d') \<and> dk_files d' [''bin'', ''ant-node''] = Some c \<and> release_signed sample_upgrade_env c"
proof -
  obtain d' where run: "perform_upgrade hex_os sample_upgrade_env \<lparr>ur_current_version = 2\<rparr> upgrade_3 [''bin'', ''ant-node''] [''old''] node_disk =
     (Inr (Success 3 0), d')"
    using sample_perform by blast
  have "ue_temp_name sample_upgrade_env = ''ant-upgrade-x''" by (simp add: sample_upgrade_env_def)
  then show ?thesis
    using perform_upgrade_all_or_nothing [OF run, of "[1]"] run by (auto simp: rollback_path_def node_disk_def)
qed

text \<open>A monitor without staged rollout, and a check that finds a release the upgrader installs.\<close>

definition prompt_monitor :: "nat UpgradeMonitor" where
  "prompt_monitor = UpgradeMonitor_new 2 ''r'' Stable 1"

definition prompt_check :: check_env where
  "prompt_check = sample_check 0\<lparr>ck_api := Inr [sample_release\<lparr>tag_name := ''v111''\<rparr>]\<rparr>"

lemma prompt_candidate:
  "release_candidate (mo_semver sample_monitor_env) (mo_platform sample_monitor_env) 2 Stable (sample_release\<lparr>tag_name := ''v111''\<rparr>) =
     Some upgrade_3"
  by code_simp

lemma prompt_ready:
  "check_for_ready_upgrade hex_os sample_monitor_env prompt_monitor prompt_check node_disk = (Inr (Some upgrade_3), prompt_monitor, node_disk)"
  using prompt_candidate
  by (simp add: check_for_ready_upgrade_def check_for_updates_def select_upgrade_from_releases_def consider_release_def
      prompt_check_def prompt_monitor_def UpgradeMonitor_new_def)

theorem upgrade_round_progress_witness:
  "(case fst (upgrade_round quiet_os sample_monitor_env sample_upgrade_env sample_process sample_upgrader (\<lambda>n. n)
       (sample_check (5 * 10 ^ 9 + 10)) (5 * 10 ^ 9 + 10) held_monitor empty_disk) of
     SleepFor t \<Rightarrow> 0 < t | ExitWith code \<Rightarrow> False) \<and>
   fst (upgrade_round hex_os sample_monitor_env sample_upgrade_env sample_process sample_upgrader (\<lambda>n. n)
     prompt_check 0 prompt_monitor node_disk) = ExitWith 0 \<and>
   (\<exists>info. fst (check_for_ready_upgrade hex_os sample_monitor_env prompt_monitor prompt_check node_disk) = Inr (Some info) \<and>
      2 < ui_version info)"
proof -
  let ?round = "upgrade_round quiet_os sample_monitor_env sample_upgrade_env sample_process sample_upgrader (\<lambda>n. n)
       (sample_check (5 * 10 ^ 9 + 10)) (5 * 10 ^ 9 + 10) held_monitor empty_disk"
    and ?exit = "upgrade_round hex_os sample_monitor_env sample_upgrade_env sample_process sample_upgrader (\<lambda>n. n)
       prompt_check 0 prompt_monitor node_disk"
  have version: "au_current_version sample_upgrader = 2"
    by (simp add: sample_upgrader_def with_binary_cache_def AutoApplyUpgrader_new_def)
  obtain t d' events sp where round: "?round = (SleepFor t, held_monitor, d', events, sp)"
    unfolding upgrade_round_def sample_released by (simp add: apply_upgrade_def sample_fields version)
  have "0 < check_interval held_monitor"
    by (simp add: held_monitor_def sample_monitor_simps nanos_of_secs_def)
  then have slept: "0 < t" using upgrade_round_progress [OF round] by simp
  obtain d2 sp2 events2 where exit: "?exit = (ExitWith 0, prompt_monitor, d2, events2, sp2)"
    unfolding upgrade_round_def prompt_ready using sample_result by (auto simp: upgrade_3_def split: prod.splits)
  have "0 < check_interval prompt_monitor" by (simp add: prompt_monitor_def UpgradeMonitor_new_def nanos_of_secs_def)
  with upgrade_round_progress [OF exit] have
    "\<exists>info. fst (check_for_ready_upgrade hex_os sample_monitor_env prompt_monitor prompt_check node_disk) = Inr (Some info) \<and>
       2 < ui_version info"
    by (auto simp: version)
  then show ?thesis using slept unfolding round exit by simp
qed

end
