(* ===== verification/Spec2Isabelle.thy ===== *)
theory Spec2Isabelle
  imports Stream_Decrypt_Correct Stream_Encrypt_Correct Browser_Node Client_Node Merkle_Upload_Correct File_Upload_Correct Upgrader
begin

text \<open>
  A verification development for the storage network of this repository: the convergent
  self-encryption of files (\<open>src/self_encryption\<close>), the protocol between clients and nodes
  (\<open>src/ant-protocol\<close>), the storage node with its payment verification and chunk store
  (\<open>src/ant-node\<close>), the browser client (\<open>src/ant-wasm\<close>) and the native client
  (\<open>src/ant-client/ant-core\<close>).

  How the parts interact. Data is cut into chunks, each encrypted with keys from the hashes of its
  neighbours and addressed by the hash of its ciphertext; a data map lists the chunks and is itself
  encrypted and shrunk until three chunks remain. The native client asks the five nodes closest to an
  address for quotes, pays the median (or one merkle tree for many chunks) and sends chunk and proof
  to the nodes. A node answers a PUT by checking size, address, presence and payment, in this order,
  and stores the chunk in LMDB. The browser client opens a post-quantum tunnel over WebTransport and
  reads the data map and the chunks through it; the server hands the decrypted request to the same
  handler, and asks the network for a chunk the node does not hold.

  Theories and sources. Each theory names the files and functions it models in its first text.

  \<^item> \<open>Prelude\<close>: bytes, results of fallible operations, slices, byte encodings, hash maps.
  \<^item> \<open>Chunking\<close> (\<open>self_encryption/src/utils.rs\<close>): numbers, sizes and positions of chunks; they
    partition the file and are bounded by the maximum size, with one exception.
  \<^item> \<open>Data_Map\<close> (\<open>data_map.rs\<close>, \<open>error.rs\<close>): data maps, their versioned form, errors.
  \<^item> \<open>Self_Encryption\<close>, \<open>Self_Encryption_Correct\<close>, \<open>Self_Encryption_Properties\<close>, \<open>Own_Chunks\<close>
    (\<open>lib.rs\<close>, \<open>encrypt.rs\<close>, \<open>decrypt.rs\<close>, \<open>cipher.rs\<close>, \<open>hash.rs\<close>): encryption, shrinking and
    decryption in memory; the loops refine a loop-free specification and decryption undoes encryption.
  \<^item> \<open>Stream_Decrypt(_Correct)\<close>, \<open>Stream_Encrypt(_Correct)\<close> (\<open>stream_decrypt.rs\<close>,
    \<open>stream_encrypt.rs\<close>): the iterators; they compute what the functions in memory compute, for every
    cut of the input, batch size and order of answers.
  \<^item> \<open>Chunk_Protocol\<close>, \<open>Pqc_Tunnel\<close> (\<open>ant-protocol\<close>): messages, envelopes, nonces, session cipher.
  \<^item> \<open>Wt_Session(_Correct)\<close> (\<open>ant-wasm/src/transport.rs\<close>, \<open>ant-node/src/webtransport/server.rs\<close>):
    both ends of the tunnel; agreement and authentication of the handshake, uniqueness of nonces for
    every interleaving of stream tasks (an inductive step relation).
  \<^item> \<open>Lmdb_Storage(_Correct)\<close> (\<open>ant-node/src/storage/lmdb.rs\<close>): the chunk store; it refines a
    specification over maps, and its capacity holds for every interleaving of transactions.
  \<^item> \<open>Lru\<close>, \<open>Verified_Cache\<close>, \<open>Payment_Proof\<close>, \<open>Quoting_Metrics\<close>, \<open>Quote\<close>,
    \<open>Payment_Verifier(_Correct)\<close>, \<open>Single_Node\<close> (\<open>ant-node/src/payment\<close>): caches, proofs, metrics,
    quotes and the verification of payments, against declarative specifications.
  \<^item> \<open>Node_Error\<close>, \<open>Ant_Handler(_Correct)\<close> (\<open>error.rs\<close>, \<open>storage/handler.rs\<close>): the request
    handler composed of store, verifier and quotes; its invariant over sequences of requests.
  \<^item> \<open>Node_Client\<close> (\<open>ant-node/src/client\<close>, network fetch of the server), \<open>Wasm_Client\<close>
    (\<open>ant-wasm/src/client.rs\<close>, \<open>lib.rs\<close>), \<open>Browser_Node\<close>: the browser client, and a download
    through all layers.
  \<^item> \<open>Chunk_Client\<close>, \<open>Client_Payment\<close>, \<open>Batch_Upload\<close>, \<open>Merkle_Upload(_Correct)\<close>, \<open>Client_Node\<close>
    (\<open>ant-client/ant-core/src/data\<close>): the native client, and its payments against the verifier.
  \<^item> \<open>Data_Client(_Correct)\<close> (\<open>data.rs\<close>), \<open>Disk\<close>, \<open>File_Client\<close>, \<open>File_Upload_Correct\<close>,
    \<open>File_Download_Correct\<close> (\<open>file.rs\<close>): uploads and downloads of data in memory and of files. \<open>Disk\<close> holds
    the operations of \<open>std::fs\<close>, each of which may fail and leave a part of what it wrote. A spill holds
    the encryption of the file and is gone afterwards; a download writes all of the data or nothing.
  \<^item> \<open>Upgrade_Monitor(_Correct)\<close>, \<open>Upgrade_Apply(_Correct)\<close>, \<open>Upgrader\<close> (\<open>ant-node/src/upgrade\<close>, upgrade
    task of \<open>node.rs\<close>): selection of releases, staged rollout (an inductive relation of runs of checks),
    caches that nodes share, and installation. The binary is only replaced by one that the release key
    signed, whatever fails; what other nodes do meanwhile is a function on the disk that keeps the cache.
  \<^item> \<open>Sample_Env\<close>: a concrete environment at which the theorems are evaluated.

  What is an argument. Cryptography (BLAKE3, ChaCha20-Poly1305, ML-KEM, ML-DSA), compression,
  serialisers (bincode, postcard, rmp-serde), LMDB, the crate \<open>lru\<close>, the chain and its contracts
  (\<open>evmlib\<close>), the peer-to-peer node and the clock are records of functions. What the code relies on
  is stated as named laws over them (\<open>se_laws\<close>, \<open>postcard_laws\<close>, \<open>kv_laws\<close>, \<open>lru_laws\<close>,
  \<open>rmp_laws\<close>, ...) or as locales, each interpreted on the model; every theorem under such laws has a
  witness at a concrete environment.

  Conventions. A \<open>Result\<close> is a sum (\<open>Inl\<close> the error), error texts are datatypes with one
  constructor per message, a \<open>usize\<close> is a natural number, and integers whose overflow matters are
  words. A handler call is one atomic step; concurrency is explicit where the code depends on it: as a
  step relation (sessions, write transactions), or as the order in which futures complete
  (\<open>schedule\<close>, \<open>pick\<close>), over which the theorems quantify. The maximum chunk size is the argument
  \<open>mcs\<close>. Recursions that shrink data maps take fuel; \<open>encrypt_decrypt_round_trip\<close> shows that twice
  the number of chunks plus two suffices.

  Not modelled: the supervision of node processes by the client and its own update, devnets, bindings,
  command lines and logging, which act on the operating system and the network only; the Windows variants of
  the upgrade; the estimation of prices and the fraction of the rollout window (\<open>f64\<close>), which are
  arguments; the allowance of the token contract (\<open>approve_token_spend\<close>). Counters of bytes are natural numbers.
\<close>

end
